(* ===== verification/GoPrelude.thy ===== *)
theory GoPrelude
  imports Main "HOL-Library.Word"
begin

text \<open>
  Shared vocabulary of the development.

  A Go function that talks to the outside world (the Kubernetes API server, the container
  storage, the clock) is a function on a state \<open>'w sys\<close>: the unknown world \<open>'w\<close> together with
  the trace of what the code has done to it so far.  It ends in \<open>Ret a\<close> or in \<open>Panic\<close> (a Go
  run-time panic: nil dereference, index out of range, write to a nil map).  Code outside the
  repository is a parameter that maps a world to a response and a new world; \<open>call\<close> performs one
  such call and appends it, with its response, to the trace.

  \<open>wp\<close> is the weakest precondition of such a program.  The collection \<open>wp_simps\<close> holds its
  equations, so that a claim about a handler is reduced by \<open>simp\<close> to the handler's own branches.
\<close>

section \<open>Collections\<close>

named_theorems wp_simps \<open>weakest-precondition equations\<close>
named_theorems tspec_intros \<open>introduction rules for claims about every possible trace\<close>
named_theorems exec_simps \<open>equations that execute a program on a given state\<close>
named_theorems go_defs \<open>definitions of small Go helpers unfolded by the component proofs\<close>

section \<open>Go values\<close>

type_synonym int64 = "64 word"

text \<open>Points in time, in nanoseconds.\<close>
type_synonym time = int

text \<open>A Go map from strings to strings: \<open>None\<close> is the nil map.\<close>
type_synonym gomap = "(string \<rightharpoonup> string) option"

text \<open>Arguments of \<^verbatim>\<open>fmt\<close>-style verbs.\<close>
datatype farg = AStr string | ANat nat

datatype api_reason = NotFound | AlreadyExists | Conflict | OtherReason string

text \<open>
  Go errors.  \<open>Api\<close> is an error of the API server with its reason, \<open>Errorf\<close> an error made from a
  format string and its arguments, \<open>Wrapped\<close> an error with context put before it (\<^verbatim>\<open>errors.Wrap\<close>,
  \<^verbatim>\<open>fmt.Errorf\<close> with a final \<^verbatim>\<open>%w\<close>).
\<close>
datatype go_error =
    Api api_reason string
  | Errorf string "farg list"
  | Wrapped string "farg list" go_error

fun reason_of :: "go_error \<Rightarrow> api_reason option" where
  "reason_of (Api r _) = Some r"
| "reason_of (Errorf _ _) = None"
| "reason_of (Wrapped _ _ e) = reason_of e"

definition IsNotFound :: "go_error \<Rightarrow> bool" where
  "IsNotFound e \<longleftrightarrow> reason_of e = Some NotFound"

definition IsAlreadyExists :: "go_error \<Rightarrow> bool" where
  "IsAlreadyExists e \<longleftrightarrow> reason_of e = Some AlreadyExists"

definition IsConflict :: "go_error \<Rightarrow> bool" where
  "IsConflict e \<longleftrightarrow> reason_of e = Some Conflict"

text \<open>\<^verbatim>\<open>errors.Wrap(err, msg)\<close>: nil stays nil.\<close>
definition wrap :: "string \<Rightarrow> farg list \<Rightarrow> go_error option \<Rightarrow> go_error option" where
  "wrap msg args err = map_option (Wrapped msg args) err"

text \<open>Reading a missing key, or from the nil map, gives the empty string.\<close>
definition mget :: "gomap \<Rightarrow> string \<Rightarrow> string" where
  "mget m k = (case m of None \<Rightarrow> [] | Some f \<Rightarrow> (case f k of None \<Rightarrow> [] | Some v \<Rightarrow> v))"

text \<open>\<^verbatim>\<open>v, ok := m[k]\<close>\<close>
definition mlookup :: "gomap \<Rightarrow> string \<Rightarrow> string option" where
  "mlookup m k = (case m of None \<Rightarrow> None | Some f \<Rightarrow> f k)"

text \<open>Writing to a map that is not nil.\<close>
definition mput :: "gomap \<Rightarrow> string \<Rightarrow> string \<Rightarrow> gomap" where
  "mput m k v = map_option (\<lambda>f. f(k \<mapsto> v)) m"

text \<open>\<^verbatim>\<open>if m == nil { m = map[string]string{} }\<close>\<close>
definition mnonnil :: "gomap \<Rightarrow> gomap" where
  "mnonnil m = (case m of None \<Rightarrow> Some Map.empty | Some f \<Rightarrow> Some f)"

section \<open>Programs over an unknown world\<close>

datatype 'a outcome = Ret 'a | Panic

record ('w, 'e) sys =
  world :: 'w
  trace :: "'e list"

type_synonym ('w, 'e, 'a) go = "('w, 'e) sys \<Rightarrow> 'a outcome \<times> ('w, 'e) sys"

definition ret :: "'a \<Rightarrow> ('w, 'e, 'a) go" where
  "ret a s = (Ret a, s)"

definition panic :: "('w, 'e, 'a) go" where
  "panic s = (Panic, s)"

definition bind :: "('w, 'e, 'a) go \<Rightarrow> ('a \<Rightarrow> ('w, 'e, 'b) go) \<Rightarrow> ('w, 'e, 'b) go" where
  "bind m f s = (case m s of (Ret a, s') \<Rightarrow> f a s' | (Panic, s') \<Rightarrow> (Panic, s'))"

text \<open>One call of a function outside the repository, recorded in the trace.\<close>
definition call :: "('w \<Rightarrow> 'r \<times> 'w) \<Rightarrow> ('r \<Rightarrow> 'e) \<Rightarrow> ('w, 'e, 'r) go" where
  "call f mk s =
     (case f (world s) of (r, w') \<Rightarrow> (Ret r, s\<lparr>world := w', trace := trace s @ [mk r]\<rparr>))"

text \<open>An entry written to the trace without asking the world for anything.\<close>
definition emit :: "'e \<Rightarrow> ('w, 'e, unit) go" where
  "emit x s = (Ret (), s\<lparr>trace := trace s @ [x]\<rparr>)"

text \<open>A computation that does not touch the world but may panic.\<close>
definition lift :: "'a outcome \<Rightarrow> ('w, 'e, 'a) go" where
  "lift x = (case x of Ret a \<Rightarrow> ret a | Panic \<Rightarrow> panic)"

text \<open>
  Sequencing with early returns: \<open>Inl r\<close> is a \<^verbatim>\<open>return r\<close> of the enclosing function, \<open>Inr x\<close> goes on.
\<close>
definition bindR :: "('w, 'e, 'r + 'a) go \<Rightarrow> ('a \<Rightarrow> ('w, 'e, 'r) go) \<Rightarrow> ('w, 'e, 'r) go" where
  "bindR m f = bind m (\<lambda>x. case x of Inl r \<Rightarrow> ret r | Inr a \<Rightarrow> f a)"

text \<open>The state a run starts in.\<close>
definition start :: "'w \<Rightarrow> ('w, 'e) sys" where
  "start w = \<lparr>world = w, trace = []\<rparr>"

text \<open>A program with one kind of trace entries in the middle of a program with another.\<close>
definition relabel :: "('e \<Rightarrow> 'f) \<Rightarrow> ('w, 'e, 'a) go \<Rightarrow> ('w, 'f, 'a) go" where
  "relabel f m s =
     (case m (start (world s)) of (r, s') \<Rightarrow> (r, \<lparr>world = world s', trace = trace s @ map f (trace s')\<rparr>))"

definition wp :: "('w, 'e, 'a) go \<Rightarrow> ('a \<Rightarrow> ('w, 'e) sys \<Rightarrow> bool) \<Rightarrow>
    (('w, 'e) sys \<Rightarrow> bool) \<Rightarrow> ('w, 'e) sys \<Rightarrow> bool" where
  "wp m Q E s = (case m s of (Ret a, s') \<Rightarrow> Q a s' | (Panic, s') \<Rightarrow> E s')"

text \<open>
  \<open>tspec m P\<close>: whatever the outside world answers, the outcome of \<open>m\<close> and the entries it appends to
  the trace satisfy \<open>P\<close>.  Its introduction rules (\<open>tspec_intros\<close>) execute a handler symbolically.
\<close>
definition tspec :: "('w, 'e, 'a) go \<Rightarrow> ('a outcome \<Rightarrow> 'e list \<Rightarrow> bool) \<Rightarrow> bool" where
  "tspec m P \<longleftrightarrow> (\<forall>s. \<exists>ext. trace (snd (m s)) = trace s @ ext \<and> P (fst (m s)) ext)"

section \<open>Lemmas on Go values\<close>

lemma reason_of_wrap [simp]: "reason_of (Wrapped m a e) = reason_of e"
  by simp

lemma is_reason_Wrapped [simp]:
  "IsNotFound (Wrapped m a e) = IsNotFound e"
  "IsAlreadyExists (Wrapped m a e) = IsAlreadyExists e"
  "IsConflict (Wrapped m a e) = IsConflict e"
  by (simp_all add: IsNotFound_def IsAlreadyExists_def IsConflict_def)

lemma is_reason_Api [simp]:
  "IsNotFound (Api r m) \<longleftrightarrow> r = NotFound"
  "IsAlreadyExists (Api r m) \<longleftrightarrow> r = AlreadyExists"
  "IsConflict (Api r m) \<longleftrightarrow> r = Conflict"
  by (simp_all add: IsNotFound_def IsAlreadyExists_def IsConflict_def)

lemma is_reason_Errorf [simp]:
  "\<not> IsNotFound (Errorf m a)"
  "\<not> IsAlreadyExists (Errorf m a)"
  "\<not> IsConflict (Errorf m a)"
  by (simp_all add: IsNotFound_def IsAlreadyExists_def IsConflict_def)

lemma NotFound_not_AlreadyExists: "IsNotFound e \<Longrightarrow> \<not> IsAlreadyExists e"
  by (simp add: IsNotFound_def IsAlreadyExists_def)

lemma wrap_simps [simp]:
  "wrap m a None = None"
  "wrap m a (Some e) = Some (Wrapped m a e)"
  "(wrap m a x = None) = (x = None)"
  by (simp_all add: wrap_def)

lemma mget_simps [simp]:
  "mget None k = []"
  "mget (Some Map.empty) k = []"
  by (simp_all add: mget_def)

lemma mget_Some: "mget (Some f) k = (case f k of None \<Rightarrow> [] | Some v \<Rightarrow> v)"
  by (simp add: mget_def)

lemma mput_simps [simp]:
  "(mput m k v = None) = (m = None)"
  "mlookup (mput (Some f) k v) k' = (if k' = k then Some v else f k')"
  by (auto simp: mput_def mlookup_def)

lemma mput_ex [simp]: "(\<exists>f. mput m k v = Some f) = (\<exists>f. m = Some f)"
  by (cases m) (auto simp: mput_def)

lemma mnonnil_ex [simp]: "\<exists>f. mnonnil m = Some f"
  by (cases m) (auto simp: mnonnil_def)

lemma mget_mput: "m \<noteq> None \<Longrightarrow> mget (mput m k v) k' = (if k' = k then v else mget m k')"
  by (auto simp: mput_def mget_def)

lemma mget_mput_Some [simp]: "mget (mput (Some f) k v) k' = (if k' = k then v else mget (Some f) k')"
  by (simp add: mget_mput)

lemma mnonnil_simps [simp]:
  "mnonnil m \<noteq> None"
  "mget (mnonnil m) k = mget m k"
  "mlookup (mnonnil m) k = mlookup m k"
  by (auto simp: mnonnil_def mget_def mlookup_def split: option.splits)

lemma mget_mlookup: "mget m k = (case mlookup m k of None \<Rightarrow> [] | Some v \<Rightarrow> v)"
  by (simp add: mget_def mlookup_def split: option.splits)

lemma mget_nonempty_nonnil: "mget m k \<noteq> [] \<Longrightarrow> m \<noteq> None"
  by (cases m) auto

lemma fold_keep [simp]: "fold (\<lambda>x b. b) xs y = y"
  by (induction xs) auto

section \<open>The weakest-precondition calculus\<close>

lemma wp_ret [wp_simps]: "wp (ret a) Q E s = Q a s"
  by (simp add: wp_def ret_def)

lemma wp_panic [wp_simps]: "wp panic Q E s = E s"
  by (simp add: wp_def panic_def)

lemma wp_bind [wp_simps]: "wp (bind m f) Q E s = wp m (\<lambda>a. wp (f a) Q E) E s"
  by (simp add: wp_def bind_def split: prod.splits outcome.splits)

lemma wp_lift [wp_simps]:
  "wp (lift x) Q E s = (case x of Ret a \<Rightarrow> Q a s | Panic \<Rightarrow> E s)"
  by (simp add: wp_def lift_def ret_def panic_def split: outcome.splits)

lemma lift_simps [simp]: "lift (Ret a) = ret a" "lift Panic = panic"
  by (simp_all add: lift_def)

lemma wp_emit [wp_simps]: "wp (emit x) Q E s = Q () (s\<lparr>trace := trace s @ [x]\<rparr>)"
  by (simp add: wp_def emit_def)

lemma wp_call [wp_simps]:
  "wp (call f mk) Q E s =
     (let r = fst (f (world s)); w' = snd (f (world s))
      in Q r (s\<lparr>world := w', trace := trace s @ [mk r]\<rparr>))"
  by (simp add: wp_def call_def Let_def split: prod.splits)

text \<open>Whatever the outside world answers: the rule for claims that hold for every client.\<close>

lemma wp_callI:
  "(\<And>r w'. Q r (s\<lparr>world := w', trace := trace s @ [mk r]\<rparr>)) \<Longrightarrow> wp (call f mk) Q E s"
  by (simp add: wp_call)

lemma wp_if [wp_simps]: "wp (if b then m else n) Q E s = (if b then wp m Q E s else wp n Q E s)"
  by simp

lemma wp_case_option [wp_simps]:
  "wp (case x of None \<Rightarrow> m | Some y \<Rightarrow> f y) Q E s =
     (case x of None \<Rightarrow> wp m Q E s | Some y \<Rightarrow> wp (f y) Q E s)"
  by (simp split: option.splits)

lemma wp_case_sum [wp_simps]:
  "wp (case x of Inl y \<Rightarrow> f y | Inr z \<Rightarrow> g z) Q E s =
     (case x of Inl y \<Rightarrow> wp (f y) Q E s | Inr z \<Rightarrow> wp (g z) Q E s)"
  by (simp split: sum.splits)

lemma wp_case_prod [wp_simps]:
  "wp (case x of (y, z) \<Rightarrow> f y z) Q E s = (case x of (y, z) \<Rightarrow> wp (f y z) Q E s)"
  by (simp split: prod.splits)

lemma wp_Let [wp_simps]: "wp (Let x f) Q E s = (let y = x in wp (f y) Q E s)"
  by simp

lemma wp_mono:
  assumes "wp m Q E s"
    and "\<And>a s'. Q a s' \<Longrightarrow> Q' a s'"
    and "\<And>s'. E s' \<Longrightarrow> E' s'"
  shows "wp m Q' E' s"
  using assms by (auto simp: wp_def split: prod.splits outcome.splits)

lemma wp_conj:
  assumes "wp m Q E s" and "wp m Q' E' s"
  shows "wp m (\<lambda>a s'. Q a s' \<and> Q' a s') (\<lambda>s'. E s' \<and> E' s') s"
  using assms by (auto simp: wp_def split: prod.splits outcome.splits)

lemma wp_RetD: "wp m Q E s \<Longrightarrow> m s = (Ret a, s') \<Longrightarrow> Q a s'"
  by (simp add: wp_def)

lemma wp_PanicD: "wp m Q E s \<Longrightarrow> m s = (Panic, s') \<Longrightarrow> E s'"
  by (simp add: wp_def)

lemma wp_final: "wp m (\<lambda>_. P) P s \<Longrightarrow> P (snd (m s))"
  by (auto simp: wp_def split: prod.splits outcome.splits)

lemma bind_simps [simp]:
  "bind (ret a) f = f a"
  "bind panic f = panic"
  by (auto simp: bind_def ret_def panic_def)

lemma bind_assoc: "bind (bind m f) g = bind m (\<lambda>a. bind (f a) g)"
  by (auto simp: bind_def split: prod.splits outcome.splits)


section \<open>Claims about every possible trace\<close>

lemma tspec_ret [tspec_intros]: "P (Ret a) [] \<Longrightarrow> tspec (ret a) P"
  by (simp add: tspec_def ret_def)

lemma tspec_panic [tspec_intros]: "P Panic [] \<Longrightarrow> tspec panic P"
  by (simp add: tspec_def panic_def)

lemma tspec_call: "(\<And>r. P (Ret r) [mk r]) \<Longrightarrow> tspec (call f mk) P"
  by (simp add: tspec_def call_def split: prod.splits)

lemma tspec_emit: "P (Ret ()) [x] \<Longrightarrow> tspec (emit x) P"
  by (simp add: tspec_def emit_def)

lemma tspec_bind:
  assumes m: "tspec m R"
    and f: "\<And>a t. R (Ret a) t \<Longrightarrow> tspec (f a) (\<lambda>r u. P r (t @ u))"
    and e: "\<And>t. R Panic t \<Longrightarrow> P Panic t"
  shows "tspec (bind m f) P"
  unfolding tspec_def
proof
  fix s
  obtain o1 s1 where r: "m s = (o1, s1)" by fastforce
  from m r obtain t where t: "trace s1 = trace s @ t" "R o1 t"
    by (auto simp: tspec_def dest: spec [of _ s])
  show "\<exists>ext. trace (snd (bind m f s)) = trace s @ ext \<and> P (fst (bind m f s)) ext"
  proof (cases o1)
    case (Ret a)
    from f [of a t] t(2) Ret obtain u
      where "trace (snd (f a s1)) = trace s1 @ u" "P (fst (f a s1)) (t @ u)"
      by (auto simp: tspec_def dest: spec [of _ s1])
    with r t(1) Ret show ?thesis by (auto simp: bind_def)
  next
    case Panic
    with e t r show ?thesis by (auto simp: bind_def)
  qed
qed

lemma tspec_bindR:
  assumes "tspec m R"
    and "\<And>r t. R (Ret (Inl r)) t \<Longrightarrow> P (Ret r) t"
    and "\<And>a t. R (Ret (Inr a)) t \<Longrightarrow> tspec (f a) (\<lambda>r u. P r (t @ u))"
    and "\<And>t. R Panic t \<Longrightarrow> P Panic t"
  shows "tspec (bindR m f) P"
  unfolding bindR_def using assms
  by (auto intro!: tspec_bind [OF assms(1)] tspec_ret split: sum.splits)

lemma tspec_bind_call [tspec_intros]:
  "(\<And>r. tspec (f r) (\<lambda>o1 u. P o1 (mk r # u))) \<Longrightarrow> tspec (bind (call g mk) f) P"
  by (rule tspec_bind [where R = "\<lambda>o1 t. \<exists>r. o1 = Ret r \<and> t = [mk r]"]) (auto intro: tspec_call)

lemma tspec_bind_emit [tspec_intros]:
  "tspec (f ()) (\<lambda>o1 u. P o1 (x # u)) \<Longrightarrow> tspec (bind (emit x) f) P"
  by (rule tspec_bind [where R = "\<lambda>o1 t. o1 = Ret () \<and> t = [x]"]) (auto intro: tspec_emit)

lemma tspec_if [tspec_intros]:
  "(b \<Longrightarrow> tspec m P) \<Longrightarrow> (\<not> b \<Longrightarrow> tspec n P) \<Longrightarrow> tspec (if b then m else n) P"
  by simp

lemma tspec_option [tspec_intros]:
  "(x = None \<Longrightarrow> tspec m P) \<Longrightarrow> (\<And>y. x = Some y \<Longrightarrow> tspec (f y) P) \<Longrightarrow>
   tspec (case x of None \<Rightarrow> m | Some y \<Rightarrow> f y) P"
  by (cases x) auto

lemma tspec_sum [tspec_intros]:
  "(\<And>y. x = Inl y \<Longrightarrow> tspec (f y) P) \<Longrightarrow> (\<And>z. x = Inr z \<Longrightarrow> tspec (g z) P) \<Longrightarrow>
   tspec (case x of Inl y \<Rightarrow> f y | Inr z \<Rightarrow> g z) P"
  by (cases x) auto

lemma tspec_prod [tspec_intros]:
  "(\<And>y z. x = (y, z) \<Longrightarrow> tspec (f y z) P) \<Longrightarrow> tspec (case x of (y, z) \<Rightarrow> f y z) P"
  by (cases x) auto

lemma tspec_lift: "(\<And>a. x = Ret a \<Longrightarrow> P (Ret a) []) \<Longrightarrow> (x = Panic \<Longrightarrow> P Panic []) \<Longrightarrow> tspec (lift x) P"
  by (cases x) (auto intro: tspec_ret tspec_panic)

lemma tspec_bind_lift [tspec_intros]:
  "(\<And>a. x = Ret a \<Longrightarrow> tspec (f a) P) \<Longrightarrow> (x = Panic \<Longrightarrow> P Panic []) \<Longrightarrow> tspec (bind (lift x) f) P"
  by (cases x) (auto intro: tspec_panic)

lemma tspec_mono: "tspec m P \<Longrightarrow> (\<And>r t. P r t \<Longrightarrow> Q r t) \<Longrightarrow> tspec m Q"
  unfolding tspec_def by blast

lemma tspec_conj: "tspec m P \<Longrightarrow> tspec m Q \<Longrightarrow> tspec m (\<lambda>r t. P r t \<and> Q r t)"
  unfolding tspec_def by (metis same_append_eq)

lemma tspec_start: "tspec m P \<Longrightarrow> P (fst (m (start w))) (trace (snd (m (start w))))"
  by (auto simp: tspec_def start_def dest: spec [of _ "\<lparr>world = w, trace = []\<rparr>"])

lemma relabel_run:
  "m (start (world s)) = (r, s') \<Longrightarrow> relabel f m s = (r, \<lparr>world = world s', trace = trace s @ map f (trace s')\<rparr>)"
  by (simp add: relabel_def)

lemma tspec_relabel:
  assumes "\<And>w. P (fst (m (start w))) (map f (trace (snd (m (start w)))))"
  shows "tspec (relabel f m) P"
  unfolding tspec_def
proof
  fix s
  show "\<exists>ext. trace (snd (relabel f m s)) = trace s @ ext \<and> P (fst (relabel f m s)) ext"
    using assms [of "world s"] by (auto simp: relabel_def split: prod.splits)
qed

lemma bindR_simps [simp]: "bindR (ret (Inl r)) f = ret r" "bindR (ret (Inr a)) f = f a" "bindR panic f = panic"
  by (simp_all add: bindR_def)

lemma bindR_bind: "bindR (bind m g) f = bind m (\<lambda>a. bindR (g a) f)"
  by (simp add: bindR_def bind_assoc)


section \<open>Execution\<close>

text \<open>Running a program on a state, as a constant of its own so that \<open>simp\<close> executes it in order.\<close>
definition exec :: "('w, 'e, 'a) go \<Rightarrow> ('w, 'e) sys \<Rightarrow> 'a outcome \<times> ('w, 'e) sys" where
  "exec m s = m s"

lemma exec_basic [exec_simps]:
  "exec (ret a) s = (Ret a, s)"
  "exec panic s = (Panic, s)"
  "exec (emit x) s = (Ret (), s\<lparr>trace := trace s @ [x]\<rparr>)"
  "exec (bind (emit x) f) s = exec (f ()) (s\<lparr>trace := trace s @ [x]\<rparr>)"
  by (simp_all add: exec_def emit_def bind_def ret_def panic_def)

lemmas exec_assoc [exec_simps] = bind_assoc

end
