(* ===== verification/ApiTypes.thy ===== *)
theory ApiTypes
  imports GoPrelude
begin

text \<open>
  The data the program works on.  \<open>CacheSpec\<close>, \<open>CacheStatus\<close>, \<open>StorageProvisionerSpec\<close> and their
  parts follow \<^verbatim>\<open>api/v1alpha1\<close> field by field.  Of the Kubernetes core types (outside the
  repository) the records hold the fields the repository reads or writes.  A pointer field is an
  \<open>option\<close>, a slice whose nil value is told apart from the empty one is an \<open>option\<close> of a list, a
  Go string type with named constants stays a string.  \<open>zero_*\<close> is the zero value of a struct.
\<close>

section \<open>Kubernetes metadata\<close>

record nsname =
  nn_Name :: string
  nn_Namespace :: string

record objmeta =
  m_Name :: string
  m_Namespace :: string
  m_UID :: string
  m_ResourceVersion :: string
  m_Generation :: int64
  m_DeletionTimestamp :: "time option"
  m_Annotations :: gomap
  m_Finalizers :: "string list"

definition zero_meta :: objmeta where
  "zero_meta = \<lparr>m_Name = [], m_Namespace = [], m_UID = [], m_ResourceVersion = [],
     m_Generation = 0, m_DeletionTimestamp = None, m_Annotations = None, m_Finalizers = []\<rparr>"

text \<open>\<^verbatim>\<open>metav1.Condition\<close>\<close>
record condition =
  c_Type :: string
  c_Status :: string
  c_ObservedGeneration :: int64
  c_LastTransitionTime :: time
  c_Reason :: string
  c_Message :: string

definition ConditionTrue :: string where
  "ConditionTrue = ''True''"

definition ConditionFalse :: string where
  "ConditionFalse = ''False''"

section \<open>Volumes, claims and pods\<close>

record objref =
  r_APIVersion :: string
  r_Kind :: string
  r_Name :: string
  r_Namespace :: string
  r_UID :: string
  r_ResourceVersion :: string

type_synonym quantities = "(string \<rightharpoonup> string) option"

record pvc =
  pvc_meta :: objmeta
  pvc_AccessModes :: "string list"
  pvc_VolumeMode :: "string option"
  pvc_StorageClassName :: "string option"
  pvc_VolumeName :: string
  pvc_Requests :: quantities

definition zero_pvc :: pvc where
  "zero_pvc = \<lparr>pvc_meta = zero_meta, pvc_AccessModes = [], pvc_VolumeMode = None,
     pvc_StorageClassName = None, pvc_VolumeName = [], pvc_Requests = None\<rparr>"

record matchexpr =
  e_Key :: string
  e_Operator :: string
  e_Values :: "string list"

text \<open>\<open>NodeAffinity.Required.NodeSelectorTerms[].MatchExpressions\<close>\<close>
record nodeaffinity =
  na_Required :: "matchexpr list list option"

record pvspec =
  s_Capacity :: quantities
  s_StorageClassName :: string
  s_ClaimRef :: "objref option"
  s_VolumeMode :: "string option"
  s_HostPath :: "string option"
  s_NodeAffinity :: "nodeaffinity option"
  s_ReclaimPolicy :: string

definition zero_pvspec :: pvspec where
  "zero_pvspec = \<lparr>s_Capacity = None, s_StorageClassName = [], s_ClaimRef = None,
     s_VolumeMode = None, s_HostPath = None, s_NodeAffinity = None, s_ReclaimPolicy = []\<rparr>"

record pv =
  pv_meta :: objmeta
  pv_spec :: pvspec
  pv_Phase :: string

definition zero_pv :: pv where
  "zero_pv = \<lparr>pv_meta = zero_meta, pv_spec = zero_pvspec, pv_Phase = []\<rparr>"

record envvar =
  v_Name :: string
  v_Value :: string
  v_ValueFrom :: "string option"

record volumemount =
  vm_Name :: string
  vm_MountPath :: string

record container =
  k_Name :: string
  k_Image :: string
  k_Command :: "string list option"
  k_Args :: "string list"
  k_Env :: "envvar list"
  k_VolumeMounts :: "volumemount list"

text \<open>A pod volume: its name, the claim it refers to (name and read-only flag), any other source.\<close>
record volume =
  vol_Name :: string
  vol_Claim :: "(string \<times> bool) option"
  vol_Source :: "string option"

record podspec =
  p_Volumes :: "volume list"
  p_Containers :: "container list"
  p_RestartPolicy :: string
  p_NodeName :: string
  p_ServiceAccountName :: string

definition zero_podspec :: podspec where
  "zero_podspec = \<lparr>p_Volumes = [], p_Containers = [], p_RestartPolicy = [], p_NodeName = [],
     p_ServiceAccountName = []\<rparr>"

record pod =
  pod_meta :: objmeta
  pod_spec :: podspec
  pod_Phase :: string

definition zero_pod :: pod where
  "zero_pod = \<lparr>pod_meta = zero_meta, pod_spec = zero_podspec, pod_Phase = []\<rparr>"

record storageclass =
  sc_meta :: objmeta
  sc_VolumeBindingMode :: "string option"

definition zero_sc :: storageclass where
  "zero_sc = \<lparr>sc_meta = zero_meta, sc_VolumeBindingMode = None\<rparr>"

definition PodSucceeded :: string where "PodSucceeded = ''Succeeded''"
definition PodFailed :: string where "PodFailed = ''Failed''"
definition RestartPolicyNever :: string where "RestartPolicyNever = ''Never''"
definition RestartPolicyOnFailure :: string where "RestartPolicyOnFailure = ''OnFailure''"
definition VolumeBound :: string where "VolumeBound = ''Bound''"
definition ReclaimDelete :: string where "ReclaimDelete = ''Delete''"
definition ReadWriteOnce :: string where "ReadWriteOnce = ''ReadWriteOnce''"
definition WaitForFirstConsumer :: string where "WaitForFirstConsumer = ''WaitForFirstConsumer''"
definition NodeSelectorOpIn :: string where "NodeSelectorOpIn = ''In''"
definition BetaStorageClassAnnotation :: string where
  "BetaStorageClassAnnotation = ''volume.beta.kubernetes.io/storage-class''"

section \<open>StorageProvisioner (api/v1alpha1/storageprovisioner\_types.go)\<close>

definition ConditionConfigured :: string where "ConditionConfigured = ''Configured''"
definition AnnotationPersistentVolumeClaimNoProtection :: string where
  "AnnotationPersistentVolumeClaimNoProtection = ''k8storagex.mgoltzsche.github.com/no-pvc-protection''"
definition Enabled :: string where "Enabled = ''true''"

record env_mapping =
  em_Name :: string
  em_Annotation :: string
  em_Required :: "bool option"

record node_path =
  np_Name :: string
  np_Path :: string

record provisioner_container =
  pc_Command :: "string list option"
  pc_Env :: "envvar list"

record containers =
  cs_Provisioner :: provisioner_container
  cs_Deprovisioner :: provisioner_container

record provisioner_spec =
  ps_Name :: string
  ps_DeprovisionOnPodCompletion :: bool
  ps_PersistentVolumeTemplate :: pvspec
  ps_PodTemplate :: podspec
  ps_Containers :: containers
  ps_Env :: "env_mapping list"
  ps_Nodes :: "node_path list"

record storage_provisioner =
  sp_meta :: objmeta
  sp_spec :: provisioner_spec
  sp_Conditions :: "condition list"

definition zero_provisioner_container :: provisioner_container where
  "zero_provisioner_container = \<lparr>pc_Command = None, pc_Env = []\<rparr>"

definition zero_provisioner_spec :: provisioner_spec where
  "zero_provisioner_spec = \<lparr>ps_Name = [], ps_DeprovisionOnPodCompletion = False,
     ps_PersistentVolumeTemplate = zero_pvspec, ps_PodTemplate = zero_podspec,
     ps_Containers = \<lparr>cs_Provisioner = zero_provisioner_container,
       cs_Deprovisioner = zero_provisioner_container\<rparr>,
     ps_Env = [], ps_Nodes = []\<rparr>"

definition zero_storage_provisioner :: storage_provisioner where
  "zero_storage_provisioner =
     \<lparr>sp_meta = zero_meta, sp_spec = zero_provisioner_spec, sp_Conditions = []\<rparr>"

definition GetProvisionerName :: "storage_provisioner \<Rightarrow> string" where
  "GetProvisionerName p = ps_Name (sp_spec p)"

section \<open>Cache (api/v1alpha1/cache\_types.go)\<close>

definition CachePhaseReady :: string where "CachePhaseReady = ''ready''"
definition CachePhaseReject :: string where "CachePhaseReject = ''reject''"
definition CacheFinalizer :: string where
  "CacheFinalizer = ''k8storagex.mgoltzsche.github.com/finalizer''"
definition ConditionStorageReset :: string where "ConditionStorageReset = ''StorageReset''"
definition ConditionPodsCleared :: string where "ConditionPodsCleared = ''PodsCleared''"

record volume_status =
  vs_Name :: string
  vs_CacheGeneration :: int64
  vs_Created :: time
  vs_Committable :: bool
  vs_CommitStartTime :: "time option"

record volume_error =
  ve_VolumeName :: string
  ve_CacheGeneration :: "int64 option"
  ve_Error :: string
  ve_Happened :: time

record node_status =
  ns_Name :: string
  ns_CacheGeneration :: int64
  ns_LastUsed :: time
  ns_LastImageID :: string
  ns_Volumes :: "volume_status list"
  ns_LastError :: "volume_error option"

record reset_status =
  rs_CacheGeneration :: int64
  rs_ResetTime :: time

record cache_status =
  cst_Image :: string
  cst_CacheGeneration :: int64
  cst_LastImageID :: "string option"
  cst_LastUsed :: "time option"
  cst_LastWritten :: "time option"
  cst_LastReset :: "reset_status option"
  cst_Used :: int64
  cst_Nodes :: "node_status list"
  cst_Phase :: string
  cst_Conditions :: "condition list"

record cache =
  ca_meta :: objmeta
  ca_ReadOnly :: bool
  ca_status :: cache_status

definition zero_cache_status :: cache_status where
  "zero_cache_status = \<lparr>cst_Image = [], cst_CacheGeneration = 0, cst_LastImageID = None,
     cst_LastUsed = None, cst_LastWritten = None, cst_LastReset = None, cst_Used = 0,
     cst_Nodes = [], cst_Phase = [], cst_Conditions = []\<rparr>"

definition zero_cache :: cache where
  "zero_cache = \<lparr>ca_meta = zero_meta, ca_ReadOnly = False, ca_status = zero_cache_status\<rparr>"

section \<open>Facts on the named constants\<close>

lemma phase_distinct [simp]:
  "PodSucceeded \<noteq> PodFailed" "PodFailed \<noteq> PodSucceeded"
  "PodSucceeded \<noteq> []" "PodFailed \<noteq> []"
  by (simp_all add: PodSucceeded_def PodFailed_def)

lemma condition_status_distinct [simp]:
  "ConditionTrue \<noteq> ConditionFalse" "ConditionFalse \<noteq> ConditionTrue"
  by (simp_all add: ConditionTrue_def ConditionFalse_def)

lemma restart_policy_distinct [simp]:
  "RestartPolicyNever \<noteq> RestartPolicyOnFailure" "RestartPolicyOnFailure \<noteq> RestartPolicyNever"
  by (simp_all add: RestartPolicyNever_def RestartPolicyOnFailure_def)

lemma Enabled_nonempty [simp]: "Enabled \<noteq> []"
  by (simp add: Enabled_def)

end
