(* ===== verification/GoStd.thy ===== *)
theory GoStd
  imports GoPrelude "HOL-Library.List_Lexorder" "HOL-Library.Char_ord" "HOL-Library.Sublist"
begin

text \<open>
  The parts of the Go standard library that the repository calls: \<^verbatim>\<open>strings\<close>, \<^verbatim>\<open>fmt\<close>, \<^verbatim>\<open>sort\<close> and
  \<^verbatim>\<open>path/filepath\<close> as they behave on Linux in Go 1.15, the toolchain of the repository's Dockerfiles.
  Strings are byte strings; \<open>Match\<close> reads one byte as one character, which is exact for ASCII
  (Kubernetes node names are ASCII).  None of these definitions models code of the repository.
\<close>

section \<open>strings\<close>

definition HasPrefix :: "string \<Rightarrow> string \<Rightarrow> bool" where
  "HasPrefix s p = prefix p s"

definition HasSuffix :: "string \<Rightarrow> string \<Rightarrow> bool" where
  "HasSuffix s p = suffix p s"

definition ContainsChar :: "string \<Rightarrow> char \<Rightarrow> bool" where
  "ContainsChar s c \<longleftrightarrow> c \<in> set s"

text \<open>\<^verbatim>\<open>strings.Split(s, sep)\<close> for a separator of one character: never empty.\<close>
fun Split :: "char \<Rightarrow> string \<Rightarrow> string list" where
  "Split c [] = [[]]"
| "Split c (x # xs) =
     (if x = c then [] # Split c xs
      else (case Split c xs of [] \<Rightarrow> [[x]] | y # ys \<Rightarrow> (x # y) # ys))"

fun Join :: "char \<Rightarrow> string list \<Rightarrow> string" where
  "Join c [] = []"
| "Join c [x] = x"
| "Join c (x # y # ys) = x @ c # Join c (y # ys)"

text \<open>\<^verbatim>\<open>strings.ToUpper\<close> of an ASCII string.\<close>
definition ToUpper :: "string \<Rightarrow> string" where
  "ToUpper s = map (\<lambda>c. if CHR ''a'' \<le> c \<and> c \<le> CHR ''z'' then char_of (of_char c - (32::nat)) else c) s"

section \<open>fmt\<close>

definition hex_digit :: "nat \<Rightarrow> char" where
  "hex_digit n = ''0123456789abcdef'' ! (n mod 16)"

fun show_nat :: "nat \<Rightarrow> string" where
  "show_nat n = (if n < 10 then [hex_digit n] else show_nat (n div 10) @ [hex_digit (n mod 10)])"

definition quote_char :: "char \<Rightarrow> string" where
  "quote_char c =
     (if c = CHR 0x22 \<or> c = CHR 0x5C then [CHR 0x5C, c]
      else if 32 \<le> (of_char c :: nat) \<and> (of_char c :: nat) \<noteq> 127 then [c]
      else if c = CHR 0x07 then [CHR 0x5C, CHR ''a'']
      else if c = CHR 0x08 then [CHR 0x5C, CHR ''b'']
      else if c = CHR 0x0C then [CHR 0x5C, CHR ''f'']
      else if c = CHR 0x0A then [CHR 0x5C, CHR ''n'']
      else if c = CHR 0x0D then [CHR 0x5C, CHR ''r'']
      else if c = CHR 0x09 then [CHR 0x5C, CHR ''t'']
      else if c = CHR 0x0B then [CHR 0x5C, CHR ''v'']
      else [CHR 0x5C, CHR ''x'', hex_digit (of_char c div 16), hex_digit (of_char c)])"

text \<open>The verb \<^verbatim>\<open>%q\<close>.\<close>
definition Quote :: "string \<Rightarrow> string" where
  "Quote s = [CHR 0x22] @ concat (map quote_char s) @ [CHR 0x22]"

fun show_arg :: "char \<Rightarrow> farg \<Rightarrow> string" where
  "show_arg v (AStr s) = (if v = CHR ''q'' then Quote s else s)"
| "show_arg v (ANat n) = show_nat n"

text \<open>\<^verbatim>\<open>fmt.Sprintf\<close> with no more arguments than verbs, for the verbs \<^verbatim>\<open>%s\<close>, \<^verbatim>\<open>%v\<close>, \<^verbatim>\<open>%q\<close> and \<^verbatim>\<open>%d\<close>.\<close>
fun Sprintf :: "string \<Rightarrow> farg list \<Rightarrow> string" where
  "Sprintf [] as = []"
| "Sprintf [c] as = (if c = CHR ''%'' then ''%!(NOVERB)'' else [c])"
| "Sprintf (c # v # cs) as =
     (if c = CHR ''%'' then
        (if v = CHR ''%'' then CHR ''%'' # Sprintf cs as
         else case as of
           [] \<Rightarrow> ''%!'' @ [v] @ ''(MISSING)'' @ Sprintf cs []
         | a # as' \<Rightarrow> show_arg v a @ Sprintf cs as')
      else c # Sprintf (v # cs) as)"

text \<open>The method \<^verbatim>\<open>Error()\<close> of an error value.\<close>
fun error_string :: "go_error \<Rightarrow> string" where
  "error_string (Api r msg) = msg"
| "error_string (Errorf f as) = Sprintf f as"
| "error_string (Wrapped f as e) = Sprintf f as @ '': '' @ error_string e"

section \<open>path/filepath\<close>

abbreviation slash :: char where
  "slash \<equiv> CHR 0x2F"

definition IsAbs :: "string \<Rightarrow> bool" where
  "IsAbs p = HasPrefix p [slash]"

text \<open>One path element pushed on the (reversed) stack of elements kept so far.\<close>
definition clean_step :: "bool \<Rightarrow> string \<Rightarrow> string list \<Rightarrow> string list" where
  "clean_step rooted x st =
     (if x = [] \<or> x = ''.'' then st
      else if x = ''..'' then
        (case st of
           [] \<Rightarrow> (if rooted then [] else [''..''])
         | y # ys \<Rightarrow> (if y = ''..'' then ''..'' # st else ys))
      else x # st)"

definition clean_elems :: "bool \<Rightarrow> string \<Rightarrow> string list" where
  "clean_elems rooted p = rev (fold (clean_step rooted) (Split slash p) [])"

definition Clean :: "string \<Rightarrow> string" where
  "Clean p =
     (let rooted = IsAbs p; es = clean_elems rooted p
      in if rooted then slash # Join slash es
         else if es = [] then ''.'' else Join slash es)"

text \<open>\<^verbatim>\<open>filepath.Dir\<close>: everything up to the last slash, cleaned.\<close>
definition Dir :: "string \<Rightarrow> string" where
  "Dir p = Clean (rev (dropWhile (\<lambda>c. c \<noteq> slash) (rev p)))"

definition Base :: "string \<Rightarrow> string" where
  "Base p =
     (if p = [] then ''.''
      else let q = dropWhile (\<lambda>c. c = slash) (rev p);
               b = rev (takeWhile (\<lambda>c. c \<noteq> slash) q)
           in if b = [] then [slash] else b)"

subsection \<open>Match\<close>

text \<open>\<^verbatim>\<open>getEsc\<close>: \<open>None\<close> is \<^verbatim>\<open>ErrBadPattern\<close>.\<close>
definition getEsc :: "string \<Rightarrow> (char \<times> string) option" where
  "getEsc chunk =
     (case chunk of
        [] \<Rightarrow> None
      | c # cs \<Rightarrow>
          if c = CHR ''-'' \<or> c = CHR '']'' then None
          else if c = CHR 0x5C then
            (case cs of [] \<Rightarrow> None | d # ds \<Rightarrow> if ds = [] then None else Some (d, ds))
          else if cs = [] then None else Some (c, cs))"

text \<open>The ranges of a character class, up to and including the closing bracket.\<close>
function class_ranges :: "char \<Rightarrow> string \<Rightarrow> bool \<Rightarrow> bool \<Rightarrow> (bool \<times> string) option" where
  "class_ranges r chunk matched first =
     (if \<not> first \<and> chunk \<noteq> [] \<and> hd chunk = CHR '']'' then Some (matched, tl chunk)
      else case getEsc chunk of
        None \<Rightarrow> None
      | Some (lo, rest) \<Rightarrow>
          (case rest of
             [] \<Rightarrow> None
           | d # ds \<Rightarrow>
               if d = CHR ''-'' then
                 (case getEsc ds of
                    None \<Rightarrow> None
                  | Some (hi, rest') \<Rightarrow> class_ranges r rest' (matched \<or> (lo \<le> r \<and> r \<le> hi)) False)
               else class_ranges r rest (matched \<or> r = lo) False))"
  by pat_completeness auto
termination
  by (relation "measure (\<lambda>(r, chunk, m, f). length chunk)")
     (auto simp: getEsc_def split: list.splits if_splits)

datatype chunk_result = BadPattern | NoMatch | Rest string

fun matchChunk :: "string \<Rightarrow> string \<Rightarrow> chunk_result" where
  "matchChunk [] s = Rest s"
| "matchChunk (c # cs) [] = NoMatch"
| "matchChunk (c # cs) (x # xs) =
     (if c = CHR ''['' then
        (if cs = [] then BadPattern
         else let negated = (hd cs = CHR ''^'');
                  body = (if negated then tl cs else cs)
              in case class_ranges x body False True of
                   None \<Rightarrow> BadPattern
                 | Some (m, rest) \<Rightarrow> if m = negated then NoMatch else matchChunk rest xs)
      else if c = CHR ''?'' then (if x = slash then NoMatch else matchChunk cs xs)
      else if c = CHR 0x5C then
        (case cs of [] \<Rightarrow> BadPattern
         | d # ds \<Rightarrow> if d = x then matchChunk ds xs else NoMatch)
      else if c = x then matchChunk cs xs else NoMatch)"

text \<open>\<^verbatim>\<open>scanChunk\<close> after the leading stars: the chunk up to the next star outside a class.\<close>
fun scan_span :: "bool \<Rightarrow> string \<Rightarrow> string \<times> string" where
  "scan_span inrange [] = ([], [])"
| "scan_span inrange [c] =
     (if c = CHR ''*'' \<and> \<not> inrange then ([], [c]) else ([c], []))"
| "scan_span inrange (c # d # ds) =
     (if c = CHR 0x5C then (let (a, b) = scan_span inrange ds in (c # d # a, b))
      else if c = CHR ''*'' \<and> \<not> inrange then ([], c # d # ds)
      else (let (a, b) = scan_span (if c = CHR ''['' then True
                                    else if c = CHR '']'' then False else inrange) (d # ds)
            in (c # a, b)))"

text \<open>The search behind a star: skip one more character at a time, never a slash.\<close>
fun skip_match :: "string \<Rightarrow> string \<Rightarrow> string \<Rightarrow> chunk_result" where
  "skip_match chunk rest [] = NoMatch"
| "skip_match chunk rest (x # xs) =
     (if x = slash then NoMatch
      else case matchChunk chunk xs of
        BadPattern \<Rightarrow> BadPattern
      | NoMatch \<Rightarrow> skip_match chunk rest xs
      | Rest t \<Rightarrow> if rest = [] \<and> t \<noteq> [] then skip_match chunk rest xs else Rest t)"

text \<open>\<^verbatim>\<open>filepath.Match(pattern, name)\<close>: \<open>None\<close> is \<^verbatim>\<open>ErrBadPattern\<close>.\<close>
function Match :: "string \<Rightarrow> string \<Rightarrow> bool option" where
  "Match pattern name =
     (if pattern = [] then Some (name = [])
      else let star = (hd pattern = CHR ''*'');
               (chunk, rest) = scan_span False (dropWhile (\<lambda>c. c = CHR ''*'') pattern);
               direct = matchChunk chunk name;
               found = (case direct of
                          Rest t \<Rightarrow> if t = [] \<or> rest \<noteq> [] then Rest t
                                    else if star then skip_match chunk rest name else NoMatch
                        | BadPattern \<Rightarrow> BadPattern
                        | NoMatch \<Rightarrow> if star then skip_match chunk rest name else NoMatch)
           in if star \<and> chunk = [] then Some (slash \<notin> set name)
              else case found of
                     BadPattern \<Rightarrow> None
                   | NoMatch \<Rightarrow> Some False
                   | Rest t \<Rightarrow> if length rest < length pattern then Match rest t else None)"
  by pat_completeness auto
termination
  by (relation "measure (\<lambda>(pattern, name). length pattern)") auto

text \<open>The characters with a meaning of their own in a pattern.\<close>
definition meta_chars :: "char set" where
  "meta_chars = {CHR ''*'', CHR ''?'', CHR ''['', CHR 0x5C}"

declare class_ranges.simps [simp del] Match.simps [simp del] show_nat.simps [simp del]

section \<open>Lemmas\<close>

lemma Split_nonempty [simp]: "Split c s \<noteq> []"
  by (cases s) (auto split: list.splits)

lemma Join_Split [simp]: "Join c (Split c s) = s"
proof (induction s)
  case Nil
  show ?case by simp
next
  case (Cons x xs)
  obtain y ys where S: "Split c xs = y # ys"
    by (cases "Split c xs") auto
  show ?case
    using Cons S by (cases ys) auto
qed

lemma Split_elem_free: "x \<in> set (Split c s) \<Longrightarrow> c \<notin> set x"
proof (induction s arbitrary: x)
  case Nil
  then show ?case by simp
next
  case (Cons a s)
  then show ?case by (auto split: if_splits list.splits)
qed

lemma Split_no_sep: "c \<notin> set s \<Longrightarrow> Split c s = [s]"
  by (induction s) auto

lemma scan_span_append: "scan_span b p = (a, r) \<Longrightarrow> p = a @ r"
  by (induction b p arbitrary: a r rule: scan_span.induct) (auto split: if_splits prod.splits)

lemma scan_span_shorter:
  assumes "scan_span False p = (a, r)" and "p = [] \<or> hd p \<noteq> CHR ''*''" and "p \<noteq> []"
  shows "length r < length p"
proof -
  have "a \<noteq> []"
    using assms
    by (cases "(False, p)" rule: scan_span.cases) (auto split: if_splits prod.splits)
  with scan_span_append [OF assms(1)] show ?thesis by (cases a) auto
qed

text \<open>The guard on the recursive call of \<^const>\<open>Match\<close> always holds.\<close>

lemma Match_rest_shorter:
  assumes "pattern \<noteq> []"
    and "scan_span False (dropWhile (\<lambda>c. c = CHR ''*'') pattern) = (chunk, rest)"
    and "\<not> (hd pattern = CHR ''*'' \<and> chunk = [])"
  shows "length rest < length pattern"
proof -
  let ?p = "dropWhile (\<lambda>c. c = CHR ''*'') pattern"
  have le: "length ?p \<le> length pattern" by (rule length_dropWhile_le)
  show ?thesis
  proof (cases "?p = []")
    case True
    with assms(2) have "chunk = []" by simp
    moreover from True assms(1) have "hd pattern = CHR ''*''"
      by (cases pattern) (auto split: if_splits)
    ultimately show ?thesis using assms(3) by simp
  next
    case False
    then have "hd ?p \<noteq> CHR ''*''"
      using hd_dropWhile [of "\<lambda>c. c = CHR ''*''" pattern] by simp
    then have "length rest < length ?p"
      using scan_span_shorter [OF assms(2) _ False] by blast
    with le show ?thesis by simp
  qed
qed

lemma Match_star: "Match ''*'' name = Some (slash \<notin> set name)"
  by (subst Match.simps) simp

lemma matchChunk_literal_char:
  "c \<notin> meta_chars \<Longrightarrow> matchChunk (c # cs) (x # xs) = (if c = x then matchChunk cs xs else NoMatch)"
  by (simp add: meta_chars_def)

lemma matchChunk_literal:
  assumes "set p \<inter> meta_chars = {}"
  shows "matchChunk p s = (if prefix p s then Rest (drop (length p) s) else NoMatch)"
  using assms
proof (induction p arbitrary: s)
  case Nil
  show ?case by simp
next
  case (Cons c cs)
  then have "c \<notin> meta_chars" and IH: "\<And>s. matchChunk cs s = (if prefix cs s then Rest (drop (length cs) s) else NoMatch)"
    by auto
  then show ?case by (cases s) (simp_all del: matchChunk.simps(3) add: matchChunk_literal_char)
qed

lemma scan_span_literal:
  assumes "set p \<inter> meta_chars = {}"
  shows "scan_span b p = (p, [])"
  using assms by (induction b p rule: scan_span.induct) (auto simp: meta_chars_def)

text \<open>A pattern without metacharacters matches exactly itself.\<close>

lemma Match_literal:
  assumes "set p \<inter> meta_chars = {}"
  shows "Match p s = Some (p = s)"
proof (cases p)
  case Nil
  then show ?thesis by (auto simp: Match.simps [of "[]"])
next
  case (Cons c cs)
  then have c: "c \<noteq> CHR ''*''" using assms by (auto simp: meta_chars_def)
  have sp: "scan_span False (c # cs) = (c # cs, [])"
    using scan_span_literal [OF assms] Cons by simp
  have mc: "matchChunk (c # cs) s = (if prefix (c # cs) s then Rest (drop (length (c # cs)) s) else NoMatch)"
    using matchChunk_literal [OF assms] Cons by simp
  have "Match p s = (if prefix p s \<and> drop (length p) s = [] then Some True else Some False)"
    using c by (simp add: Cons Match.simps [of "c # cs"] Match.simps [of "[]"] sp mc del: matchChunk.simps)
  also have "\<dots> = Some (p = s)"
    by (auto simp: prefix_def)
  finally show ?thesis .
qed

end
