(* ===== verification/TemplateSubst.thy ===== *)
theory TemplateSubst
  imports ApiTypes GoStd
begin

text \<open>
  \<^verbatim>\<open>internal/template/template.go\<close> and \<^verbatim>\<open>internal/utils/template.go\<close>: placeholders in every string of a
  resource.  The parser (\<^verbatim>\<open>github.com/a8m/envsubst\<close>), the conversion to and from unstructured content
  (\<^verbatim>\<open>k8s.io/apimachinery\<close>) and the JSON form of Kubernetes types are outside the repository: they are
  the fields of \<open>extlib\<close>, parameters of whatever uses them.
\<close>

text \<open>Unstructured content: what \<^verbatim>\<open>interface{}\<close> holds.  A Go map is the list of its entries in the
  order in which the run-time happens to visit them.\<close>
datatype val =
    VString string
  | VMap "(string \<times> val) list"
  | VSlice "val list"
  | VOther string

record extlib =
  x_parse :: "string \<Rightarrow> string list \<Rightarrow> string \<Rightarrow> go_error + string"
  x_toUnstructured :: "storage_provisioner \<Rightarrow> go_error + (string \<times> val) list"
  x_fromUnstructured :: "(string \<times> val) list \<Rightarrow> storage_provisioner \<Rightarrow> go_error option \<times> storage_provisioner"
  x_marshal :: "storage_provisioner \<Rightarrow> go_error + string"
  x_unmarshal :: "string \<Rightarrow> storage_provisioner \<Rightarrow> go_error option \<times> storage_provisioner"
  x_marshal_ref :: "objref \<Rightarrow> go_error + string"
  x_unmarshal_ref :: "string \<Rightarrow> go_error + objref"

text \<open>\<^verbatim>\<open>Substitution\<close>: the parser's name and environment.\<close>
record substitution =
  su_Name :: string
  su_Env :: "string list"

definition NewSubstitution :: "string \<Rightarrow> (string \<times> string) list \<Rightarrow> substitution" where
  "NewSubstitution name values =
     \<lparr>su_Name = name, su_Env = map (\<lambda>(k, v). Sprintf ''%s=%s'' [AStr k, AStr v]) values\<rparr>"

definition SubstituteString :: "extlib \<Rightarrow> substitution \<Rightarrow> string \<Rightarrow> go_error + string" where
  "SubstituteString x s tpl = x_parse x (su_Name s) (su_Env s) tpl"

fun substitute :: "extlib \<Rightarrow> substitution \<Rightarrow> val \<Rightarrow> string \<Rightarrow> go_error + val"
  and substituteSlice :: "extlib \<Rightarrow> substitution \<Rightarrow> val list \<Rightarrow> nat \<Rightarrow> string \<Rightarrow> go_error + val list"
  and substituteMap :: "extlib \<Rightarrow> substitution \<Rightarrow> (string \<times> val) list \<Rightarrow> string \<Rightarrow> go_error + (string \<times> val) list"
where
  "substitute x s (VString c) path =
     (case SubstituteString x s c of Inl e \<Rightarrow> Inl e | Inr r \<Rightarrow> Inr (VString r))"
| "substitute x s (VMap c) path =
     (case substituteMap x s c path of Inl e \<Rightarrow> Inl e | Inr r \<Rightarrow> Inr (VMap r))"
| "substitute x s (VSlice c) path =
     (case substituteSlice x s c 0 path of Inl e \<Rightarrow> Inl e | Inr r \<Rightarrow> Inr (VSlice r))"
| "substitute x s (VOther c) path = Inr (VOther c)"
| "substituteSlice x s [] i parentPath = Inr []"
| "substituteSlice x s (v # vs) i parentPath =
     (let path = Sprintf ''%s[%d]'' [AStr parentPath, ANat i]
      in case substitute x s v path of
           Inl e \<Rightarrow> Inl (Wrapped ''%s'' [AStr path] e)
         | Inr r \<Rightarrow>
             (case substituteSlice x s vs (Suc i) parentPath of
                Inl e \<Rightarrow> Inl e
              | Inr rs \<Rightarrow> Inr (r # rs)))"
| "substituteMap x s [] parentPath = Inr []"
| "substituteMap x s (kv # kvs) parentPath =
     (let path = Sprintf ''%s.%s'' [AStr parentPath, AStr (fst kv)]
      in case substitute x s (snd kv) path of
           Inl e \<Rightarrow> Inl (Wrapped ''%s'' [AStr path] e)
         | Inr r \<Rightarrow>
             (case substituteMap x s kvs parentPath of
                Inl e \<Rightarrow> Inl e
              | Inr rs \<Rightarrow> Inr ((fst kv, r) # rs)))"

definition SubstituteMap :: "extlib \<Rightarrow> substitution \<Rightarrow> (string \<times> val) list \<Rightarrow>
    go_error + (string \<times> val) list" where
  "SubstituteMap x s tpl = substituteMap x s tpl []"

text \<open>\<^verbatim>\<open>utils.Substitute\<close>: the error and what the object holds afterwards.\<close>
definition Substitute :: "extlib \<Rightarrow> storage_provisioner \<Rightarrow> substitution \<Rightarrow>
    go_error option \<times> storage_provisioner" where
  "Substitute x obj values =
     (case x_toUnstructured x obj of
        Inl e \<Rightarrow> (Some (Wrapped ''convert %s to unstructured'' [AStr ''*v1alpha1.StorageProvisioner''] e), obj)
      | Inr unstr \<Rightarrow>
          (case SubstituteMap x values unstr of
             Inl e \<Rightarrow> (Some (Wrapped ''substitute'' [] e), obj)
           | Inr unstr' \<Rightarrow>
               (case x_fromUnstructured x unstr' obj of
                  (Some e, obj') \<Rightarrow>
                    (Some (Wrapped ''convert unstructured to %s'' [AStr ''*v1alpha1.StorageProvisioner''] e), obj')
                | (None, obj') \<Rightarrow> (None, obj'))))"

section \<open>Reference: a function applied to every string\<close>

fun leaves :: "val \<Rightarrow> string list" where
  "leaves (VString c) = [c]"
| "leaves (VMap c) = concat (map (\<lambda>kv. leaves (snd kv)) c)"
| "leaves (VSlice c) = concat (map leaves c)"
| "leaves (VOther c) = []"

fun map_leaves :: "(string \<Rightarrow> string) \<Rightarrow> val \<Rightarrow> val" where
  "map_leaves f (VString c) = VString (f c)"
| "map_leaves f (VMap c) = VMap (map (\<lambda>kv. (fst kv, map_leaves f (snd kv))) c)"
| "map_leaves f (VSlice c) = VSlice (map (map_leaves f) c)"
| "map_leaves f (VOther c) = VOther c"

definition parses :: "extlib \<Rightarrow> substitution \<Rightarrow> string \<Rightarrow> bool" where
  "parses x s t = (case SubstituteString x s t of Inl _ \<Rightarrow> False | Inr _ \<Rightarrow> True)"

definition expanded :: "extlib \<Rightarrow> substitution \<Rightarrow> string \<Rightarrow> string" where
  "expanded x s t = (case SubstituteString x s t of Inl _ \<Rightarrow> t | Inr r \<Rightarrow> r)"

lemma sum_InrI:
  "(case m of Inl e \<Rightarrow> Inl (h e) | Inr r \<Rightarrow> g r) = Inr v \<longleftrightarrow> (\<exists>r. m = Inr r \<and> g r = Inr v)"
  by (cases m) auto

lemma substitute_leafwise:
  "(substitute x s v path = Inr r) =
     (list_all (parses x s) (leaves v) \<and> r = map_leaves (expanded x s) v)"
  "(substituteSlice x s vs i path = Inr rs) =
     (list_all (parses x s) (concat (map leaves vs)) \<and> rs = map (map_leaves (expanded x s)) vs)"
  "(substituteMap x s kvs path = Inr ms) =
     (list_all (parses x s) (concat (map (\<lambda>kv. leaves (snd kv)) kvs))
      \<and> ms = map (\<lambda>kv. (fst kv, map_leaves (expanded x s) (snd kv))) kvs)"
proof (induction x s v path and x s vs i path and x s kvs path arbitrary: r and rs and ms
    rule: substitute_substituteSlice_substituteMap.induct)
  case (1 x s c path)
  then show ?case by (auto simp: parses_def expanded_def split: sum.splits)
next
  case (6 x s v vs i path)
  then show ?case by (auto simp: Let_def sum_InrI)
next
  case (8 x s kv kvs path)
  then show ?case by (auto simp: Let_def sum_InrI)
qed (auto simp: sum_InrI)

text \<open>
  Substitution succeeds exactly when the parser accepts every string of the content, however
  deeply nested; the result then is the same content with each string expanded, keys, list order
  and all other values untouched.
\<close>
theorem SubstituteMap_leafwise:
  "(SubstituteMap x s tpl = Inr r) =
     (list_all (parses x s) (leaves (VMap tpl))
      \<and> VMap r = map_leaves (expanded x s) (VMap tpl))"
  by (simp add: SubstituteMap_def substitute_leafwise)

end
