(* ===== verification/PodTemplates.thy ===== *)
theory PodTemplates
  imports TemplateSubst
begin

text \<open>
  \<^verbatim>\<open>internal/utils/podtemplate.go\<close> and \<^verbatim>\<open>internal/utils/provisioner.go\<close>: building the provisioner and
  deprovisioner pods from the template of a \<open>StorageProvisioner\<close>, and its JSON form.

  \<^verbatim>\<open>NewProvisionerPod\<close> copies the pod template shallowly: the pod and the provisioner it is made from
  share the container array, and the merged environment and command are written through that
  array.  The model therefore gives back the provisioner as it is after the call as well.
\<close>

record pod_source =
  so_PodName :: nsname
  so_ContainerName :: string
  so_SubstitutedProvisioner :: storage_provisioner
  so_Container :: provisioner_container
  so_Env :: "envvar list"

record provisioner_params =
  pp_NodeName :: string
  pp_NodePath :: string
  pp_PersistentVolumeName :: string
  pp_PersistentVolumeClaim :: nsname

definition SubstituteProvisionerPlaceholders :: "extlib \<Rightarrow> storage_provisioner \<Rightarrow>
    provisioner_params \<Rightarrow> go_error option \<times> storage_provisioner" where
  "SubstituteProvisionerPlaceholders x tpl p =
     (let values = NewSubstitution ''provisioner template''
            [(''STORAGE_NODE_NAME'', pp_NodeName p),
             (''STORAGE_NODE_PATH'', pp_NodePath p),
             (''STORAGE_PV_NAME'', pp_PersistentVolumeName p),
             (''STORAGE_PVC_NAME'', nn_Name (pp_PersistentVolumeClaim p)),
             (''STORAGE_PVC_NAMESPACE'', nn_Namespace (pp_PersistentVolumeClaim p))];
          (err, tpl') = Substitute x tpl values
      in (wrap ''invalid provisioner template %s'' [AStr (m_Name (sp_meta tpl'))] err, tpl'))"

text \<open>The index of the container of that name: a pointer into the slice.\<close>
fun findContainer :: "container list \<Rightarrow> string \<Rightarrow> nat option" where
  "findContainer [] name = None"
| "findContainer (c # cs) name =
     (if k_Name c = name then Some 0 else map_option Suc (findContainer cs name))"

text \<open>
  \<^verbatim>\<open>uniqueEnv\<close>: the map from names to variables is filled in order, so the last one of a name wins;
  its keys, visited in an arbitrary order, are sorted.
\<close>
definition env_map :: "envvar list \<Rightarrow> string \<rightharpoonup> envvar" where
  "env_map env = fold (\<lambda>v m. m(v_Name v \<mapsto> v)) env Map.empty"

definition uniqueEnv :: "envvar list \<Rightarrow> envvar list" where
  "uniqueEnv env =
     (let m = env_map env;
          names = sort (remdups (map v_Name env))
      in map (\<lambda>name. case m name of
                       Some v \<Rightarrow> v
                     | None \<Rightarrow> \<lparr>v_Name = [], v_Value = [], v_ValueFrom = None\<rparr>) names)"

text \<open>The container with the merged environment and command.\<close>
definition merge_container :: "container \<Rightarrow> provisioner_container \<Rightarrow> envvar list \<Rightarrow> container" where
  "merge_container c container env =
     (let c1 = c\<lparr>k_Env := uniqueEnv ((k_Env c @ pc_Env container) @ env)\<rparr>
      in if pc_Command container \<noteq> None then c1\<lparr>k_Command := pc_Command container\<rparr> else c1)"

definition command_len :: "string list option \<Rightarrow> nat" where
  "command_len c = (case c of None \<Rightarrow> 0 | Some xs \<Rightarrow> length xs)"

definition NewProvisionerPod :: "pod_source \<Rightarrow> go_error + pod \<times> storage_provisioner" where
  "NewProvisionerPod src =
     (let containerName = ''main'';
          p = so_SubstitutedProvisioner src;
          tpl = ps_PodTemplate (sp_spec p);
          pname = m_Name (sp_meta p)
      in case findContainer (p_Containers tpl) containerName of
           None \<Rightarrow> Inl (Errorf ''provisioner %s pod template does not specify container %q''
                     [AStr pname, AStr containerName])
         | Some i \<Rightarrow>
             (let c = merge_container (p_Containers tpl ! i) (so_Container src) (so_Env src);
                  tpl' = tpl\<lparr>p_Containers := (p_Containers tpl)[i := c]\<rparr>
              in if k_Image c = [] then
                   Inl (Errorf ''provisioner %s pod template does not specify an image for the %s container''
                     [AStr pname, AStr containerName])
                 else if command_len (k_Command c) = 0 then
                   Inl (Errorf ''provisioner %s pod template does not specify a command for the %s container''
                     [AStr pname, AStr containerName])
                 else if length (k_Args c) > 0 then
                   Inl (Errorf ''provisioner %s pod template specifies args for the %s container''
                     [AStr pname, AStr containerName])
                 else Inr (zero_pod\<lparr>pod_meta := zero_meta\<lparr>m_Name := nn_Name (so_PodName src),
                               m_Namespace := nn_Namespace (so_PodName src),
                               m_Annotations := Some Map.empty\<rparr>,
                             pod_spec := tpl'\<rparr>,
                           p\<lparr>sp_spec := (sp_spec p)\<lparr>ps_PodTemplate := tpl'\<rparr>\<rparr>)))"

section \<open>newPodFromTemplate\<close>

record vol_param =
  vp_Name :: string
  vp_MountPath :: string
  vp_Source :: "string option"

record container_params =
  cp_Command :: "string list option"
  cp_Env :: "envvar list"
  cp_Volume :: vol_param

text \<open>The updated mounts and the mount the returned pointer refers to.\<close>
fun addVolumeMount :: "volumemount list \<Rightarrow> vol_param \<Rightarrow> volumemount list \<times> volumemount" where
  "addVolumeMount [] mount =
     (let m = \<lparr>vm_Name = vp_Name mount, vm_MountPath = vp_MountPath mount\<rparr> in ([m], m))"
| "addVolumeMount (m # ms) mount =
     (if vm_Name m = vp_Name mount then
        (let m' = (if vm_MountPath m = [] \<or> vm_MountPath m = ''/replace-with-host-path''
                   then m\<lparr>vm_MountPath := vp_MountPath mount\<rparr> else m)
         in (m' # ms, m'))
      else (let (ms', r) = addVolumeMount ms mount in (m # ms', r)))"

fun pod_addVolume :: "volume list \<Rightarrow> vol_param \<Rightarrow> volume list" where
  "pod_addVolume [] vol = [\<lparr>vol_Name = vp_Name vol, vol_Claim = None, vol_Source = vp_Source vol\<rparr>]"
| "pod_addVolume (v # vs) vol = (if vol_Name v = vp_Name vol then v # vs else v # pod_addVolume vs vol)"

definition newPodFromTemplate :: "nsname \<Rightarrow> podspec \<Rightarrow> container_params \<Rightarrow> pod outcome" where
  "newPodFromTemplate name tpl params =
     (case findContainer (p_Containers tpl) ''main'' of
        None \<Rightarrow> Panic
      | Some i \<Rightarrow>
          (let c = p_Containers tpl ! i;
               (mounts, m) = addVolumeMount (k_VolumeMounts c) (cp_Volume params);
               c' = c\<lparr>k_Command := cp_Command params, k_Args := [], k_VolumeMounts := mounts,
                      k_Env := [\<lparr>v_Name = ''VOLUME_PATH'', v_Value = vm_MountPath m, v_ValueFrom = None\<rparr>]\<rparr>
           in Ret (zero_pod\<lparr>pod_meta := zero_meta\<lparr>m_Name := nn_Name name, m_Namespace := nn_Namespace name\<rparr>,
                 pod_spec := tpl\<lparr>p_Containers := (p_Containers tpl)[i := c'],
                   p_Volumes := pod_addVolume (p_Volumes tpl) (cp_Volume params)\<rparr>\<rparr>)))"

section \<open>provisioner.go\<close>

text \<open>Only these parts of the object are written; what is read back starts from the zero value.\<close>
definition StorageProvisionerToJSON :: "extlib \<Rightarrow> storage_provisioner \<Rightarrow> string \<times> go_error option" where
  "StorageProvisionerToJSON x provisioner =
     (let p = zero_storage_provisioner\<lparr>
            sp_meta := zero_meta\<lparr>m_Name := m_Name (sp_meta provisioner),
              m_Namespace := m_Namespace (sp_meta provisioner), m_UID := m_UID (sp_meta provisioner),
              m_Generation := m_Generation (sp_meta provisioner)\<rparr>,
            sp_spec := sp_spec provisioner\<rparr>
      in case x_marshal x p of
           Inl e \<Rightarrow> ([], Some (Wrapped ''marshal provisioner spec'' [] e))
         | Inr b \<Rightarrow> (b, None))"

definition StorageProvisionerFromJSON :: "extlib \<Rightarrow> string \<Rightarrow> storage_provisioner \<times> go_error option" where
  "StorageProvisionerFromJSON x data =
     (case x_unmarshal x data zero_storage_provisioner of
        (err, p) \<Rightarrow> (p, wrap ''unmarshal provisioner spec'' [] err))"

section \<open>Lemmas\<close>

lemma env_map_Nil [simp]: "env_map [] = Map.empty"
  by (simp add: env_map_def)

lemma env_map_snoc: "env_map (xs @ [v]) = (env_map xs)(v_Name v \<mapsto> v)"
  by (simp add: env_map_def)

lemma env_map_dom: "dom (env_map env) = v_Name ` set env"
  by (induction env rule: rev_induct) (simp, simp only: env_map_snoc dom_fun_upd, simp)

lemma env_map_name: "env_map env n = Some v \<Longrightarrow> v_Name v = n \<and> v \<in> set env"
  by (induction env rule: rev_induct) (auto simp: env_map_snoc split: if_splits)

lemma env_map_last:
  "n \<in> v_Name ` set env \<Longrightarrow> env_map env n = Some (last (filter (\<lambda>v. v_Name v = n) env))"
  by (induction env rule: rev_induct) (auto simp: env_map_snoc filter_empty_conv)

lemma env_map_some: "n \<in> v_Name ` set env \<Longrightarrow> \<exists>v. env_map env n = Some v"
  using env_map_dom [of env] by blast

lemma uniqueEnv_eq:
  "uniqueEnv env =
     map (\<lambda>n. last (filter (\<lambda>v. v_Name v = n) env)) (sort (remdups (map v_Name env)))"
  unfolding uniqueEnv_def Let_def
  by (rule map_cong [OF refl]) (auto simp: env_map_last)

lemma last_filter_name:
  "n \<in> v_Name ` set env \<Longrightarrow> v_Name (last (filter (\<lambda>v. v_Name v = n) env)) = n"
proof -
  assume "n \<in> v_Name ` set env"
  then have "filter (\<lambda>v. v_Name v = n) env \<noteq> []" by (auto simp: filter_empty_conv)
  then have "last (filter (\<lambda>v. v_Name v = n) env) \<in> set (filter (\<lambda>v. v_Name v = n) env)"
    by (rule last_in_set)
  then show ?thesis by simp
qed

lemma uniqueEnv_names: "map v_Name (uniqueEnv env) = sort (remdups (map v_Name env))"
  unfolding uniqueEnv_eq map_map o_def
  by (rule map_idI) (auto simp: last_filter_name)

lemma findContainer_Some:
  "findContainer cs n = Some i \<Longrightarrow> i < length cs \<and> k_Name (cs ! i) = n"
  by (induction cs arbitrary: i) (auto split: if_splits)

lemma findContainer_update:
  "findContainer cs n = Some i \<Longrightarrow> k_Name c = n \<Longrightarrow> findContainer (cs[i := c]) n = Some i"
  by (induction cs arbitrary: i) (auto split: if_splits)

lemma merge_container_simps [simp]:
  "k_Name (merge_container c k env) = k_Name c"
  "k_Image (merge_container c k env) = k_Image c"
  "k_Args (merge_container c k env) = k_Args c"
  "k_Env (merge_container c k env) = uniqueEnv ((k_Env c @ pc_Env k) @ env)"
  "k_Command (merge_container c k env) =
     (if pc_Command k \<noteq> None then pc_Command k else k_Command c)"
  by (simp_all add: merge_container_def Let_def)

lemma env_map_app: "env_map (xs @ ys) = env_map xs ++ env_map ys"
proof (induction ys rule: rev_induct)
  case Nil
  show ?case by simp
next
  case (snoc y ys)
  have "env_map (xs @ ys @ [y]) = (env_map xs ++ env_map ys)(v_Name y \<mapsto> y)"
    using env_map_snoc [of "xs @ ys" y] snoc by simp
  also have "\<dots> = env_map xs ++ (env_map ys)(v_Name y \<mapsto> y)" by (rule map_add_upd [symmetric])
  finally show ?case by (simp only: env_map_snoc)
qed

lemma env_map_distinct:
  "distinct (map v_Name xs) \<Longrightarrow> env_map xs n = Some v \<longleftrightarrow> v \<in> set xs \<and> v_Name v = n"
proof (induction xs rule: rev_induct)
  case Nil
  show ?case by simp
next
  case (snoc x xs)
  then have IH: "env_map xs n = Some v \<longleftrightarrow> v \<in> set xs \<and> v_Name v = n" by simp
  have "env_map (xs @ [x]) n = (if n = v_Name x then Some x else env_map xs n)"
    by (simp only: env_map_snoc fun_upd_apply)
  with snoc.prems IH show ?case by (auto simp: image_iff)
qed

lemma env_map_uniqueEnv: "env_map (uniqueEnv env) = env_map env"
proof
  fix n
  have d: "distinct (map v_Name (uniqueEnv env))"
    by (simp add: uniqueEnv_names)
  show "env_map (uniqueEnv env) n = env_map env n"
  proof (cases "n \<in> v_Name ` set env")
    case True
    then have "last (filter (\<lambda>v. v_Name v = n) env) \<in> set (uniqueEnv env)"
      by (auto simp: uniqueEnv_eq)
    with True d show ?thesis
      by (simp add: env_map_last env_map_distinct last_filter_name)
  next
    case False
    then have "n \<notin> v_Name ` set (uniqueEnv env)"
      using arg_cong [OF uniqueEnv_names [of env], of set] by auto
    with False show ?thesis
      using env_map_dom [of env] env_map_dom [of "uniqueEnv env"] by (metis domIff)
  qed
qed

text \<open>The container that \<^const>\<open>NewProvisionerPod\<close> works on.\<close>
definition main_container :: "podspec \<Rightarrow> container option" where
  "main_container ps = map_option (\<lambda>i. p_Containers ps ! i) (findContainer (p_Containers ps) ''main'')"

lemma NewProvisionerPod_InrD:
  assumes "NewProvisionerPod src = Inr (pod, p')"
  obtains c where "main_container (ps_PodTemplate (sp_spec (so_SubstitutedProvisioner src))) = Some c"
    and "main_container (pod_spec pod) = Some (merge_container c (so_Container src) (so_Env src))"
    and "ps_PodTemplate (sp_spec p') = pod_spec pod"
    and "k_Image c \<noteq> []"
    and "command_len (k_Command (merge_container c (so_Container src) (so_Env src))) \<noteq> 0"
    and "k_Args c = []"
proof -
  let ?p = "so_SubstitutedProvisioner src"
  let ?cs = "p_Containers (ps_PodTemplate (sp_spec ?p))"
  from assms obtain i where i: "findContainer ?cs ''main'' = Some i"
    by (auto simp: NewProvisionerPod_def Let_def split: option.splits)
  from findContainer_Some [OF i] have lt: "i < length ?cs" and nm: "k_Name (?cs ! i) = ''main''"
    by auto
  let ?c = "merge_container (?cs ! i) (so_Container src) (so_Env src)"
  have upd: "findContainer (?cs[i := ?c]) ''main'' = Some i"
    by (rule findContainer_update [OF i]) (simp add: nm)
  show ?thesis
  proof (rule that [of "?cs ! i"])
    show "main_container (ps_PodTemplate (sp_spec ?p)) = Some (?cs ! i)"
      by (simp add: main_container_def i)
    show "main_container (pod_spec pod) = Some ?c"
      using assms upd lt
      by (auto simp: NewProvisionerPod_def main_container_def Let_def i split: if_splits)
    show "ps_PodTemplate (sp_spec p') = pod_spec pod"
      using assms by (auto simp: NewProvisionerPod_def Let_def i split: if_splits)
    show "k_Image (?cs ! i) \<noteq> []" "command_len (k_Command ?c) \<noteq> 0" "k_Args (?cs ! i) = []"
      using assms by (auto simp: NewProvisionerPod_def Let_def i split: if_splits)
  qed
qed

section \<open>Properties\<close>

text \<open>
  \<^const>\<open>uniqueEnv\<close> lists every variable name once, in sorted order, with the value it was given
  last; a second application changes nothing.
\<close>
theorem uniqueEnv_correct:
  "sorted (map v_Name (uniqueEnv env)) \<and> distinct (map v_Name (uniqueEnv env))
   \<and> env_map (uniqueEnv env) = env_map env
   \<and> uniqueEnv (uniqueEnv env) = uniqueEnv env"
proof (intro conjI)
  show "sorted (map v_Name (uniqueEnv env))" "distinct (map v_Name (uniqueEnv env))"
    by (simp_all add: uniqueEnv_names)
  show "env_map (uniqueEnv env) = env_map env" by (rule env_map_uniqueEnv)
  have s: "sort (remdups (map v_Name (uniqueEnv env))) = map v_Name (uniqueEnv env)"
    by (simp add: uniqueEnv_names distinct_remdups_id sorted_sort_id)
  have d: "env_map (uniqueEnv env) (v_Name v) = Some v" if "v \<in> set (uniqueEnv env)" for v
    using that by (simp add: env_map_distinct uniqueEnv_names)
  show "uniqueEnv (uniqueEnv env) = uniqueEnv env"
    unfolding uniqueEnv_def [of "uniqueEnv env"] Let_def s map_map
    by (rule map_idI) (simp add: d)
qed

text \<open>
  A pod that \<^const>\<open>NewProvisionerPod\<close> returns has the requested name, a main container with the
  template's image, a command and no arguments; of a variable defined several times the value from
  the annotations wins over the provisioner's container and that over the pod template.
\<close>
theorem NewProvisionerPod_main_container:
  assumes "NewProvisionerPod src = Inr (pod, p')"
  shows "\<exists>t c. main_container (ps_PodTemplate (sp_spec (so_SubstitutedProvisioner src))) = Some t
    \<and> main_container (pod_spec pod) = Some c
    \<and> k_Image c = k_Image t \<and> k_Image c \<noteq> [] \<and> command_len (k_Command c) > 0 \<and> k_Args c = []
    \<and> env_map (k_Env c) = env_map (k_Env t) ++ env_map (pc_Env (so_Container src)) ++ env_map (so_Env src)
    \<and> distinct (map v_Name (k_Env c))
    \<and> m_Name (pod_meta pod) = nn_Name (so_PodName src)
    \<and> m_Namespace (pod_meta pod) = nn_Namespace (so_PodName src)"
proof -
  have "m_Name (pod_meta pod) = nn_Name (so_PodName src)
    \<and> m_Namespace (pod_meta pod) = nn_Namespace (so_PodName src)"
    using assms by (auto simp: NewProvisionerPod_def Let_def split: option.splits if_splits)
  with assms show ?thesis
    by (elim NewProvisionerPod_InrD) (auto simp: env_map_uniqueEnv env_map_app uniqueEnv_names)
qed

definition example_provisioner :: storage_provisioner where
  "example_provisioner = zero_storage_provisioner\<lparr>
     sp_meta := zero_meta\<lparr>m_Name := ''p''\<rparr>,
     sp_spec := zero_provisioner_spec\<lparr>ps_Name := ''p.example'',
       ps_PersistentVolumeTemplate := zero_pvspec\<lparr>s_VolumeMode := Some ''Filesystem''\<rparr>,
       ps_PodTemplate := zero_podspec\<lparr>p_Containers :=
         [\<lparr>k_Name = ''main'', k_Image = ''img'', k_Command = Some [''true''], k_Args = [],
           k_Env = [\<lparr>v_Name = ''A'', v_Value = ''1'', v_ValueFrom = None\<rparr>], k_VolumeMounts = []\<rparr>]\<rparr>,
       ps_Containers := \<lparr>cs_Provisioner = \<lparr>pc_Command = Some [''provision''],
           pc_Env = [\<lparr>v_Name = ''A'', v_Value = ''2'', v_ValueFrom = None\<rparr>]\<rparr>,
         cs_Deprovisioner = zero_provisioner_container\<rparr>,
       ps_Nodes := [\<lparr>np_Name = ''*'', np_Path = ''/data/vols''\<rparr>]\<rparr>\<rparr>"

definition example_source :: pod_source where
  "example_source = \<lparr>so_PodName = \<lparr>nn_Name = ''pod'', nn_Namespace = ''ns''\<rparr>, so_ContainerName = ''provisioner'',
     so_SubstitutedProvisioner = example_provisioner,
     so_Container = cs_Provisioner (ps_Containers (sp_spec example_provisioner)), so_Env = []\<rparr>"

lemmas example_defs = example_provisioner_def example_source_def zero_storage_provisioner_def
  zero_provisioner_spec_def zero_podspec_def zero_provisioner_container_def zero_pvspec_def zero_meta_def

lemma example_source_pod:
  "\<exists>pod p'. NewProvisionerPod example_source = Inr (pod, p')"
  by (simp add: NewProvisionerPod_def Let_def command_len_def merge_container_def example_defs)

theorem NewProvisionerPod_main_container_witness:
  "\<exists>pod p' c. NewProvisionerPod example_source = Inr (pod, p')
     \<and> main_container (pod_spec pod) = Some c \<and> k_Image c \<noteq> []"
proof -
  obtain pod p' where h: "NewProvisionerPod example_source = Inr (pod, p')"
    using example_source_pod by blast
  with NewProvisionerPod_main_container [OF h] show ?thesis by blast
qed

text \<open>
  The template is shared: building the provisioner pod writes its merged environment and its
  command into the provisioner itself, so a deprovisioner pod built from that provisioner starts
  from the provisioner's variables, and runs the provisioner's command when the deprovisioner
  specifies none.
\<close>
theorem deprovisioner_inherits_provisioner:
  assumes "NewProvisionerPod src = Inr (pod, p')"
    and "NewProvisionerPod (src'\<lparr>so_SubstitutedProvisioner := p'\<rparr>) = Inr (pod', p'')"
  shows "\<exists>c c'. main_container (pod_spec pod) = Some c \<and> main_container (pod_spec pod') = Some c'
    \<and> env_map (k_Env c') = env_map (k_Env c) ++ env_map (pc_Env (so_Container src')) ++ env_map (so_Env src')
    \<and> k_Command c' = (if pc_Command (so_Container src') = None then k_Command c
                      else pc_Command (so_Container src'))"
  using assms(1)
proof (rule NewProvisionerPod_InrD)
  fix t
  assume main: "main_container (pod_spec pod) = Some (merge_container t (so_Container src) (so_Env src))"
    and tpl: "ps_PodTemplate (sp_spec p') = pod_spec pod"
  from assms(2) show ?thesis
    by (rule NewProvisionerPod_InrD)
       (use main tpl in \<open>auto simp: env_map_uniqueEnv env_map_app\<close>)
qed

lemma example_second_pod:
  "NewProvisionerPod example_source = Inr (pod, p') \<Longrightarrow>
   \<exists>pod' p''. NewProvisionerPod (example_source\<lparr>so_Container := zero_provisioner_container,
      so_SubstitutedProvisioner := p'\<rparr>) = Inr (pod', p'')"
  by (auto simp: NewProvisionerPod_def Let_def command_len_def merge_container_def example_defs)

theorem deprovisioner_inherits_provisioner_witness:
  "\<exists>pod p' pod' p'' c c'. NewProvisionerPod example_source = Inr (pod, p')
     \<and> NewProvisionerPod (example_source\<lparr>so_Container := zero_provisioner_container,
          so_SubstitutedProvisioner := p'\<rparr>) = Inr (pod', p'')
     \<and> main_container (pod_spec pod) = Some c \<and> main_container (pod_spec pod') = Some c'
     \<and> k_Command c' = k_Command c"
proof -
  obtain pod p' where h: "NewProvisionerPod example_source = Inr (pod, p')"
    using example_source_pod by blast
  obtain pod' p'' where h': "NewProvisionerPod (example_source\<lparr>so_Container := zero_provisioner_container,
      so_SubstitutedProvisioner := p'\<rparr>) = Inr (pod', p'')"
    using example_second_pod [OF h] by blast
  from deprovisioner_inherits_provisioner [OF h h'] h h' show ?thesis
    by (auto simp: zero_provisioner_container_def)
qed

end
