(* ===== verification/UtilMappings.thy ===== *)
theory UtilMappings
  imports ApiTypes GoStd
begin

text \<open>
  The small mappings of \<^verbatim>\<open>internal/utils\<close>: annotations to environment variables and from object to
  object (\<^verbatim>\<open>annotationtoenv.go\<close>), nodes to storage paths (\<^verbatim>\<open>nodepath.go\<close>), pods to the reconcile
  request of their owner (\<^verbatim>\<open>podmapper.go\<close>).
\<close>

section \<open>annotationtoenv.go\<close>

fun AnnotationsToEnv_loop :: "gomap \<Rightarrow> env_mapping list \<Rightarrow> envvar list \<Rightarrow> go_error option \<Rightarrow>
    envvar list \<times> go_error option" where
  "AnnotationsToEnv_loop a [] env err = (env, err)"
| "AnnotationsToEnv_loop a (m # ms) env err =
     (let v = mget a (em_Annotation m)
      in if v \<noteq> [] then
           AnnotationsToEnv_loop a ms (env @ [\<lparr>v_Name = em_Name m, v_Value = v, v_ValueFrom = None\<rparr>]) err
         else if (em_Required m = None \<or> em_Required m = Some True) \<and> err = None then
           AnnotationsToEnv_loop a ms env
             (Some (Errorf ''missing or empty annotation %q'' [AStr (em_Annotation m)]))
         else AnnotationsToEnv_loop a ms env err)"

definition AnnotationsToEnv :: "objmeta \<Rightarrow> env_mapping list \<Rightarrow> envvar list \<times> go_error option" where
  "AnnotationsToEnv obj mapping = AnnotationsToEnv_loop (m_Annotations obj) mapping [] None"

definition CopyAnnotations :: "objmeta \<Rightarrow> objmeta \<Rightarrow> env_mapping list \<Rightarrow> objmeta" where
  "CopyAnnotations src dest mapping =
     dest\<lparr>m_Annotations :=
       fold (\<lambda>m b. if m_Annotations src \<noteq> None
                   then mput b (em_Annotation m) (mget (m_Annotations src) (em_Annotation m))
                   else b)
         mapping (mnonnil (m_Annotations dest))\<rparr>"

section \<open>nodepath.go\<close>

fun StorageRootPathForNode_loop :: "string \<Rightarrow> nat \<Rightarrow> node_path list \<Rightarrow> go_error + string" where
  "StorageRootPathForNode_loop nodeName i [] =
     Inl (Errorf ''no storage root path mapped for node %q'' [AStr nodeName])"
| "StorageRootPathForNode_loop nodeName i (m # ms) =
     (case Match (np_Name m) nodeName of
        None \<Rightarrow> Inl (Errorf ''invalid node name matcher specified in spec.nodes[%d].name'' [ANat i])
      | Some True \<Rightarrow> Inr (np_Path m)
      | Some False \<Rightarrow> StorageRootPathForNode_loop nodeName (Suc i) ms)"

definition StorageRootPathForNode :: "string \<Rightarrow> node_path list \<Rightarrow> go_error + string" where
  "StorageRootPathForNode nodeName mapping = StorageRootPathForNode_loop nodeName 0 mapping"

section \<open>podmapper.go\<close>

definition PodToRequestMapper :: "string \<Rightarrow> string \<Rightarrow> string \<Rightarrow> objmeta \<Rightarrow> nsname list" where
  "PodToRequestMapper namespace annName annNamespace obj =
     (if m_Namespace obj \<noteq> namespace then []
      else case m_Annotations obj of
        None \<Rightarrow> []
      | Some a \<Rightarrow>
          (let owner = \<lparr>nn_Name = mget (Some a) annName, nn_Namespace = mget (Some a) annNamespace\<rparr>
           in if nn_Name owner = [] \<or> (nn_Namespace owner = [] \<and> annNamespace \<noteq> []) then []
              else [owner]))"

section \<open>Lemmas\<close>

text \<open>Whether a mapping entry insists on its annotation.\<close>
definition required :: "env_mapping \<Rightarrow> bool" where
  "required m \<longleftrightarrow> em_Required m \<noteq> Some False"

lemma required_alt: "(em_Required m = None \<or> em_Required m = Some True) \<longleftrightarrow> required m"
  by (cases "em_Required m") (auto simp: required_def)

lemma AnnotationsToEnv_loop_env:
  "fst (AnnotationsToEnv_loop a ms env err) =
     env @ map (\<lambda>m. \<lparr>v_Name = em_Name m, v_Value = mget a (em_Annotation m), v_ValueFrom = None\<rparr>)
       (filter (\<lambda>m. mget a (em_Annotation m) \<noteq> []) ms)"
  by (induction a ms env err rule: AnnotationsToEnv_loop.induct) (auto simp: Let_def)

lemma AnnotationsToEnv_loop_err:
  "snd (AnnotationsToEnv_loop a ms env err) = None \<longleftrightarrow>
     err = None \<and> (\<forall>m \<in> set ms. required m \<longrightarrow> mget a (em_Annotation m) \<noteq> [])"
  by (induction a ms env err rule: AnnotationsToEnv_loop.induct)
     (auto simp: Let_def required_alt)

lemma AnnotationsToEnv_loop_cong:
  "(\<And>m. m \<in> set ms \<Longrightarrow> mget a (em_Annotation m) = mget b (em_Annotation m)) \<Longrightarrow>
   AnnotationsToEnv_loop a ms env err = AnnotationsToEnv_loop b ms env err"
  by (induction ms arbitrary: env err) (auto simp: Let_def)

lemma copy_fold:
  "fold (\<lambda>m b. mput b (em_Annotation m) (mget src (em_Annotation m))) ms (Some f) =
     Some (\<lambda>k. if k \<in> em_Annotation ` set ms then Some (mget src k) else f k)"
  by (induction ms arbitrary: f) (auto simp: mput_def fun_eq_iff)

lemma mnonnil_cases: obtains f where "mnonnil m = Some f" "\<And>k. mget m k = mget (Some f) k"
  by (cases m) (auto simp: mnonnil_def)

lemma CopyAnnotations_get:
  "mget (m_Annotations (CopyAnnotations src dest ms)) k =
     (if m_Annotations src \<noteq> None \<and> k \<in> em_Annotation ` set ms
      then mget (m_Annotations src) k else mget (m_Annotations dest) k)"
proof (rule mnonnil_cases [of "m_Annotations dest"])
  fix f assume f: "mnonnil (m_Annotations dest) = Some f"
    and g: "\<And>k. mget (m_Annotations dest) k = mget (Some f) k"
  show ?thesis
  proof (cases "m_Annotations src")
    case None
    then show ?thesis by (simp add: CopyAnnotations_def f g)
  next
    case (Some a)
    then have "m_Annotations (CopyAnnotations src dest ms) =
        Some (\<lambda>k. if k \<in> em_Annotation ` set ms then Some (mget (Some a) k) else f k)"
      by (simp add: CopyAnnotations_def f copy_fold)
    with Some show ?thesis by (simp add: g mget_Some)
  qed
qed

lemma CopyAnnotations_nonnil [simp]: "m_Annotations (CopyAnnotations src dest ms) \<noteq> None"
proof (rule mnonnil_cases [of "m_Annotations dest"])
  fix f assume f: "mnonnil (m_Annotations dest) = Some f"
  show ?thesis
    by (cases "m_Annotations src") (auto simp: CopyAnnotations_def f copy_fold)
qed

lemma CopyAnnotations_frame [simp]:
  "m_Name (CopyAnnotations src dest ms) = m_Name dest"
  "m_Namespace (CopyAnnotations src dest ms) = m_Namespace dest"
  "m_UID (CopyAnnotations src dest ms) = m_UID dest"
  "m_Finalizers (CopyAnnotations src dest ms) = m_Finalizers dest"
  "m_DeletionTimestamp (CopyAnnotations src dest ms) = m_DeletionTimestamp dest"
  by (simp_all add: CopyAnnotations_def)

lemma StorageRootPathForNode_loop_eq:
  "StorageRootPathForNode_loop n i ms =
     (case dropWhile (\<lambda>x. Match (np_Name x) n = Some False) ms of
        [] \<Rightarrow> Inl (Errorf ''no storage root path mapped for node %q'' [AStr n])
      | m # rest \<Rightarrow>
          if Match (np_Name m) n = Some True then Inr (np_Path m)
          else Inl (Errorf ''invalid node name matcher specified in spec.nodes[%d].name''
                 [ANat (i + (length ms - length (m # rest)))]))"
proof (induction ms arbitrary: i)
  case Nil
  then show ?case by simp
next
  case (Cons m ms)
  show ?case
  proof (cases "Match (np_Name m) n = Some False")
    case True
    have "length (dropWhile (\<lambda>x. Match (np_Name x) n = Some False) ms) \<le> length ms"
      by (rule length_dropWhile_le)
    with True Cons show ?thesis
      by (cases "dropWhile (\<lambda>x. Match (np_Name x) n = Some False) ms")
         (simp_all del: dropWhile_eq_Nil_conv, arith)
  next
    case False
    then show ?thesis by (auto split: option.splits bool.splits)
  qed
qed

section \<open>Properties\<close>

text \<open>
  The environment handed to a provisioner pod is exactly the mapped annotations that are
  present and not empty, in the order of the mapping, and the call reports an error exactly when a
  required annotation is missing or empty.
\<close>
theorem AnnotationsToEnv_correct:
  "fst (AnnotationsToEnv obj mapping) =
     map (\<lambda>m. \<lparr>v_Name = em_Name m, v_Value = mget (m_Annotations obj) (em_Annotation m), v_ValueFrom = None\<rparr>)
       (filter (\<lambda>m. mget (m_Annotations obj) (em_Annotation m) \<noteq> []) mapping)
   \<and> (snd (AnnotationsToEnv obj mapping) = None) =
       (filter (\<lambda>m. required m \<and> mget (m_Annotations obj) (em_Annotation m) = []) mapping = [])"
  by (auto simp: AnnotationsToEnv_def AnnotationsToEnv_loop_env AnnotationsToEnv_loop_err filter_empty_conv)

text \<open>
  Annotations copied from a claim to its pod, or from the pod to the volume, give the same
  environment (and the same error) as the object they came from, provided the source has
  annotations at all: provisioner and deprovisioner see the same variables.
\<close>
theorem CopyAnnotations_env:
  assumes "m_Annotations src \<noteq> None"
  shows "AnnotationsToEnv (CopyAnnotations src dest mapping) mapping = AnnotationsToEnv src mapping"
  unfolding AnnotationsToEnv_def
  by (rule AnnotationsToEnv_loop_cong) (use assms in \<open>simp add: CopyAnnotations_get\<close>)

theorem CopyAnnotations_env_witness:
  "AnnotationsToEnv
     (CopyAnnotations (zero_meta\<lparr>m_Annotations := Some [''cache'' \<mapsto> ''c1'']\<rparr>) zero_meta
        [\<lparr>em_Name = ''CACHE'', em_Annotation = ''cache'', em_Required = None\<rparr>])
     [\<lparr>em_Name = ''CACHE'', em_Annotation = ''cache'', em_Required = None\<rparr>]
   = ([\<lparr>v_Name = ''CACHE'', v_Value = ''c1'', v_ValueFrom = None\<rparr>], None)"
proof -
  let ?src = "zero_meta\<lparr>m_Annotations := Some [''cache'' \<mapsto> ''c1'']\<rparr>"
  have h: "m_Annotations ?src \<noteq> None" by simp
  show ?thesis
    by (simp add: CopyAnnotations_env [OF h]) (simp add: AnnotationsToEnv_def mget_def)
qed

text \<open>
  A node gets the path of the first entry that does not fail to match it.  If there is none the
  lookup fails; if that entry's pattern is malformed the lookup fails and names its index.
\<close>
theorem StorageRootPathForNode_first_match:
  "StorageRootPathForNode n ms =
     (case dropWhile (\<lambda>x. Match (np_Name x) n = Some False) ms of
        [] \<Rightarrow> Inl (Errorf ''no storage root path mapped for node %q'' [AStr n])
      | m # rest \<Rightarrow>
          if Match (np_Name m) n = Some True then Inr (np_Path m)
          else Inl (Errorf ''invalid node name matcher specified in spec.nodes[%d].name''
                 [ANat (length ms - length (m # rest))]))"
  by (simp only: StorageRootPathForNode_def StorageRootPathForNode_loop_eq add_0)

end
