(* ===== verification/KubeClient.thy ===== *)
theory KubeClient
  imports ApiTypes
begin

text \<open>
  The Kubernetes API client (\<^verbatim>\<open>sigs.k8s.io/controller-runtime/pkg/client\<close>, outside the repository) as a
  parameter: one \<open>resource\<close> record of functions per kind, each taking the object the Go code passes
  by pointer and giving back the error and what the object holds afterwards.  Nothing is assumed
  about these functions here; a theorem that relies on documented behaviour names it as a
  hypothesis.  Every call is recorded in the trace together with its response, and so is every
  event the recorder is asked to publish.
\<close>

record ('k, 'w) resource =
  rc_get :: "nsname \<Rightarrow> 'k \<Rightarrow> 'w \<Rightarrow> (go_error option \<times> 'k) \<times> 'w"
  rc_create :: "'k \<Rightarrow> 'w \<Rightarrow> (go_error option \<times> 'k) \<times> 'w"
  rc_update :: "'k \<Rightarrow> 'w \<Rightarrow> (go_error option \<times> 'k) \<times> 'w"
  rc_status_update :: "'k \<Rightarrow> 'w \<Rightarrow> (go_error option \<times> 'k) \<times> 'w"
  rc_delete :: "'k \<Rightarrow> 'w \<Rightarrow> go_error option \<times> 'w"

record 'w client =
  cl_pvc :: "(pvc, 'w) resource"
  cl_pv :: "(pv, 'w) resource"
  cl_pod :: "(pod, 'w) resource"
  cl_sc :: "(storageclass, 'w) resource"
  cl_cache :: "(cache, 'w) resource"
  cl_sp :: "(storage_provisioner, 'w) resource"
  cl_sp_list :: "string \<Rightarrow> 'w \<Rightarrow> (go_error + storage_provisioner list) \<times> 'w"

text \<open>A call on objects of kind \<open>'k\<close>: the verb, the object sent and the response.\<close>
datatype 'k verb =
    DoGet nsname "go_error option" 'k
  | DoCreate 'k "go_error option"
  | DoUpdate 'k "go_error option"
  | DoStatusUpdate 'k "go_error option"
  | DoDelete 'k "go_error option"

datatype event_type = Normal | Warning

datatype entry =
    OnPVC "pvc verb"
  | OnPV "pv verb"
  | OnPod "pod verb"
  | OnSC "storageclass verb"
  | OnCache "cache verb"
  | OnSP "storage_provisioner verb"
  | ListSP string
  | PVCEvent pvc event_type string string
  | PVEvent pv event_type string string
  | RefEvent objref event_type string string

type_synonym ('w, 'a) prog = "('w, entry, 'a) go"

definition k_get :: "('k, 'w) resource \<Rightarrow> ('k verb \<Rightarrow> entry) \<Rightarrow> nsname \<Rightarrow> 'k \<Rightarrow>
    ('w, go_error option \<times> 'k) prog" where
  "k_get r on n x = call (rc_get r n x) (\<lambda>(e, y). on (DoGet n e y))"

definition k_create :: "('k, 'w) resource \<Rightarrow> ('k verb \<Rightarrow> entry) \<Rightarrow> 'k \<Rightarrow>
    ('w, go_error option \<times> 'k) prog" where
  "k_create r on x = call (rc_create r x) (\<lambda>(e, y). on (DoCreate x e))"

definition k_update :: "('k, 'w) resource \<Rightarrow> ('k verb \<Rightarrow> entry) \<Rightarrow> 'k \<Rightarrow>
    ('w, go_error option \<times> 'k) prog" where
  "k_update r on x = call (rc_update r x) (\<lambda>(e, y). on (DoUpdate x e))"

definition k_status_update :: "('k, 'w) resource \<Rightarrow> ('k verb \<Rightarrow> entry) \<Rightarrow> 'k \<Rightarrow>
    ('w, go_error option \<times> 'k) prog" where
  "k_status_update r on x = call (rc_status_update r x) (\<lambda>(e, y). on (DoStatusUpdate x e))"

definition k_delete :: "('k, 'w) resource \<Rightarrow> ('k verb \<Rightarrow> entry) \<Rightarrow> 'k \<Rightarrow>
    ('w, go_error option) prog" where
  "k_delete r on x = call (rc_delete r x) (\<lambda>e. on (DoDelete x e))"

text \<open>A read never changes the cluster; every other verb may.\<close>
fun verb_reads :: "'k verb \<Rightarrow> bool" where
  "verb_reads (DoGet _ _ _) = True"
| "verb_reads _ = False"

fun entry_writes :: "entry \<Rightarrow> bool" where
  "entry_writes (OnPVC v) = (\<not> verb_reads v)"
| "entry_writes (OnPV v) = (\<not> verb_reads v)"
| "entry_writes (OnPod v) = (\<not> verb_reads v)"
| "entry_writes (OnSC v) = (\<not> verb_reads v)"
| "entry_writes (OnCache v) = (\<not> verb_reads v)"
| "entry_writes (OnSP v) = (\<not> verb_reads v)"
| "entry_writes _ = False"

text \<open>What a run from an empty trace did to the cluster.\<close>
definition run_trace :: "('w, 'a) prog \<Rightarrow> 'w \<Rightarrow> entry list" where
  "run_trace m w = trace (snd (m (start w)))"

definition run_result :: "('w, 'a) prog \<Rightarrow> 'w \<Rightarrow> 'a outcome" where
  "run_result m w = fst (m (start w))"

lemmas k_defs = k_get_def k_create_def k_update_def k_status_update_def k_delete_def

text \<open>One weakest-precondition equation per verb, for an arbitrary response.\<close>

lemma wp_k_get [wp_simps]:
  "wp (k_get r on n x) Q E s =
     (case rc_get r n x (world s) of ((e, y), w') \<Rightarrow>
        Q (e, y) (s\<lparr>world := w', trace := trace s @ [on (DoGet n e y)]\<rparr>))"
  by (simp add: k_get_def wp_call Let_def split: prod.splits)

lemma wp_k_create [wp_simps]:
  "wp (k_create r on x) Q E s =
     (case rc_create r x (world s) of ((e, y), w') \<Rightarrow>
        Q (e, y) (s\<lparr>world := w', trace := trace s @ [on (DoCreate x e)]\<rparr>))"
  by (simp add: k_create_def wp_call Let_def split: prod.splits)

lemma wp_k_update [wp_simps]:
  "wp (k_update r on x) Q E s =
     (case rc_update r x (world s) of ((e, y), w') \<Rightarrow>
        Q (e, y) (s\<lparr>world := w', trace := trace s @ [on (DoUpdate x e)]\<rparr>))"
  by (simp add: k_update_def wp_call Let_def split: prod.splits)

lemma wp_k_status_update [wp_simps]:
  "wp (k_status_update r on x) Q E s =
     (case rc_status_update r x (world s) of ((e, y), w') \<Rightarrow>
        Q (e, y) (s\<lparr>world := w', trace := trace s @ [on (DoStatusUpdate x e)]\<rparr>))"
  by (simp add: k_status_update_def wp_call Let_def split: prod.splits)

lemma wp_k_delete [wp_simps]:
  "wp (k_delete r on x) Q E s =
     (case rc_delete r x (world s) of (e, w') \<Rightarrow>
        Q e (s\<lparr>world := w', trace := trace s @ [on (DoDelete x e)]\<rparr>))"
  by (simp add: k_delete_def wp_call Let_def split: prod.splits)

lemma run_traceI: "wp m (\<lambda>_ s. P (trace s)) (\<lambda>s. P (trace s)) (start w) \<Longrightarrow> P (run_trace m w)"
  unfolding run_trace_def by (rule wp_final)

lemma run_both:
  assumes "wp m (\<lambda>a s. P (Ret a) (trace s)) (\<lambda>s. P Panic (trace s)) (start w)"
  shows "P (run_result m w) (run_trace m w)"
  using assms by (auto simp: run_result_def run_trace_def wp_def split: prod.splits outcome.splits)

lemma start_simps [simp]: "trace (start w) = []" "world (start w) = w"
  by (simp_all add: start_def)


text \<open>One call in front of the rest of a handler, for every possible response.\<close>

lemma tspec_bind_k_get [tspec_intros]:
  "(\<And>e y. tspec (f (e, y)) (\<lambda>o1 u. P o1 (on (DoGet n e y) # u))) \<Longrightarrow> tspec (bind (k_get r on n x) f) P"
  unfolding k_get_def by (rule tspec_bind_call) auto

lemma tspec_bind_k_create [tspec_intros]:
  "(\<And>e y. tspec (f (e, y)) (\<lambda>o1 u. P o1 (on (DoCreate x e) # u))) \<Longrightarrow> tspec (bind (k_create r on x) f) P"
  unfolding k_create_def by (rule tspec_bind_call) auto

lemma tspec_bind_k_update [tspec_intros]:
  "(\<And>e y. tspec (f (e, y)) (\<lambda>o1 u. P o1 (on (DoUpdate x e) # u))) \<Longrightarrow> tspec (bind (k_update r on x) f) P"
  unfolding k_update_def by (rule tspec_bind_call) auto

lemma tspec_bind_k_status_update [tspec_intros]:
  "(\<And>e y. tspec (f (e, y)) (\<lambda>o1 u. P o1 (on (DoStatusUpdate x e) # u))) \<Longrightarrow>
   tspec (bind (k_status_update r on x) f) P"
  unfolding k_status_update_def by (rule tspec_bind_call) auto

lemma tspec_bind_k_delete [tspec_intros]:
  "(\<And>e. tspec (f e) (\<lambda>o1 u. P o1 (on (DoDelete x e) # u))) \<Longrightarrow> tspec (bind (k_delete r on x) f) P"
  unfolding k_delete_def by (rule tspec_bind_call) auto

lemma tspec_run: "tspec m P \<Longrightarrow> P (run_result m w) (run_trace m w)"
  unfolding run_result_def run_trace_def by (rule tspec_start)


section \<open>A client with fixed answers\<close>

text \<open>Every read gives the first argument, every write the error of the second.\<close>
definition answering :: "go_error option \<times> 'k \<Rightarrow> go_error option \<Rightarrow> ('k, unit) resource" where
  "answering g e = \<lparr>rc_get = \<lambda>_ _ w. (g, w), rc_create = \<lambda>y w. ((e, y), w), rc_update = \<lambda>y w. ((e, y), w),
     rc_status_update = \<lambda>y w. ((e, y), w), rc_delete = \<lambda>_ w. (e, w)\<rparr>"

lemma exec_answering [exec_simps]:
  "exec (bind (k_get (answering (e0, y0) e) on n y) f) s =
     exec (f (e0, y0)) (s\<lparr>trace := trace s @ [on (DoGet n e0 y0)]\<rparr>)"
  "exec (bind (k_create (answering g e) on y) f) s = exec (f (e, y)) (s\<lparr>trace := trace s @ [on (DoCreate y e)]\<rparr>)"
  "exec (bind (k_update (answering g e) on y) f) s = exec (f (e, y)) (s\<lparr>trace := trace s @ [on (DoUpdate y e)]\<rparr>)"
  "exec (bind (k_status_update (answering g e) on y) f) s =
     exec (f (e, y)) (s\<lparr>trace := trace s @ [on (DoStatusUpdate y e)]\<rparr>)"
  "exec (bind (k_delete (answering g e) on y) h) s = exec (h e) (s\<lparr>trace := trace s @ [on (DoDelete y e)]\<rparr>)"
  by (cases s, simp add: exec_def answering_def k_defs call_def bind_def)+

lemma run_exec: "run_trace m w = trace (snd (exec m (start w)))" "run_result m w = fst (exec m (start w))"
  by (simp_all add: exec_def run_trace_def run_result_def)

definition answering_client :: "go_error option \<times> pvc \<Rightarrow> go_error option \<times> pv \<Rightarrow> go_error option \<times> pod \<Rightarrow>
    go_error option \<times> storageclass \<Rightarrow> unit client" where
  "answering_client claim vol pod class =
     \<lparr>cl_pvc = answering claim None, cl_pv = answering vol None, cl_pod = answering pod None,
       cl_sc = answering class None, cl_cache = answering (None, zero_cache) None,
       cl_sp = answering (None, zero_storage_provisioner) None, cl_sp_list = \<lambda>ns w. (Inr [], w)\<rparr>"

lemma answering_client_simps [simp]:
  "cl_pvc (answering_client a b p d) = answering a None"
  "cl_pv (answering_client a b p d) = answering b None"
  "cl_pod (answering_client a b p d) = answering p None"
  "cl_sc (answering_client a b p d) = answering d None"
  by (simp_all add: answering_client_def)

end
