(* ===== verification/Registry.thy ===== *)
theory Registry
  imports PodTemplates UtilMappings KubeClient "HOL-Library.AList"
begin

text \<open>
  \<^verbatim>\<open>internal/controllers/storageprovisioner_registry.go\<close>: the in-memory registry of storage
  provisioners, its validation and its initial load.

  \<open>registry\<close> is the Go map \<^verbatim>\<open>provisioners\<close>, from provisioner names to pointers: \<open>None\<close> as a value is
  the nil pointer that disables a name.  Every method holds the mutex from its first access of the
  map to its return, so one call is one step.
\<close>

type_synonym registry = "(string \<times> storage_provisioner option) list"

definition provisioner_name :: string where
  "provisioner_name = ''provisioner''"

definition newProvisioners :: registry where
  "newProvisioners = []"

definition Keys :: "registry \<Rightarrow> string list" where
  "Keys r = sort (map fst (filter (\<lambda>(k, v). v \<noteq> None) r))"

section \<open>Validation\<close>

fun validate_env :: "nat \<Rightarrow> env_mapping list \<Rightarrow> go_error option" where
  "validate_env i [] = None"
| "validate_env i (env # envs) =
     (if em_Name env = [] then Some (Errorf ''spec.env[%d].name is empty'' [ANat i])
      else if em_Annotation env = [] then Some (Errorf ''spec.env[%d].annotation is empty'' [ANat i])
      else validate_env (Suc i) envs)"

fun validate_nodes :: "nat \<Rightarrow> node_path list \<Rightarrow> go_error option" where
  "validate_nodes i [] = None"
| "validate_nodes i (node # nodes) =
     (if np_Name node = [] then Some (Errorf ''spec.nodes[%d].name is empty'' [ANat i])
      else if Match (np_Name node) ''test-node'' = None then
        Some (Wrapped ''spec.nodes[%d].name is an invalid matcher'' [ANat i]
                (Errorf ''syntax error in pattern'' []))
      else let path = Clean (np_Path node)
           in if Dir path = path \<or> \<not> IsAbs path then
                Some (Errorf ''spec.nodes[%d].path must be an absolute sub directory but is %q''
                        [ANat i, AStr path])
              else validate_nodes (Suc i) nodes)"

definition test_params :: provisioner_params where
  "test_params = \<lparr>pp_NodeName = ''test-node'', pp_NodePath = ''/test-node-path'',
     pp_PersistentVolumeName = ''test-pv'',
     pp_PersistentVolumeClaim = \<lparr>nn_Name = ''test-pvc'', nn_Namespace = ''test-pvc-ns''\<rparr>\<rparr>"

text \<open>The error of the placeholder substitution is ignored, as in the code.\<close>
definition validateProvisioner :: "extlib \<Rightarrow> storage_provisioner \<Rightarrow> go_error option" where
  "validateProvisioner x p0 =
     (let p = snd (SubstituteProvisionerPlaceholders x p0 test_params)
      in case NewProvisionerPod \<lparr>so_PodName = \<lparr>nn_Name = ''test-pod'', nn_Namespace = ''test-namespace''\<rparr>,
                so_ContainerName = provisioner_name,
                so_SubstitutedProvisioner = p,
                so_Container = cs_Provisioner (ps_Containers (sp_spec p)),
                so_Env = []\<rparr> of
           Inl err \<Rightarrow> Some err
         | Inr (_, p') \<Rightarrow>
             if s_VolumeMode (ps_PersistentVolumeTemplate (sp_spec p')) = None then
               Some (Errorf ''spec.persistentVolumeTemplate.VolumeMode is empty'' [])
             else (case validate_env 0 (ps_Env (sp_spec p')) of
                     Some err \<Rightarrow> Some err
                   | None \<Rightarrow>
                       if length (ps_Nodes (sp_spec p')) = 0 then
                         Some (Errorf ''spec.nodes is empty'' [])
                       else validate_nodes 0 (ps_Nodes (sp_spec p'))))"

section \<open>The registry's methods\<close>

definition same_object :: "storage_provisioner \<Rightarrow> storage_provisioner \<Rightarrow> bool" where
  "same_object p q \<longleftrightarrow> m_Name (sp_meta p) = m_Name (sp_meta q)
     \<and> m_Namespace (sp_meta p) = m_Namespace (sp_meta q)"

definition Put :: "extlib \<Rightarrow> registry \<Rightarrow> storage_provisioner \<Rightarrow> go_error option \<times> registry" where
  "Put x r p =
     (case validateProvisioner x p of
        Some err \<Rightarrow> (Some (Wrapped ''validate StorageProvisioner %s'' [AStr (m_Name (sp_meta p))] err), r)
      | None \<Rightarrow>
          (let key = GetProvisionerName p
           in case map_of r key of
                None \<Rightarrow> (None, AList.update key (Some p) r)
              | Some existing \<Rightarrow>
                  if existing = None \<or> \<not> same_object p (the existing) then
                    (Some (Errorf ''duplicate provisioner %s - key is disabled now'' [AStr key]),
                     AList.update key None r)
                  else (None, AList.update key (Some p) r)))"

definition Get :: "registry \<Rightarrow> string \<Rightarrow> storage_provisioner option" where
  "Get r name = (case map_of r name of Some (Some p) \<Rightarrow> Some p | _ \<Rightarrow> None)"

definition Delete :: "registry \<Rightarrow> storage_provisioner \<Rightarrow> registry" where
  "Delete r p = AList.delete (GetProvisionerName p) r"

fun load_loop :: "extlib \<Rightarrow> storage_provisioner list \<Rightarrow> registry \<Rightarrow> registry" where
  "load_loop x [] r = r"
| "load_loop x (p # ps) r = load_loop x ps (snd (Put x r p))"

definition LoadProvisioners :: "extlib \<Rightarrow> 'w client \<Rightarrow> string \<Rightarrow> ('w, go_error + registry) prog" where
  "LoadProvisioners x c namespace =
     bind (call (cl_sp_list c namespace) (\<lambda>_. ListSP namespace)) (\<lambda>l.
     case l of
       Inl err \<Rightarrow> ret (Inl err)
     | Inr items \<Rightarrow> ret (Inr (load_loop x items newProvisioners)))"

section \<open>Specification: one slot per provisioner name\<close>

datatype slot = Absent | Active storage_provisioner | Disabled

definition slots :: "registry \<Rightarrow> string \<Rightarrow> slot" where
  "slots r k = (case map_of r k of None \<Rightarrow> Absent | Some None \<Rightarrow> Disabled | Some (Some p) \<Rightarrow> Active p)"

text \<open>What registering a valid provisioner does to the slot of its name.\<close>
fun claim_slot :: "storage_provisioner \<Rightarrow> slot \<Rightarrow> slot" where
  "claim_slot p Absent = Active p"
| "claim_slot p Disabled = Disabled"
| "claim_slot p (Active q) = (if same_object p q then Active p else Disabled)"

definition spec_put :: "extlib \<Rightarrow> storage_provisioner \<Rightarrow> (string \<Rightarrow> slot) \<Rightarrow> string \<Rightarrow> slot" where
  "spec_put x p s = (if validateProvisioner x p = None
     then s(GetProvisionerName p := claim_slot p (s (GetProvisionerName p))) else s)"

definition registry_inv :: "extlib \<Rightarrow> registry \<Rightarrow> bool" where
  "registry_inv x r \<longleftrightarrow> distinct (map fst r)
     \<and> (\<forall>(k, v) \<in> set r. case v of None \<Rightarrow> True
          | Some p \<Rightarrow> GetProvisionerName p = k \<and> validateProvisioner x p = None)"

text \<open>The steps a registry can take, and the registries the manager can reach.\<close>
inductive registry_step :: "extlib \<Rightarrow> registry \<Rightarrow> registry \<Rightarrow> bool" for x where
  put: "registry_step x r (snd (Put x r p))"
| delete: "registry_step x r (Delete r p)"

inductive registry_reach :: "extlib \<Rightarrow> registry \<Rightarrow> bool" for x where
  init: "registry_reach x newProvisioners"
| step: "registry_reach x r \<Longrightarrow> registry_step x r r' \<Longrightarrow> registry_reach x r'"


text \<open>
  Documented behaviour of the conversion the substitution relies on: a nil pointer is left out of
  the unstructured content and a field that is left out is read back as nil, whatever happened to
  the strings in between.
\<close>
definition conversion_keeps_nil :: "extlib \<Rightarrow> bool" where
  "conversion_keeps_nil x \<longleftrightarrow>
     (\<forall>p u f e p'. x_toUnstructured x p = Inr u \<longrightarrow>
        x_fromUnstructured x (map (\<lambda>kv. (fst kv, map_leaves f (snd kv))) u) p = (e, p') \<longrightarrow>
        s_VolumeMode (ps_PersistentVolumeTemplate (sp_spec p)) = None \<longrightarrow>
        s_VolumeMode (ps_PersistentVolumeTemplate (sp_spec p')) = None)"

text \<open>Objects of the API server are told apart by their names and namespaces.\<close>
definition distinct_objects :: "storage_provisioner list \<Rightarrow> bool" where
  "distinct_objects ps = distinct (map (\<lambda>p. (m_Name (sp_meta p), m_Namespace (sp_meta p))) ps)"

section \<open>The contracts\<close>

text \<open>
  A store of slots: what registering and removing do to the slot of each name.  The lemmas say what
  a sequence of registrations comes to, for any representation of the store.
\<close>
locale slot_store =
  fixes put :: "'r \<Rightarrow> storage_provisioner \<Rightarrow> 'r"
    and del :: "'r \<Rightarrow> storage_provisioner \<Rightarrow> 'r"
    and slot :: "'r \<Rightarrow> string \<Rightarrow> slot"
    and valid :: "storage_provisioner \<Rightarrow> bool"
  assumes slot_put: "slot (put r p) k =
      (if valid p \<and> k = GetProvisionerName p then claim_slot p (slot r k) else slot r k)"
    and slot_del: "slot (del r p) k = (if k = GetProvisionerName p then Absent else slot r k)"
begin

definition candidates :: "storage_provisioner list \<Rightarrow> string \<Rightarrow> storage_provisioner list" where
  "candidates ps k = filter (\<lambda>p. valid p \<and> GetProvisionerName p = k) ps"

lemma put_disabled: "slot r k = Disabled \<Longrightarrow> slot (put r p) k = Disabled"
  by (auto simp: slot_put)

lemma fold_disabled: "slot r k = Disabled \<Longrightarrow> slot (fold (\<lambda>p r. put r p) ps r) k = Disabled"
  by (induction ps arbitrary: r) (simp_all add: put_disabled)

lemma fold_active:
  assumes "slot r k = Active q" and "\<forall>p \<in> set ps. \<not> same_object p q"
  shows "slot (fold (\<lambda>p r. put r p) ps r) k = (if candidates ps k = [] then Active q else Disabled)"
  using assms
  by (induction ps arbitrary: r) (auto simp: slot_put candidates_def fold_disabled)

lemma fold_absent:
  assumes "slot r k = Absent" and "distinct_objects ps"
  shows "slot (fold (\<lambda>p r. put r p) ps r) k =
    (case candidates ps k of [] \<Rightarrow> Absent | [p] \<Rightarrow> Active p | _ \<Rightarrow> Disabled)"
  using assms
proof (induction ps arbitrary: r)
  case Nil
  then show ?case by (simp add: candidates_def)
next
  case (Cons p ps)
  have d: "distinct_objects ps" "\<forall>q \<in> set ps. \<not> same_object q p"
    using Cons.prems(2) by (auto simp: distinct_objects_def same_object_def image_iff)
  show ?case
  proof (cases "valid p \<and> GetProvisionerName p = k")
    case True
    then have s: "slot (put r p) k = Active p" by (simp add: slot_put Cons.prems)
    have c: "candidates (p # ps) k = p # candidates ps k" using True by (simp add: candidates_def)
    show ?thesis using fold_active [OF s d(2)] c by (simp split: list.splits)
  next
    case False
    then have "slot (put r p) k = Absent" by (auto simp: slot_put Cons.prems)
    from Cons.IH [OF this d(1)] False show ?thesis by (auto simp: candidates_def)
  qed
qed

lemma del_put: "valid p \<Longrightarrow> slot (put (del r p) p) (GetProvisionerName p) = Active p"
  by (simp add: slot_put slot_del)

end

text \<open>What the controllers need of the registry they look provisioners up in (\<^verbatim>\<open>Provisioners\<close>).\<close>
locale provisioner_source =
  fixes ok :: "'r \<Rightarrow> bool"
    and lookup :: "'r \<Rightarrow> string \<Rightarrow> storage_provisioner option"
  assumes lookup_key: "ok r \<Longrightarrow> lookup r n = Some p \<Longrightarrow> GetProvisionerName p = n"
    and lookup_mode: "ok r \<Longrightarrow> lookup r n = Some p \<Longrightarrow>
      s_VolumeMode (ps_PersistentVolumeTemplate (sp_spec p)) \<noteq> None"

section \<open>The registry meets them\<close>

lemma slots_Put_at:
  "slots (snd (Put x r p)) k =
     (if validateProvisioner x p = None \<and> k = GetProvisionerName p
      then claim_slot p (slots r k) else slots r k)"
  by (auto simp: Put_def slots_def Let_def update_conv' same_object_def split: option.splits)

lemma slots_Delete: "slots (Delete r p) k = (if k = GetProvisionerName p then Absent else slots r k)"
  by (auto simp: Delete_def slots_def delete_conv')

interpretation reg: slot_store "\<lambda>r p. snd (Put x r p)" Delete slots "\<lambda>p. validateProvisioner x p = None"
  for x
  by unfold_locales (simp_all add: slots_Put_at slots_Delete)

lemma Get_slots: "Get r k = Some p \<longleftrightarrow> slots r k = Active p"
  by (auto simp: Get_def slots_def split: option.splits)

lemma Get_None_slots: "Get r k = None \<longleftrightarrow> (\<forall>p. slots r k \<noteq> Active p)"
  by (auto simp: Get_def slots_def split: option.splits)

lemma Put_succeeds:
  "fst (Put x r p) = None \<longleftrightarrow>
     validateProvisioner x p = None \<and> Get (snd (Put x r p)) (GetProvisionerName p) = Some p"
  by (auto simp: Put_def Get_def Let_def update_conv' split: option.splits)

lemma load_loop_fold: "load_loop x ps r = fold (\<lambda>p r. snd (Put x r p)) ps r"
  by (induction ps arbitrary: r) auto

lemma registry_inv_empty: "registry_inv x newProvisioners"
  by (simp add: registry_inv_def newProvisioners_def)


lemma AList_update_set: "(k', v') \<in> set (AList.update k v r) \<Longrightarrow> (k', v') = (k, v) \<or> (k', v') \<in> set r"
  by (induction r) (auto split: if_splits)

lemma registry_inv_update:
  assumes "registry_inv x r"
    and "\<And>p. v = Some p \<Longrightarrow> GetProvisionerName p = k \<and> validateProvisioner x p = None"
  shows "registry_inv x (AList.update k v r)"
proof -
  have "case v' of None \<Rightarrow> True | Some p \<Rightarrow> GetProvisionerName p = k' \<and> validateProvisioner x p = None"
    if "(k', v') \<in> set (AList.update k v r)" for k' v'
    using AList_update_set [OF that] assms by (fastforce simp: registry_inv_def split: option.splits)
  with assms(1) show ?thesis by (auto simp: registry_inv_def distinct_update)
qed

lemma registry_inv_Put: "registry_inv x r \<Longrightarrow> registry_inv x (snd (Put x r p))"
  by (auto simp: Put_def Let_def intro!: registry_inv_update split: option.splits)

lemma registry_inv_Delete: "registry_inv x r \<Longrightarrow> registry_inv x (Delete r p)"
  by (auto simp: registry_inv_def Delete_def AList.delete_eq distinct_map_filter)

lemma registry_step_inv: "registry_step x r r' \<Longrightarrow> registry_inv x r \<Longrightarrow> registry_inv x r'"
  by (induction rule: registry_step.induct) (simp_all add: registry_inv_Put registry_inv_Delete)

lemma registry_reach_registry_inv: "registry_reach x r \<Longrightarrow> registry_inv x r"
  by (induction rule: registry_reach.induct) (auto simp: registry_inv_empty registry_step_inv)

lemma registry_inv_Get:
  "registry_inv x r \<Longrightarrow> Get r n = Some p \<Longrightarrow>
     GetProvisionerName p = n \<and> validateProvisioner x p = None"
  by (fastforce simp: registry_inv_def Get_def split: option.splits dest: map_of_SomeD)

lemma registry_inv_map_of: "registry_inv x r \<Longrightarrow> map_of r k = Some v \<longleftrightarrow> (k, v) \<in> set r"
  by (simp add: registry_inv_def map_of_eq_Some_iff)

section \<open>What validation guarantees\<close>

lemma validate_nodes_None:
  "validate_nodes i nodes = None \<longleftrightarrow>
     (\<forall>node \<in> set nodes. np_Name node \<noteq> [] \<and> Match (np_Name node) ''test-node'' \<noteq> None
        \<and> Dir (Clean (np_Path node)) \<noteq> Clean (np_Path node) \<and> IsAbs (Clean (np_Path node)))"
  by (induction i nodes rule: validate_nodes.induct) (auto simp: Let_def)

lemma validate_env_None:
  "validate_env i envs = None \<longleftrightarrow> (\<forall>e \<in> set envs. em_Name e \<noteq> [] \<and> em_Annotation e \<noteq> [])"
  by (induction i envs rule: validate_env.induct) auto

lemma NewProvisionerPod_keeps:
  assumes "NewProvisionerPod src = Inr (pod, p')"
  shows "sp_spec p' = (sp_spec (so_SubstitutedProvisioner src))\<lparr>ps_PodTemplate := pod_spec pod\<rparr>
    \<and> sp_meta p' = sp_meta (so_SubstitutedProvisioner src)"
  using assms by (auto simp: NewProvisionerPod_def Let_def split: option.splits if_splits)


text \<open>The provisioner with the placeholders of the test parameters filled in, which is what is checked.\<close>
abbreviation test_instance :: "extlib \<Rightarrow> storage_provisioner \<Rightarrow> storage_provisioner" where
  "test_instance x p \<equiv> snd (SubstituteProvisionerPlaceholders x p test_params)"

lemma validateProvisioner_None:
  assumes "validateProvisioner x p = None"
  shows "s_VolumeMode (ps_PersistentVolumeTemplate (sp_spec (test_instance x p))) \<noteq> None
    \<and> (\<forall>e \<in> set (ps_Env (sp_spec (test_instance x p))). em_Name e \<noteq> [] \<and> em_Annotation e \<noteq> [])
    \<and> ps_Nodes (sp_spec (test_instance x p)) \<noteq> []
    \<and> validate_nodes 0 (ps_Nodes (sp_spec (test_instance x p))) = None"
  using assms
  by (auto simp: validateProvisioner_def Let_def validate_env_None
      split: sum.splits if_splits option.splits dest!: NewProvisionerPod_keeps)

lemma Substitute_keeps_nil:
  assumes "conversion_keeps_nil x"
    and "s_VolumeMode (ps_PersistentVolumeTemplate (sp_spec p)) = None"
  shows "s_VolumeMode (ps_PersistentVolumeTemplate (sp_spec (snd (Substitute x p s)))) = None"
proof (cases "x_toUnstructured x p")
  case (Inl e)
  with assms(2) show ?thesis by (simp add: Substitute_def)
next
  case (Inr u)
  show ?thesis
  proof (cases "SubstituteMap x s u")
    case (Inl e)
    with Inr assms(2) show ?thesis by (simp add: Substitute_def)
  next
    case (Inr u')
    then have u': "u' = map (\<lambda>kv. (fst kv, map_leaves (expanded x s) (snd kv))) u"
      by (simp add: SubstituteMap_def substitute_leafwise)
    obtain e p' where f: "x_fromUnstructured x u' p = (e, p')" by fastforce
    with assms u' \<open>x_toUnstructured x p = Inr u\<close>
    have "s_VolumeMode (ps_PersistentVolumeTemplate (sp_spec p')) = None"
      unfolding conversion_keeps_nil_def by blast
    with f Inr \<open>x_toUnstructured x p = Inr u\<close> show ?thesis
      by (cases e) (simp_all add: Substitute_def)
  qed
qed

lemma validated_mode:
  assumes "conversion_keeps_nil x" and "validateProvisioner x p = None"
  shows "s_VolumeMode (ps_PersistentVolumeTemplate (sp_spec p)) \<noteq> None"
proof
  assume n: "s_VolumeMode (ps_PersistentVolumeTemplate (sp_spec p)) = None"
  have "\<exists>s. test_instance x p = snd (Substitute x p s)"
    unfolding SubstituteProvisionerPlaceholders_def Let_def case_prod_beta snd_conv
    by (rule exI, rule refl)
  then obtain s where "test_instance x p = snd (Substitute x p s)" ..
  with validateProvisioner_None [OF assms(2)] Substitute_keeps_nil [OF assms(1) n, of s]
  show False by simp
qed

interpretation known: provisioner_source "\<lambda>r. conversion_keeps_nil x \<and> registry_inv x r" Get
  for x
  by unfold_locales (auto dest: registry_inv_Get validated_mode)

section \<open>Properties\<close>

text \<open>
  C13. Registering a provisioner does to the registry exactly what the specification says: an invalid
  one changes nothing; a valid one takes a free name, replaces its own earlier version, and disables
  a name held by another object or already disabled; no other name is affected.  The call succeeds
  exactly when the provisioner is valid and is the one registered under its name afterwards.
\<close>
theorem Put_refines_slots:
  "slots (snd (Put x r p)) = spec_put x p (slots r)
   \<and> (fst (Put x r p) = None \<longleftrightarrow>
        validateProvisioner x p = None \<and> Get (snd (Put x r p)) (GetProvisionerName p) = Some p)"
proof
  show "slots (snd (Put x r p)) = spec_put x p (slots r)"
    by (auto simp: fun_eq_iff slots_Put_at spec_put_def)
  show "fst (Put x r p) = None \<longleftrightarrow>
        validateProvisioner x p = None \<and> Get (snd (Put x r p)) (GetProvisionerName p) = Some p"
    by (rule Put_succeeds)
qed

text \<open>
  C30. In every registry the manager can reach, whatever was registered and removed before, a name
  gives a provisioner only if that provisioner carries this name, passed validation and has a volume
  mode, so that reading \<^verbatim>\<open>*VolumeMode\<close> of a registered provisioner never dereferences nil.
\<close>
theorem registered_provisioners_valid:
  assumes "registry_reach x r" and "conversion_keeps_nil x" and "Get r n = Some p"
  shows "GetProvisionerName p = n \<and> validateProvisioner x p = None
    \<and> (\<exists>mode. s_VolumeMode (ps_PersistentVolumeTemplate (sp_spec p)) = Some mode)"
  using registry_inv_Get [OF registry_reach_registry_inv [OF assms(1)] assms(3)]
    known.lookup_mode [of x r n p] registry_reach_registry_inv [OF assms(1)] assms(2,3)
  by auto

text \<open>A library that expands nothing: the placeholders stay as they are.\<close>
definition plain_ext :: extlib where
  "plain_ext = \<lparr>x_parse = \<lambda>n e t. Inr t, x_toUnstructured = \<lambda>p. Inr [],
     x_fromUnstructured = \<lambda>u p. (None, p), x_marshal = \<lambda>p. Inr (ps_Name (sp_spec p)),
     x_unmarshal = \<lambda>s p. (None, p), x_marshal_ref = \<lambda>r. Inr (r_Name r),
     x_unmarshal_ref = \<lambda>s. Inr \<lparr>r_APIVersion = [], r_Kind = [], r_Name = s, r_Namespace = [], r_UID = [],
        r_ResourceVersion = []\<rparr>\<rparr>"

lemma plain_ext_keeps_nil: "conversion_keeps_nil plain_ext"
  by (simp add: conversion_keeps_nil_def plain_ext_def)

lemma plain_ext_Substitute [simp]: "SubstituteProvisionerPlaceholders plain_ext p ps = (None, p)"
  by (simp add: SubstituteProvisionerPlaceholders_def Substitute_def plain_ext_def SubstituteMap_def
      Let_def)


lemma example_name: "GetProvisionerName example_provisioner = ''p.example''"
  by (simp add: GetProvisionerName_def example_defs)

lemma example_valid: "validateProvisioner plain_ext example_provisioner = None"
proof -
  obtain pod p' where pod: "NewProvisionerPod \<lparr>so_PodName = \<lparr>nn_Name = ''test-pod'', nn_Namespace = ''test-namespace''\<rparr>,
      so_ContainerName = provisioner_name, so_SubstitutedProvisioner = example_provisioner,
      so_Container = cs_Provisioner (ps_Containers (sp_spec example_provisioner)), so_Env = []\<rparr> = Inr (pod, p')"
    by (fastforce simp: NewProvisionerPod_def Let_def command_len_def merge_container_def example_defs)
  have "validate_nodes 0 (ps_Nodes (sp_spec example_provisioner)) = None"
    unfolding example_defs by code_simp
  with pod NewProvisionerPod_keeps [OF pod] show ?thesis
    by (simp add: validateProvisioner_def) (simp add: example_defs)
qed

theorem registered_provisioners_valid_witness:
  "registry_reach plain_ext (snd (Put plain_ext newProvisioners example_provisioner))
   \<and> conversion_keeps_nil plain_ext
   \<and> Get (snd (Put plain_ext newProvisioners example_provisioner)) ''p.example'' = Some example_provisioner
   \<and> validateProvisioner plain_ext example_provisioner = None"
proof -
  have r: "registry_reach plain_ext (snd (Put plain_ext newProvisioners example_provisioner))"
    by (rule registry_reach.step [OF registry_reach.init registry_step.put])
  have g: "Get (snd (Put plain_ext newProvisioners example_provisioner)) ''p.example'' = Some example_provisioner"
    by (simp add: Put_def Get_def example_valid example_name newProvisioners_def)
  show ?thesis using registered_provisioners_valid [OF r plain_ext_keeps_nil g] r g plain_ext_keeps_nil
    by (intro conjI) simp_all
qed

text \<open>
  Loading the provisioners at start-up: a name ends up registered exactly when one valid
  provisioner of the list carries it, and disabled when several do, in whatever order the API server
  lists them.
\<close>
theorem LoadProvisioners_unique_names:
  assumes "cl_sp_list c ns w = (Inr items, w')" and "distinct_objects items"
  shows "\<exists>r. run_result (LoadProvisioners x c ns) w = Ret (Inr r)
    \<and> registry_inv x r
    \<and> (\<forall>k. slots r k =
        (case filter (\<lambda>p. validateProvisioner x p = None \<and> GetProvisionerName p = k) items of
           [] \<Rightarrow> Absent | [p] \<Rightarrow> Active p | _ \<Rightarrow> Disabled))"
proof (intro exI conjI allI)
  show "run_result (LoadProvisioners x c ns) w = Ret (Inr (load_loop x items newProvisioners))"
    using assms(1) by (simp add: run_result_def LoadProvisioners_def bind_def call_def ret_def)
  have "registry_inv x (load_loop x ps r)" if "registry_inv x r" for ps r
    using that by (induction ps arbitrary: r) (simp_all add: registry_inv_Put)
  from this [OF registry_inv_empty] show "registry_inv x (load_loop x items newProvisioners)" .
  show "slots (load_loop x items newProvisioners) k =
      (case filter (\<lambda>p. validateProvisioner x p = None \<and> GetProvisionerName p = k) items of
         [] \<Rightarrow> Absent | [p] \<Rightarrow> Active p | _ \<Rightarrow> Disabled)" for k
    unfolding load_loop_fold
    by (rule reg.fold_absent [unfolded reg.candidates_def, OF _ assms(2)])
       (simp add: slots_def newProvisioners_def)
qed

definition listing_client :: "storage_provisioner list \<Rightarrow> unit client" where
  "listing_client items = \<lparr>cl_pvc = undefined, cl_pv = undefined, cl_pod = undefined,
     cl_sc = undefined, cl_cache = undefined, cl_sp = undefined, cl_sp_list = \<lambda>ns w. (Inr items, w)\<rparr>"

theorem LoadProvisioners_unique_names_witness:
  "\<exists>r. run_result (LoadProvisioners plain_ext (listing_client [example_provisioner]) ''ns'') () = Ret (Inr r)
     \<and> slots r ''p.example'' = Active example_provisioner \<and> slots r ''other'' = Absent"
proof -
  have l: "cl_sp_list (listing_client [example_provisioner]) ''ns'' () = (Inr [example_provisioner], ())"
    by (simp add: listing_client_def)
  have d: "distinct_objects [example_provisioner]" by (simp add: distinct_objects_def)
  from LoadProvisioners_unique_names [OF l d, of plain_ext]
  obtain r where r: "run_result (LoadProvisioners plain_ext (listing_client [example_provisioner]) ''ns'') () = Ret (Inr r)"
    and s: "\<forall>k. slots r k = (case filter (\<lambda>p. validateProvisioner plain_ext p = None
         \<and> GetProvisionerName p = k) [example_provisioner] of
         [] \<Rightarrow> Absent | [p] \<Rightarrow> Active p | _ \<Rightarrow> Disabled)"
    by (elim exE conjE)
  have "slots r ''p.example'' = Active example_provisioner" "slots r ''other'' = Absent"
    using s by (simp_all add: example_valid example_name)
  with r show ?thesis by (intro exI [of _ r] conjI)
qed


text \<open>
  \<^const>\<open>Keys\<close> lists the names that \<^const>\<open>Get\<close> finds a provisioner for, each once and in order;
  disabled names are left out.
\<close>
theorem Keys_lists_registered:
  assumes "registry_inv x r"
  shows "sorted (Keys r) \<and> distinct (Keys r) \<and> set (Keys r) = {k. \<exists>p. Get r k = Some p}"
proof (intro conjI)
  show "sorted (Keys r)" by (simp add: Keys_def)
  show "distinct (Keys r)"
    using assms by (simp add: Keys_def registry_inv_def distinct_map_filter)
  have "k \<in> set (Keys r) \<longleftrightarrow> (\<exists>p. (k, Some p) \<in> set r)" for k
    by (force simp: Keys_def)
  moreover have "(\<exists>p. Get r k = Some p) \<longleftrightarrow> (\<exists>p. (k, Some p) \<in> set r)" for k
    using registry_inv_map_of [OF assms, of k, symmetric]
    by (auto simp: Get_def split: option.splits)
  ultimately show "set (Keys r) = {k. \<exists>p. Get r k = Some p}" by blast
qed

theorem Keys_lists_registered_witness:
  "registry_inv plain_ext [(''b'', None), (''p.example'', Some example_provisioner)]
   \<and> set (Keys [(''b'', None), (''p.example'', Some example_provisioner)]) =
     {k. \<exists>p. Get [(''b'', None), (''p.example'', Some example_provisioner)] k = Some p}"
proof -
  have i: "registry_inv plain_ext [(''b'', None), (''p.example'', Some example_provisioner)]"
    by (simp add: registry_inv_def example_valid example_name)
  show ?thesis using i Keys_lists_registered [OF i] by blast
qed

text \<open>
  A provisioner that passes validation has, with its placeholders filled in, a volume mode,
  a name and an annotation for every environment variable, and at least one node; every node's path
  is an absolute one below the root directory.
\<close>
theorem validateProvisioner_guarantees:
  assumes "validateProvisioner x p = None"
  shows "let spec = sp_spec (snd (SubstituteProvisionerPlaceholders x p test_params))
    in s_VolumeMode (ps_PersistentVolumeTemplate spec) \<noteq> None
     \<and> list_all (\<lambda>e. em_Name e \<noteq> [] \<and> em_Annotation e \<noteq> []) (ps_Env spec)
     \<and> ps_Nodes spec \<noteq> []
     \<and> list_all (\<lambda>n. np_Name n \<noteq> [] \<and> IsAbs (Clean (np_Path n)) \<and> Clean (np_Path n) \<noteq> ''/'') (ps_Nodes spec)"
proof -
  have "Dir ''/'' = ''/''" by code_simp
  then have "Clean (np_Path n) \<noteq> ''/''" if "Dir (Clean (np_Path n)) \<noteq> Clean (np_Path n)" for n
    using that by metis
  with validateProvisioner_None [OF assms] show ?thesis
    by (auto simp: Let_def list_all_iff validate_nodes_None)
qed

theorem validateProvisioner_guarantees_witness:
  "validateProvisioner plain_ext example_provisioner = None
   \<and> ps_Nodes (sp_spec example_provisioner) \<noteq> []"
  using validateProvisioner_guarantees [OF example_valid] example_valid by (simp add: Let_def)

text \<open>
  Validation tries a node matcher on the name \<^verbatim>\<open>test-node\<close> only, and \<^verbatim>\<open>filepath.Match\<close> reports a
  malformed pattern only when it gets that far: a provisioner whose matcher is malformed can pass
  validation, be registered, and then fail for every volume on a node the pattern begins to match.
\<close>
theorem malformed_matcher_registered:
  "\<exists>p. validateProvisioner plain_ext p = None
     \<and> Get (snd (Put plain_ext newProvisioners p)) (GetProvisionerName p) = Some p
     \<and> StorageRootPathForNode ''a1'' (ps_Nodes (sp_spec p)) =
         Inl (Errorf ''invalid node name matcher specified in spec.nodes[%d].name'' [ANat 0])"
proof -
  let ?nodes = "[\<lparr>np_Name = ''a['', np_Path = ''/data''\<rparr>]"
  let ?p = "example_provisioner\<lparr>sp_spec := (sp_spec example_provisioner)\<lparr>ps_Nodes := ?nodes\<rparr>\<rparr>"
  have n: "validate_nodes 0 ?nodes = None" by code_simp
  have e: "StorageRootPathForNode ''a1'' ?nodes =
      Inl (Errorf ''invalid node name matcher specified in spec.nodes[%d].name'' [ANat 0])"
    by code_simp
  have v: "validateProvisioner plain_ext ?p = None"
    using n by (simp add: validateProvisioner_def NewProvisionerPod_def Let_def command_len_def
        merge_container_def example_defs)
  have "Get (snd (Put plain_ext newProvisioners ?p)) (GetProvisionerName ?p) = Some ?p"
    by (simp add: Put_def Get_def Let_def v newProvisioners_def)
  with v e show ?thesis by (intro exI [of _ ?p]) simp
qed

end
