(* ===== verification/GoSha256.thy ===== *)
theory GoSha256
  imports GoStd
begin

unbundle bit_operations_syntax

text \<open>
  \<^verbatim>\<open>crypto/sha256\<close> of the Go standard library, on byte strings, as far as \<^verbatim>\<open>utils.ResourceName\<close> uses
  it: the digest of one message and its lower-case hexadecimal form (\<^verbatim>\<open>fmt.Sprintf("%x", sum)\<close>).
\<close>

type_synonym u32 = "32 word"

text \<open>
  The round constants and the initial state are not tabulated but computed as the standard defines
  them: the first 32 bits of the fractional parts of the cube roots of the first 64 primes, and of
  the square roots of the first 8.  \<open>root_bits k n b\<close> finds the integer part of the \<open>k\<close>-th root of \<open>n\<close>
  bit by bit, from bit \<open>b - 1\<close> downwards.
\<close>
fun root_bits :: "nat \<Rightarrow> nat \<Rightarrow> nat \<Rightarrow> nat \<Rightarrow> nat" where
  "root_bits k n 0 r = r"
| "root_bits k n (Suc b) r = root_bits k n b (if (r + 2 ^ b) ^ k \<le> n then r + 2 ^ b else r)"

text \<open>Roots of primes below 312 have an integer part below 18, so 37 bits hold them with 32 more.\<close>
definition root_fraction :: "nat \<Rightarrow> nat \<Rightarrow> u32" where
  "root_fraction k p = of_nat (root_bits k (p * 2 ^ (32 * k)) 37 0 mod 2 ^ 32)"

definition small_primes :: "nat list" where
  "small_primes = filter (\<lambda>p. \<forall>d \<in> set [2..<p]. p mod d \<noteq> 0) [2..<312]"

definition sha_K :: "u32 list" where
  "sha_K = map (root_fraction 3) small_primes"

definition sha_init :: "u32 list" where
  "sha_init = map (root_fraction 2) [2, 3, 5, 7, 11, 13, 17, 19]"

definition rotr32 :: "nat \<Rightarrow> u32 \<Rightarrow> u32" where
  "rotr32 n x = drop_bit n x OR push_bit (32 - n) x"

definition sha_sigma0 :: "u32 \<Rightarrow> u32" where
  "sha_sigma0 x = (rotr32 7 x XOR rotr32 18 x) XOR drop_bit 3 x"

definition sha_sigma1 :: "u32 \<Rightarrow> u32" where
  "sha_sigma1 x = (rotr32 17 x XOR rotr32 19 x) XOR drop_bit 10 x"

definition sha_Sigma0 :: "u32 \<Rightarrow> u32" where
  "sha_Sigma0 x = (rotr32 2 x XOR rotr32 13 x) XOR rotr32 22 x"

definition sha_Sigma1 :: "u32 \<Rightarrow> u32" where
  "sha_Sigma1 x = (rotr32 6 x XOR rotr32 11 x) XOR rotr32 25 x"

definition sha_Ch :: "u32 \<Rightarrow> u32 \<Rightarrow> u32 \<Rightarrow> u32" where
  "sha_Ch x y z = (x AND y) XOR (NOT x AND z)"

definition sha_Maj :: "u32 \<Rightarrow> u32 \<Rightarrow> u32 \<Rightarrow> u32" where
  "sha_Maj x y z = ((x AND y) XOR (x AND z)) XOR (y AND z)"

text \<open>The message schedule, newest word first: each new word from the last sixteen.\<close>
fun sha_extend :: "nat \<Rightarrow> u32 list \<Rightarrow> u32 list" where
  "sha_extend 0 ws = ws"
| "sha_extend (Suc n) ws =
     sha_extend n ((sha_sigma1 (ws ! 1) + ws ! 6 + sha_sigma0 (ws ! 14) + ws ! 15) # ws)"

definition sha_schedule :: "u32 list \<Rightarrow> u32 list" where
  "sha_schedule block = rev (sha_extend 48 (rev block))"

fun sha_round :: "u32 \<times> u32 \<Rightarrow> u32 list \<Rightarrow> u32 list" where
  "sha_round (k, w) [a, b, c, d, e, f, g, h] =
     (let t1 = h + sha_Sigma1 e + sha_Ch e f g + k + w;
          t2 = sha_Sigma0 a + sha_Maj a b c
      in [t1 + t2, a, b, c, d + t1, e, f, g])"
| "sha_round kw st = st"

definition sha_block :: "u32 list \<Rightarrow> u32 list \<Rightarrow> u32 list" where
  "sha_block block hs = map2 (+) hs (fold sha_round (zip sha_K (sha_schedule block)) hs)"

definition byte_of :: "char \<Rightarrow> u32" where
  "byte_of c = of_nat (of_char c)"

fun sha_words :: "u32 list \<Rightarrow> u32 list" where
  "sha_words (a # b # c # d # bs) =
     (push_bit 24 a OR push_bit 16 b OR push_bit 8 c OR d) # sha_words bs"
| "sha_words bs = []"

definition sha_pad :: "string \<Rightarrow> u32 list" where
  "sha_pad m =
     (let n = length m; z = (119 - n mod 64) mod 64
      in map byte_of m @ [0x80] @ replicate z 0
         @ map (\<lambda>i. of_nat ((8 * n div 256 ^ i) mod 256)) (rev [0..<8]))"

fun sha_blocks :: "nat \<Rightarrow> u32 list \<Rightarrow> u32 list \<Rightarrow> u32 list" where
  "sha_blocks 0 ws hs = hs"
| "sha_blocks (Suc n) ws hs = sha_blocks n (drop 16 ws) (sha_block (take 16 ws) hs)"

definition sha256 :: "string \<Rightarrow> u32 list" where
  "sha256 m = (let ws = sha_words (sha_pad m) in sha_blocks (length ws div 16) ws sha_init)"

definition hex8 :: "u32 \<Rightarrow> string" where
  "hex8 x = map (\<lambda>i. hex_digit (unat (drop_bit (4 * i) x))) (rev [0..<8])"

text \<open>The hexadecimal digest.\<close>
definition sha256_hex :: "string \<Rightarrow> string" where
  "sha256_hex m = concat (map hex8 (sha256 m))"

section \<open>The digest always has 64 characters\<close>

lemma length_sha_round: "length st = 8 \<Longrightarrow> length (sha_round kw st) = 8"
  by (cases "(kw, st)" rule: sha_round.cases) (auto simp: Let_def)

lemma length_fold_sha_round: "length st = 8 \<Longrightarrow> length (fold sha_round kws st) = 8"
  by (induction kws arbitrary: st) (auto simp: length_sha_round)

lemma length_sha_blocks: "length hs = 8 \<Longrightarrow> length (sha_blocks n ws hs) = 8"
  by (induction n arbitrary: ws hs) (auto simp: sha_block_def length_fold_sha_round)

lemma length_sha256 [simp]: "length (sha256 m) = 8"
  by (simp add: sha256_def Let_def sha_init_def length_sha_blocks)

lemma length_sha256_hex [simp]: "length (sha256_hex m) = 64"
proof -
  have "\<And>xs. length (concat (map hex8 xs)) = 8 * length xs"
    by (rule list.induct) (auto simp: hex8_def)
  then show ?thesis by (simp add: sha256_hex_def)
qed

end
