(* ===== verification/UtilStrings.thy ===== *)
theory UtilStrings
  imports GoSha256
begin

text \<open>
  \<^verbatim>\<open>internal/utils/strings.go\<close>: the string lists that hold finalizers, and the names of the resources
  the manager creates.  A slice passed by pointer is given back updated, next to the function's
  result.
\<close>

definition RemoveString :: "string list \<Rightarrow> string \<Rightarrow> string list \<times> bool" where
  "RemoveString items s =
     fold (\<lambda>item (filtered, removed). if item = s then (filtered, True) else (filtered @ [item], removed))
       items ([], False)"

fun AddString_loop :: "string list \<Rightarrow> string \<Rightarrow> bool" where
  "AddString_loop [] s = True"
| "AddString_loop (item # rest) s = (if item = s then False else AddString_loop rest s)"

definition AddString :: "string list \<Rightarrow> string \<Rightarrow> string list \<times> bool" where
  "AddString items s = (if AddString_loop items s then (items @ [s], True) else (items, False))"

fun HasString :: "string list \<Rightarrow> string \<Rightarrow> bool" where
  "HasString [] s = False"
| "HasString (item # rest) s = (if item = s then True else HasString rest s)"

text \<open>
  \<^verbatim>\<open>ResourceName\<close>.  \<^verbatim>\<open>maxLen\<close> is a Go \<^verbatim>\<open>int\<close> and may be negative; slicing \<^verbatim>\<open>ownerName[:maxLen]\<close> then
  panics.
\<close>
definition ResourceName :: "string \<Rightarrow> string \<Rightarrow> string outcome" where
  "ResourceName ownerName sfx =
     (let maxLen = 63 - 8 - 1 - int (length sfx);
          name = ownerName @ ''-'' @ sfx
      in if int (length ownerName) > maxLen then
           (if maxLen < 0 then Panic
            else let nameDigest = take 7 (sha256_hex name)
                 in Ret (take (nat maxLen) ownerName @ ''-'' @ nameDigest))
         else Ret name)"

section \<open>The contract of a list of finalizers\<close>

text \<open>
  What the controllers rely on when they add, remove and look up a finalizer, over any
  representation \<open>'l\<close>.
\<close>

locale finalizer_list =
  fixes add :: "'l \<Rightarrow> 'a \<Rightarrow> 'l \<times> bool"
    and remove :: "'l \<Rightarrow> 'a \<Rightarrow> 'l \<times> bool"
    and has :: "'l \<Rightarrow> 'a \<Rightarrow> bool"
  assumes has_add: "has (fst (add l x)) y \<longleftrightarrow> y = x \<or> has l y"
    and add_changed: "snd (add l x) \<longleftrightarrow> \<not> has l x"
    and add_present: "has l x \<Longrightarrow> fst (add l x) = l"
    and has_remove: "has (fst (remove l x)) y \<longleftrightarrow> y \<noteq> x \<and> has l y"
    and remove_changed: "snd (remove l x) \<longleftrightarrow> has l x"
    and remove_absent: "\<not> has l x \<Longrightarrow> fst (remove l x) = l"
    and remove_add: "\<not> has l x \<Longrightarrow> fst (remove (fst (add l x)) x) = l"
begin

lemma add_twice: "add (fst (add l x)) x = (fst (add l x), False)"
  by (simp add: prod_eq_iff add_present has_add add_changed)

lemma remove_twice: "remove (fst (remove l x)) x = (fst (remove l x), False)"
  by (simp add: prod_eq_iff remove_absent has_remove remove_changed)

lemma add_remove_round_trip:
  "\<not> has l x \<Longrightarrow> snd (add l x) \<and> remove (fst (add l x)) x = (l, True)"
  by (simp add: prod_eq_iff add_changed remove_changed has_add remove_add)

lemma others_kept: "y \<noteq> x \<Longrightarrow> has (fst (add l x)) y = has l y \<and> has (fst (remove l x)) y = has l y"
  by (simp add: has_add has_remove)

end

section \<open>The code meets the contract\<close>

lemma RemoveString_fold:
  "fold (\<lambda>item (filtered, removed). if item = s then (filtered, True) else (filtered @ [item], removed))
     items (acc, b) = (acc @ filter (\<lambda>x. x \<noteq> s) items, b \<or> s \<in> set items)"
  by (induction items arbitrary: acc b) auto

lemma RemoveString_eq: "RemoveString items s = (filter (\<lambda>x. x \<noteq> s) items, s \<in> set items)"
  by (simp add: RemoveString_def RemoveString_fold)

lemma AddString_loop_eq: "AddString_loop items s \<longleftrightarrow> s \<notin> set items"
  by (induction items) auto

lemma AddString_eq: "AddString items s = (if s \<in> set items then (items, False) else (items @ [s], True))"
  by (simp add: AddString_def AddString_loop_eq)

lemma HasString_eq: "HasString items s \<longleftrightarrow> s \<in> set items"
  by (induction items) auto

lemmas string_list_eqs = RemoveString_eq AddString_eq HasString_eq

interpretation fin: finalizer_list AddString RemoveString HasString
  by unfold_locales (auto simp: string_list_eqs filter_id_conv)

section \<open>Resource names\<close>

lemma ResourceName_short:
  "length ownerName + length sfx \<le> 54 \<Longrightarrow> ResourceName ownerName sfx = Ret (ownerName @ ''-'' @ sfx)"
  by (simp add: ResourceName_def Let_def)

lemma ResourceName_long:
  "54 < length ownerName + length sfx \<Longrightarrow> length sfx \<le> 54 \<Longrightarrow>
   ResourceName ownerName sfx =
     Ret (take (54 - length sfx) ownerName @ ''-'' @ take 7 (sha256_hex (ownerName @ ''-'' @ sfx)))"
  by (simp add: ResourceName_def Let_def nat_diff_distrib)


lemma ResourceName_bounds:
  "length sfx \<le> 54 \<Longrightarrow> \<exists>n. ResourceName ownerName sfx = Ret n \<and> length n \<le> 62"
  by (cases "54 < length ownerName + length sfx") (auto simp: ResourceName_long ResourceName_short)

lemma ResourceName_not_Panic [simp]: "length sfx \<le> 54 \<Longrightarrow> ResourceName ownerName sfx \<noteq> Panic"
  using ResourceName_bounds [of sfx ownerName] by auto

section \<open>Properties\<close>

text \<open>
  C40. For every owner name and every suffix of at most 54 characters \<^const>\<open>ResourceName\<close> returns a
  name, without panicking, that fits into the 63 characters Kubernetes allows; owners whose names fit
  in full get distinct names, and distinct suffixes of an owner give distinct names.
\<close>
theorem ResourceName_fits:
  assumes "length sfx \<le> 54" and "length sfx' \<le> 54"
  shows "\<exists>n. ResourceName a sfx = Ret n \<and> length n \<le> 63
    \<and> (length a + length sfx \<le> 54 \<longrightarrow> length b + length sfx \<le> 54 \<longrightarrow>
         ResourceName b sfx = Ret n \<longrightarrow> a = b)
    \<and> (length a + length sfx \<le> 54 \<longrightarrow> length a + length sfx' \<le> 54 \<longrightarrow>
         ResourceName a sfx' = Ret n \<longrightarrow> sfx = sfx')"
proof -
  obtain n where "ResourceName a sfx = Ret n" "length n \<le> 62"
    using ResourceName_bounds [OF assms(1)] by blast
  then show ?thesis by (auto simp: ResourceName_short)
qed

theorem ResourceName_fits_witness:
  "\<exists>n. ResourceName ''pvc-1'' ''provisioner'' = Ret n \<and> length n \<le> 63
     \<and> ResourceName ''pvc-1'' ''deprovisioner'' \<noteq> Ret n"
  using ResourceName_fits [of "''provisioner''" "''deprovisioner''" "''pvc-1''" "''pvc-2''"] by auto

text \<open>
  Finalizers: adding one that is missing and removing it again gives the list back unchanged;
  adding is idempotent, removing leaves no occurrence, and neither touches any other finalizer.
\<close>
theorem finalizer_round_trip:
  assumes "\<not> HasString l f"
  shows "snd (AddString l f) \<and> RemoveString (fst (AddString l f)) f = (l, True)
    \<and> AddString (fst (AddString l f)) f = (fst (AddString l f), False)
    \<and> (\<forall>m g. HasString (fst (RemoveString m f)) g = (g \<noteq> f \<and> HasString m g))
    \<and> (\<forall>g. HasString (fst (AddString l f)) g = (g = f \<or> HasString l g))"
  using fin.add_remove_round_trip [OF assms] fin.add_twice fin.has_remove fin.has_add by blast

theorem finalizer_round_trip_witness:
  "\<not> HasString [''a''] ''f'' \<and> RemoveString (fst (AddString [''a''] ''f'')) ''f'' = ([''a''], True)"
proof -
  have "\<not> HasString [''a''] ''f''" by simp
  with finalizer_round_trip [of "[''a'']" "''f''"] show ?thesis by blast
qed

end
