(* ===== verification/Jobs.thy ===== *)
theory Jobs
  imports PodTemplates UtilMappings UtilStrings KubeClient
begin

text \<open>
  \<^verbatim>\<open>internal/utils/pod.go\<close> and \<^verbatim>\<open>internal/utils/deleteresource.go\<close>: running a pod to completion on behalf
  of an owner, one step per reconciliation.  \<open>job_run\<close> specifies the runs one call can make; the
  locale \<open>job_runner\<close> is the contract the controllers rely on, and \<open>ReconcileJob\<close> meets it.
\<close>

record job_reconciler =
  jr_AnnotationOwnerName :: string
  jr_AnnotationOwnerNamespace :: string

text \<open>\<^verbatim>\<open>JobRequest\<close>: the owner is given by its metadata and by the event it is the subject of.\<close>
record 'w job_request =
  jq_Name :: string
  jq_PodName :: nsname
  jq_Owner :: objmeta
  jq_OwnerEvent :: "event_type \<Rightarrow> string \<Rightarrow> string \<Rightarrow> entry"
  jq_ShouldRun :: bool
  jq_Create :: "('w, go_error + pod) prog"
  jq_OnCompleted :: "pod \<Rightarrow> ('w, bool \<times> go_error option) prog"

definition DeleteResource :: "('k, 'w) resource \<Rightarrow> ('k verb \<Rightarrow> entry) \<Rightarrow> 'k \<Rightarrow>
    ('w, bool \<times> go_error option) prog" where
  "DeleteResource r on obj =
     bind (k_delete r on obj) (\<lambda>err.
     case err of
       None \<Rightarrow> ret (False, None)
     | Some e \<Rightarrow> if IsNotFound e then ret (True, None) else ret (False, Some e))"

definition DeletePod :: "'w client \<Rightarrow> nsname \<Rightarrow> ('w, bool \<times> go_error option) prog" where
  "DeletePod c name =
     bind (k_get (cl_pod c) OnPod name zero_pod) (\<lambda>(err, pod).
     case err of
       None \<Rightarrow> DeleteResource (cl_pod c) OnPod pod
     | Some e \<Rightarrow> if IsNotFound e then ret (True, None) else ret (False, Some e))"

definition ReconcilePod :: "'w client \<Rightarrow> nsname \<Rightarrow> ('w, go_error + pod) prog \<Rightarrow>
    ('w, bool \<times> pod option \<times> go_error option) prog" where
  "ReconcilePod c name create =
     bindR
       (bind (k_get (cl_pod c) OnPod name zero_pod) (\<lambda>(err, pod).
        case err of
          None \<Rightarrow> ret (Inr pod)
        | Some e \<Rightarrow>
            if IsNotFound e then
              bind create (\<lambda>created.
              case created of
                Inl e1 \<Rightarrow> ret (Inl (False, None, Some e1))
              | Inr pod1 \<Rightarrow>
                  (let pod2 = pod1\<lparr>pod_meta := (pod_meta pod1)\<lparr>m_Name := nn_Name name,
                                   m_Namespace := nn_Namespace name\<rparr>\<rparr>
                   in bind (k_create (cl_pod c) OnPod pod2) (\<lambda>(err2, pod3).
                      case err2 of
                        None \<Rightarrow> ret (Inl (False, Some pod3, None))
                      | Some e2 \<Rightarrow>
                          if IsAlreadyExists e2 then
                            bind (k_get (cl_pod c) OnPod name pod3) (\<lambda>(err3, pod4).
                            case err3 of
                              None \<Rightarrow> ret (Inr pod4)
                            | Some e3 \<Rightarrow> ret (Inl (False, Some pod4, Some (Wrapped ''reconcile pod'' [] e3))))
                          else ret (Inl (False, Some pod3, Some (Wrapped ''reconcile pod'' [] e2))))))
            else ret (Inl (False, Some pod, Some (Wrapped ''reconcile pod'' [] e)))))
       (\<lambda>pod.
        if pod_Phase pod = PodSucceeded then ret (True, Some pod, None)
        else if pod_Phase pod = PodFailed then
          ret (True, Some pod, Some (Errorf ''pod %s failed'' [AStr (m_Name (pod_meta pod))]))
        else ret (False, Some pod, None))"

text \<open>What \<^verbatim>\<open>ReconcileJob\<close> adds to the pod its request creates.\<close>
definition own_pod :: "job_reconciler \<Rightarrow> objmeta \<Rightarrow> pod \<Rightarrow> pod" where
  "own_pod jr owner pod =
     (let a1 = mput (mnonnil (m_Annotations (pod_meta pod))) (jr_AnnotationOwnerName jr) (m_Name owner);
          a2 = (if jr_AnnotationOwnerNamespace jr \<noteq> []
                then mput a1 (jr_AnnotationOwnerNamespace jr) (m_Namespace owner) else a1)
      in pod\<lparr>pod_meta := (pod_meta pod)\<lparr>m_Annotations := a2\<rparr>,
             pod_spec := (pod_spec pod)\<lparr>p_RestartPolicy := RestartPolicyNever\<rparr>\<rparr>)"

definition name_upper :: "string \<Rightarrow> string outcome" where
  "name_upper name = (case name of [] \<Rightarrow> Panic | c # cs \<Rightarrow> Ret (ToUpper [c] @ cs))"

definition ReconcileJob :: "'w client \<Rightarrow> job_reconciler \<Rightarrow> 'w job_request \<Rightarrow>
    ('w, bool \<times> go_error option) prog" where
  "ReconcileJob c jr req =
     (if \<not> jq_ShouldRun req then DeletePod c (jq_PodName req)
      else
        bind (ReconcilePod c (jq_PodName req)
               (bind (jq_Create req) (\<lambda>created.
                case created of
                  Inl e \<Rightarrow> ret (Inl e)
                | Inr pod \<Rightarrow> ret (Inr (own_pod jr (jq_Owner req) pod))))) (\<lambda>(done, pod, err0).
        bind (lift (name_upper (jq_Name req))) (\<lambda>nameUpper.
        let err = wrap ''%s'' [AStr (jq_Name req)] err0
        in if err \<noteq> None \<or> \<not> done then
             (if err \<noteq> None \<and> done then
                (case pod of
                   None \<Rightarrow> panic
                 | Some _ \<Rightarrow>
                     bind (emit (jq_OwnerEvent req Warning (nameUpper @ ''Failed'') (nameUpper @ '' Pod failed'')))
                       (\<lambda>_. ret (done, err)))
              else ret (done, err))
           else
             (case pod of
                None \<Rightarrow> panic
              | Some pod \<Rightarrow>
                  bind (emit (jq_OwnerEvent req Normal (nameUpper @ ''Completed'') (nameUpper @ '' Pod completed''))) (\<lambda>_.
                  bind (jq_OnCompleted req pod) (\<lambda>(done, err).
                  if err \<noteq> None \<or> \<not> done then ret (done, err)
                  else DeleteResource (cl_pod c) OnPod pod))))))"

section \<open>Specification\<close>

text \<open>The last thing a run saw is that there is no such pod.\<close>
inductive pod_gone :: "nsname \<Rightarrow> entry list \<Rightarrow> bool" for n where
  not_found: "IsNotFound e \<Longrightarrow> pod_gone n [OnPod (DoGet n (Some e) p)]"
| deleted: "IsNotFound e \<Longrightarrow> pod_gone n [OnPod (DoGet n None p), OnPod (DoDelete p (Some e))]"

text \<open>The runs of a job that should not run: its pod is deleted if there is one.\<close>
inductive idle_run :: "nsname \<Rightarrow> (bool \<times> go_error option) outcome \<Rightarrow> entry list \<Rightarrow> bool" for n where
  gone: "pod_gone n t \<Longrightarrow> idle_run n (Ret (True, None)) t"
| deleting: "idle_run n (Ret (False, None)) [OnPod (DoGet n None p), OnPod (DoDelete p None)]"
| unreadable: "\<not> IsNotFound e \<Longrightarrow> idle_run n (Ret (False, Some e)) [OnPod (DoGet n (Some e) p)]"
| undeletable: "\<not> IsNotFound e \<Longrightarrow>
    idle_run n (Ret (False, Some e)) [OnPod (DoGet n None p), OnPod (DoDelete p (Some e))]"

text \<open>The ways in which a job comes to know its pod; \<open>C r t\<close> says what creating it may do.\<close>
inductive pod_seen :: "nsname \<Rightarrow> (pod \<Rightarrow> pod) \<Rightarrow> ((go_error + pod) outcome \<Rightarrow> entry list \<Rightarrow> bool) \<Rightarrow>
    pod \<Rightarrow> entry list \<Rightarrow> bool" for n own C where
  found: "pod_seen n own C pod [OnPod (DoGet n None pod)]"
| raced: "IsNotFound e \<Longrightarrow> C (Ret (Inr p)) t \<Longrightarrow> IsAlreadyExists e' \<Longrightarrow>
    pod_seen n own C pod
      (OnPod (DoGet n (Some e) p0) # t @ [OnPod (DoCreate (own p) (Some e')), OnPod (DoGet n None pod)])"

text \<open>The runs that end before there is a pod to look at, and whether they end in an error.\<close>
inductive pod_stopped :: "nsname \<Rightarrow> (pod \<Rightarrow> pod) \<Rightarrow> ((go_error + pod) outcome \<Rightarrow> entry list \<Rightarrow> bool) \<Rightarrow>
    bool \<Rightarrow> entry list \<Rightarrow> bool" for n own C where
  get_failed: "\<not> IsNotFound e \<Longrightarrow> pod_stopped n own C True [OnPod (DoGet n (Some e) p)]"
| create_failed: "IsNotFound e \<Longrightarrow> C (Ret (Inl e')) t \<Longrightarrow>
    pod_stopped n own C True (OnPod (DoGet n (Some e) p) # t)"
| created: "IsNotFound e \<Longrightarrow> C (Ret (Inr pod)) t \<Longrightarrow>
    pod_stopped n own C False (OnPod (DoGet n (Some e) p) # t @ [OnPod (DoCreate (own pod) None)])"
| create_rejected: "IsNotFound e \<Longrightarrow> C (Ret (Inr pod)) t \<Longrightarrow> \<not> IsAlreadyExists e' \<Longrightarrow>
    pod_stopped n own C True (OnPod (DoGet n (Some e) p) # t @ [OnPod (DoCreate (own pod) (Some e'))])"
| reload_failed: "IsNotFound e \<Longrightarrow> C (Ret (Inr pod)) t \<Longrightarrow> IsAlreadyExists e' \<Longrightarrow>
    pod_stopped n own C True
      (OnPod (DoGet n (Some e) p) # t @ [OnPod (DoCreate (own pod) (Some e')), OnPod (DoGet n (Some e'') p')])"

text \<open>The runs of a job that should run; \<open>D pod r t\<close> says what its completion callback may do.\<close>
inductive job_run :: "nsname \<Rightarrow> (pod \<Rightarrow> pod) \<Rightarrow> (event_type \<Rightarrow> string \<Rightarrow> string \<Rightarrow> entry) \<Rightarrow>
    ((go_error + pod) outcome \<Rightarrow> entry list \<Rightarrow> bool) \<Rightarrow>
    (pod \<Rightarrow> (bool \<times> go_error option) outcome \<Rightarrow> entry list \<Rightarrow> bool) \<Rightarrow>
    (bool \<times> go_error option) outcome \<Rightarrow> entry list \<Rightarrow> bool" for n own ev C D where
  stopped: "pod_stopped n own C (err \<noteq> None) t \<Longrightarrow> job_run n own ev C D (Ret (False, err)) t"
| create_panic: "IsNotFound e \<Longrightarrow> C Panic t \<Longrightarrow>
    job_run n own ev C D Panic (OnPod (DoGet n (Some e) p) # t)"
| pending: "pod_seen n own C pod t \<Longrightarrow> pod_Phase pod \<noteq> PodSucceeded \<Longrightarrow> pod_Phase pod \<noteq> PodFailed \<Longrightarrow>
    job_run n own ev C D (Ret (False, None)) t"
| failed: "pod_seen n own C pod t \<Longrightarrow> pod_Phase pod = PodFailed \<Longrightarrow>
    job_run n own ev C D (Ret (True, Some err)) (t @ [ev Warning r m])"
| completion_stopped: "pod_seen n own C pod t \<Longrightarrow> pod_Phase pod = PodSucceeded \<Longrightarrow>
    D pod (Ret (d, err)) u \<Longrightarrow> err \<noteq> None \<or> \<not> d \<Longrightarrow>
    job_run n own ev C D (Ret (d, err)) (t @ ev Normal r m # u)"
| completion_panic: "pod_seen n own C pod t \<Longrightarrow> pod_Phase pod = PodSucceeded \<Longrightarrow> D pod Panic u \<Longrightarrow>
    job_run n own ev C D Panic (t @ ev Normal r m # u)"
| completed: "pod_seen n own C pod t \<Longrightarrow> pod_Phase pod = PodSucceeded \<Longrightarrow> D pod (Ret (True, None)) u \<Longrightarrow>
    res = (case e of None \<Rightarrow> (False, None)
             | Some e' \<Rightarrow> if IsNotFound e' then (True, None) else (False, Some e')) \<Longrightarrow>
    job_run n own ev C D (Ret res) (t @ ev Normal r m # u @ [OnPod (DoDelete pod e)])"

definition name_pod :: "nsname \<Rightarrow> pod \<Rightarrow> pod" where
  "name_pod n pod = pod\<lparr>pod_meta := (pod_meta pod)\<lparr>m_Name := nn_Name n, m_Namespace := nn_Namespace n\<rparr>\<rparr>"

section \<open>The runs of the code\<close>

text \<open>What \<^const>\<open>ReconcilePod\<close> may return after which trace.\<close>
inductive pod_run :: "nsname \<Rightarrow> ((go_error + pod) outcome \<Rightarrow> entry list \<Rightarrow> bool) \<Rightarrow>
    (bool \<times> pod option \<times> go_error option) outcome \<Rightarrow> entry list \<Rightarrow> bool" for n C where
  stopped: "pod_stopped n (name_pod n) C (err \<noteq> None) t \<Longrightarrow> pod_run n C (Ret (False, p, err)) t"
| panicked: "IsNotFound e \<Longrightarrow> C Panic t \<Longrightarrow> pod_run n C Panic (OnPod (DoGet n (Some e) p) # t)"
| seen: "pod_seen n (name_pod n) C pod t \<Longrightarrow> r =
    (if pod_Phase pod = PodSucceeded then (True, Some pod, None)
     else if pod_Phase pod = PodFailed then
       (True, Some pod, Some (Errorf ''pod %s failed'' [AStr (m_Name (pod_meta pod))]))
     else (False, Some pod, None)) \<Longrightarrow> pod_run n C (Ret r) t"

inductive pod_stage :: "nsname \<Rightarrow> ((go_error + pod) outcome \<Rightarrow> entry list \<Rightarrow> bool) \<Rightarrow>
    ((bool \<times> pod option \<times> go_error option) + pod) outcome \<Rightarrow> entry list \<Rightarrow> bool" for n C where
  "pod_stopped n (name_pod n) C (err \<noteq> None) t \<Longrightarrow> pod_stage n C (Ret (Inl (False, p, err))) t"
| "IsNotFound e \<Longrightarrow> C Panic t \<Longrightarrow> pod_stage n C Panic (OnPod (DoGet n (Some e) p) # t)"
| "pod_seen n (name_pod n) C pod t \<Longrightarrow> pod_stage n C (Ret (Inr pod)) t"

inductive_cases pod_stage_cases: "pod_stage n C r t"

lemma ReconcilePod_run:
  assumes "tspec create C"
  shows "tspec (ReconcilePod c n create) (pod_run n C)"
  unfolding ReconcilePod_def name_pod_def [symmetric]
proof (rule tspec_bindR [where R = "pod_stage n C"], goal_cases)
  case 1
  show ?case
    by (intro tspec_intros tspec_bind [OF assms])
      (auto simp: Let_def intro!: tspec_intros pod_stage.intros intro: pod_stopped.intros pod_seen.intros)
next
  case (2 r t)
  then show ?case by (auto elim!: pod_stage_cases intro: pod_run.intros)
next
  case (3 pod t)
  then show ?case by (auto elim!: pod_stage_cases intro!: tspec_intros intro: pod_run.seen)
next
  case (4 t)
  then show ?case by (auto elim!: pod_stage_cases intro: pod_run.intros)
qed


lemma pod_gone_pods: "pod_gone n t \<Longrightarrow> y \<in> set t \<Longrightarrow> \<exists>v. y = OnPod v \<and> (\<forall>p e. v \<noteq> DoCreate p e)"
  by (auto elim!: pod_gone.cases)

lemma idle_run_pods: "idle_run n o1 t \<Longrightarrow> y \<in> set t \<Longrightarrow> \<exists>v. y = OnPod v \<and> (\<forall>p e. v \<noteq> DoCreate p e)"
  by (auto elim!: idle_run.cases dest: pod_gone_pods)

lemma idle_run_done: "idle_run n (Ret (True, e)) t \<Longrightarrow> e = None \<and> pod_gone n t"
  by (auto elim: idle_run.cases)

lemma idle_run_no_panic [simp]: "\<not> idle_run n Panic t"
  by (auto elim: idle_run.cases)

text \<open>The contract between a controller and the jobs it runs.\<close>
locale job_runner =
  fixes run :: "'w job_request \<Rightarrow> ('w, bool \<times> go_error option) prog"
    and own :: "objmeta \<Rightarrow> nsname \<Rightarrow> pod \<Rightarrow> pod"
  assumes run_idle: "\<not> jq_ShouldRun q \<Longrightarrow> tspec (run q) (idle_run (jq_PodName q))"
    and run_job: "\<lbrakk>jq_ShouldRun q; jq_Name q \<noteq> []; tspec (jq_Create q) C;
      \<And>pod. tspec (jq_OnCompleted q pod) (D pod)\<rbrakk> \<Longrightarrow>
      tspec (run q) (job_run (jq_PodName q) (own (jq_Owner q) (jq_PodName q)) (jq_OwnerEvent q) C D)"
    and own_name: "m_Name (pod_meta (own o1 n p)) = nn_Name n"
    and own_namespace: "m_Namespace (pod_meta (own o1 n p)) = nn_Namespace n"
    and own_policy: "p_RestartPolicy (pod_spec (own o1 n p)) = RestartPolicyNever"
begin

text \<open>A job whose completion never reports being done is not done itself: it has to be called
  again, with \<open>ShouldRun\<close> false, to be done.\<close>
lemma run_not_done:
  assumes "jq_ShouldRun q" "jq_Name q \<noteq> []" "tspec (jq_Create q) C"
    "\<And>pod. tspec (jq_OnCompleted q pod) (D pod)"
    and "\<And>pod t. \<not> D pod (Ret (True, None)) t"
  shows "tspec (run q) (\<lambda>r t. r \<noteq> Ret (True, None))"
proof (rule tspec_mono [OF run_job [OF assms(1-4)]])
  fix r t
  assume "job_run (jq_PodName q) (own (jq_Owner q) (jq_PodName q)) (jq_OwnerEvent q) C D r t"
  then show "r \<noteq> Ret (True, None)" using assms(5) by (cases rule: job_run.cases) auto
qed

text \<open>Where an entry of the trace can come from.\<close>
lemma run_entries:
  assumes "jq_ShouldRun q" "jq_Name q \<noteq> []" "tspec (jq_Create q) C"
    "\<And>pod. tspec (jq_OnCompleted q pod) (D pod)"
  shows "tspec (run q) (\<lambda>r t. \<forall>x \<in> set t.
      (\<exists>v. x = OnPod v) \<or> (\<exists>ty rs m. x = jq_OwnerEvent q ty rs m) \<or> (\<exists>r u. C r u \<and> x \<in> set u)
      \<or> (\<exists>pod r u. D pod r u \<and> x \<in> set u \<and> pod_Phase pod = PodSucceeded
           \<and> OnPod (DoGet (jq_PodName q) None pod) \<in> set t))"
proof (rule tspec_mono [OF run_job [OF assms]], intro ballI)
  fix r t x
  let ?n = "jq_PodName q"
  assume run: "job_run ?n (own (jq_Owner q) ?n) (jq_OwnerEvent q) C D r t" and x: "x \<in> set t"
  have seen: "(\<exists>v. x = OnPod v) \<or> (\<exists>r u. C r u \<and> x \<in> set u)"
    if "pod_seen ?n (own (jq_Owner q) ?n) C pod t'" "x \<in> set t'" for pod t'
    using that by (cases rule: pod_seen.cases) auto
  have seen': "OnPod (DoGet ?n None pod) \<in> set t'"
    if "pod_seen ?n (own (jq_Owner q) ?n) C pod t'" for pod t'
    using that by (cases rule: pod_seen.cases) auto
  have unfinished: "(\<exists>v. x = OnPod v) \<or> (\<exists>r u. C r u \<and> x \<in> set u)"
    if "pod_stopped ?n (own (jq_Owner q) ?n) C f t'" "x \<in> set t'" for f t'
    using that by (cases rule: pod_stopped.cases) auto
  from run show "(\<exists>v. x = OnPod v) \<or> (\<exists>ty rs m. x = jq_OwnerEvent q ty rs m)
      \<or> (\<exists>r u. C r u \<and> x \<in> set u)
      \<or> (\<exists>pod r u. D pod r u \<and> x \<in> set u \<and> pod_Phase pod = PodSucceeded \<and> OnPod (DoGet ?n None pod) \<in> set t)"
  proof (cases rule: job_run.cases)
    case (stopped err)
    then show ?thesis using x unfinished by blast
  qed (use x seen seen' in \<open>fastforce+\<close>)
qed

text \<open>A panic comes from one of the callbacks.\<close>
lemma run_panic:
  assumes "jq_ShouldRun q" "jq_Name q \<noteq> []" "tspec (jq_Create q) C"
    "\<And>pod. tspec (jq_OnCompleted q pod) (D pod)"
  shows "tspec (run q) (\<lambda>r t. r = Panic \<longrightarrow> (\<exists>u. C Panic u) \<or> (\<exists>pod u. D pod Panic u))"
proof (rule tspec_mono [OF run_job [OF assms]], intro impI)
  fix r t
  assume "job_run (jq_PodName q) (own (jq_Owner q) (jq_PodName q)) (jq_OwnerEvent q) C D r t" "r = Panic"
  then show "(\<exists>u. C Panic u) \<or> (\<exists>pod u. D pod Panic u)" by (cases rule: job_run.cases) auto
qed

text \<open>A pod is created only when there was none, and it is the requested pod, run once.\<close>
lemma run_creates:
  assumes "jq_ShouldRun q" "jq_Name q \<noteq> []" "tspec (jq_Create q) C"
    "\<And>pod. tspec (jq_OnCompleted q pod) (D pod)"
    and C: "\<And>r t p e. C r t \<Longrightarrow> OnPod (DoCreate p e) \<notin> set t"
    and D: "\<And>pod r t p e. D pod r t \<Longrightarrow> OnPod (DoCreate p e) \<notin> set t"
    and ev: "\<And>ty r m p e. jq_OwnerEvent q ty r m \<noteq> OnPod (DoCreate p e)"
  shows "tspec (run q) (\<lambda>r t. \<forall>p e. OnPod (DoCreate p e) \<in> set t \<longrightarrow>
    m_Name (pod_meta p) = nn_Name (jq_PodName q) \<and> m_Namespace (pod_meta p) = nn_Namespace (jq_PodName q)
    \<and> p_RestartPolicy (pod_spec p) = RestartPolicyNever
    \<and> (\<exists>e' p' u. IsNotFound e' \<and> t = OnPod (DoGet (jq_PodName q) (Some e') p') # u))"
proof (rule tspec_mono [OF run_job [OF assms(1-4)]], intro allI impI)
  fix r t p e
  let ?n = "jq_PodName q"
  assume run: "job_run ?n (own (jq_Owner q) ?n) (jq_OwnerEvent q) C D r t"
    and p: "OnPod (DoCreate p e) \<in> set t"
  have seen: "\<exists>x e' p' u. p = own (jq_Owner q) ?n x \<and> IsNotFound e' \<and> t' = OnPod (DoGet ?n (Some e') p') # u"
    if "pod_seen ?n (own (jq_Owner q) ?n) C pod t'" "OnPod (DoCreate p e) \<in> set t'" for pod t'
    using that by (cases rule: pod_seen.cases) (auto dest: C)
  have stopped: "\<exists>x e' p' u. p = own (jq_Owner q) ?n x \<and> IsNotFound e' \<and> t' = OnPod (DoGet ?n (Some e') p') # u"
    if "pod_stopped ?n (own (jq_Owner q) ?n) C f t'" "OnPod (DoCreate p e) \<in> set t'" for f t'
    using that by (cases rule: pod_stopped.cases) (auto dest: C)
  from run p have "\<exists>x e' p' u. p = own (jq_Owner q) ?n x \<and> IsNotFound e' \<and> t = OnPod (DoGet ?n (Some e') p') # u"
    by (cases rule: job_run.cases)
       (fastforce dest: C D seen stopped simp: ev [symmetric])+
  then show "m_Name (pod_meta p) = nn_Name ?n \<and> m_Namespace (pod_meta p) = nn_Namespace ?n
    \<and> p_RestartPolicy (pod_spec p) = RestartPolicyNever
    \<and> (\<exists>e' p' u. IsNotFound e' \<and> t = OnPod (DoGet ?n (Some e') p') # u)"
    by (auto simp: own_name own_namespace own_policy)
qed

end

lemma own_pod_simps [simp]:
  "p_RestartPolicy (pod_spec (own_pod jr o1 p)) = RestartPolicyNever"
  "pod_Phase (own_pod jr o1 p) = pod_Phase p"
  by (simp_all add: own_pod_def Let_def)

lemma name_pod_simps [simp]:
  "m_Name (pod_meta (name_pod n p)) = nn_Name n"
  "m_Namespace (pod_meta (name_pod n p)) = nn_Namespace n"
  "m_Annotations (pod_meta (name_pod n p)) = m_Annotations (pod_meta p)"
  "pod_spec (name_pod n p) = pod_spec p"
  by (simp_all add: name_pod_def)


text \<open>Creating through \<^const>\<open>own_pod\<close>, in terms of creating without it.\<close>
inductive owned :: "(pod \<Rightarrow> pod) \<Rightarrow> ((go_error + pod) outcome \<Rightarrow> entry list \<Rightarrow> bool) \<Rightarrow>
    (go_error + pod) outcome \<Rightarrow> entry list \<Rightarrow> bool" for own C where
  "C (Ret (Inl e)) t \<Longrightarrow> owned own C (Ret (Inl e)) t"
| "C Panic t \<Longrightarrow> owned own C Panic t"
| "C (Ret (Inr p)) t \<Longrightarrow> owned own C (Ret (Inr (own p))) t"

inductive_cases owned_cases [elim!]:
  "owned own C (Ret (Inl e)) t" "owned own C Panic t" "owned own C (Ret (Inr p)) t"

lemma pod_seen_owned:
  assumes "pod_seen n (name_pod n) (owned own C) pod t"
  shows "pod_seen n (\<lambda>p. name_pod n (own p)) C pod t"
  using assms
  by cases (auto intro: pod_seen.intros pod_seen.raced [where own = "\<lambda>p. name_pod n (own p)"])

lemma pod_stopped_owned:
  assumes "pod_stopped n (name_pod n) (owned own C) f t"
  shows "pod_stopped n (\<lambda>p. name_pod n (own p)) C f t"
  using assms
  by cases (auto intro: pod_stopped.intros pod_stopped.intros [where own = "\<lambda>p. name_pod n (own p)"])

lemma DeleteResource_run:
  "tspec (DeleteResource (cl_pod c) OnPod pod) (\<lambda>r t. \<exists>e. t = [OnPod (DoDelete pod e)] \<and>
     r = Ret (case e of None \<Rightarrow> (False, None)
             | Some e' \<Rightarrow> if IsNotFound e' then (True, None) else (False, Some e')))"
  unfolding DeleteResource_def by (intro tspec_intros) auto

lemma DeletePod_run: "tspec (DeletePod c n) (idle_run n)"
  unfolding DeletePod_def DeleteResource_def
  by (intro tspec_intros) (auto intro: idle_run.intros pod_gone.intros)

lemma name_upper_Ret: "n \<noteq> [] \<Longrightarrow> \<exists>u. name_upper n = Ret u"
  by (cases n) (auto simp: name_upper_def)

lemma ReconcileJob_run:
  assumes "jq_ShouldRun q" "jq_Name q \<noteq> []"
    and C: "tspec (jq_Create q) C" and D: "\<And>pod. tspec (jq_OnCompleted q pod) (D pod)"
  shows "tspec (ReconcileJob c jr q)
    (job_run (jq_PodName q) (\<lambda>p. name_pod (jq_PodName q) (own_pod jr (jq_Owner q) p)) (jq_OwnerEvent q) C D)"
proof -
  let ?n = "jq_PodName q" and ?own = "own_pod jr (jq_Owner q)"
  from name_upper_Ret [OF assms(2)] obtain up where up: "name_upper (jq_Name q) = Ret up" ..
  have create: "tspec (bind (jq_Create q) (\<lambda>created. case created of Inl e \<Rightarrow> ret (Inl e)
      | Inr pod \<Rightarrow> ret (Inr (?own pod)))) (owned ?own C)"
    by (rule tspec_bind [OF C]) (auto intro!: tspec_intros owned.intros split: sum.splits)
  show ?thesis
    unfolding ReconcileJob_def up
  proof (simp add: assms(1), rule tspec_bind [OF ReconcilePod_run [OF create]], goal_cases)
    case (1 a t)
    then show ?case
    proof (cases rule: pod_run.cases)
      case (stopped err p)
      have "job_run ?n (\<lambda>p. name_pod ?n (?own p)) (jq_OwnerEvent q) C D
          (Ret (False, wrap ''%s'' [AStr (jq_Name q)] err)) t"
        using pod_stopped_owned [OF stopped(2)] by (intro job_run.stopped) simp
      with stopped(1) show ?thesis by (auto simp: Let_def intro!: tspec_ret)
    next
      case (seen pod)
      note s = pod_seen_owned [OF seen(1)]
      consider "pod_Phase pod = PodSucceeded" | "pod_Phase pod = PodFailed"
        | "pod_Phase pod \<noteq> PodSucceeded" "pod_Phase pod \<noteq> PodFailed" by blast
      then show ?thesis
      proof cases
        case 1
        with seen have a: "a = (True, Some pod, None)" by simp
        show ?thesis unfolding a
          by (simp add: Let_def, rule tspec_bind_emit, rule tspec_bind [OF D])
             (auto intro!: tspec_intros tspec_mono [OF DeleteResource_run] job_run.completed [OF s 1]
               job_run.completion_stopped [OF s 1] job_run.completion_panic [OF s 1])
      next
        case 2
        with seen have a: "a = (True, Some pod, Some (Errorf ''pod %s failed'' [AStr (m_Name (pod_meta pod))]))"
          by simp
        show ?thesis unfolding a
          by (auto simp: Let_def intro!: tspec_intros job_run.failed [OF s 2])
      next
        case 3
        with seen have a: "a = (False, Some pod, None)" by simp
        show ?thesis unfolding a by (auto simp: Let_def intro!: tspec_intros job_run.pending [OF s 3])
      qed
    qed
  next
    case (2 t)
    then show ?case by (cases rule: pod_run.cases) (auto intro: job_run.create_panic)
  qed
qed


interpretation job: job_runner "ReconcileJob c jr" "\<lambda>owner n p. name_pod n (own_pod jr owner p)"
  for c jr
proof
  fix q
  show "\<not> jq_ShouldRun q \<Longrightarrow> tspec (ReconcileJob c jr q) (idle_run (jq_PodName q))"
    by (simp add: ReconcileJob_def DeletePod_run)
qed (simp_all add: ReconcileJob_run)

section \<open>Properties\<close>

text \<open>
  C9. One call of \<^const>\<open>ReconcileJob\<close> for a job that should run makes one of the runs of its
  specification, whatever the API server answers: the pod is created only if there was none, the
  completion callback runs only when the pod is seen to have succeeded, and the pod is deleted only
  after the callback reported success.
\<close>
theorem ReconcileJob_lifecycle:
  assumes "jq_ShouldRun q" and "jq_Name q \<noteq> []"
    and "tspec (jq_Create q) C" and "\<And>pod. tspec (jq_OnCompleted q pod) (D pod)"
  shows "job_run (jq_PodName q) (\<lambda>p. name_pod (jq_PodName q) (own_pod jr (jq_Owner q) p)) (jq_OwnerEvent q) C D
    (run_result (ReconcileJob c jr q) w) (run_trace (ReconcileJob c jr q) w)"
  by (rule tspec_run [OF ReconcileJob_run [OF assms]])

definition example_job :: "'w job_request" where
  "example_job = \<lparr>jq_Name = ''job'', jq_PodName = \<lparr>nn_Name = ''pod'', nn_Namespace = ''ns''\<rparr>, jq_Owner = zero_meta,
     jq_OwnerEvent = PVCEvent zero_pvc, jq_ShouldRun = True, jq_Create = ret (Inr zero_pod),
     jq_OnCompleted = (\<lambda>_. ret (True, None))\<rparr>"

theorem ReconcileJob_lifecycle_witness:
  "\<forall>(c::unit client) jr. job_run \<lparr>nn_Name = ''pod'', nn_Namespace = ''ns''\<rparr>
     (\<lambda>p. name_pod \<lparr>nn_Name = ''pod'', nn_Namespace = ''ns''\<rparr> (own_pod jr zero_meta p)) (PVCEvent zero_pvc)
     (\<lambda>r t. r = Ret (Inr zero_pod) \<and> t = []) (\<lambda>_ r t. r = Ret (True, None) \<and> t = [])
     (run_result (ReconcileJob c jr example_job) ()) (run_trace (ReconcileJob c jr example_job) ())"
proof (intro allI)
  fix c :: "unit client" and jr
  have q: "jq_ShouldRun (example_job :: unit job_request)" "jq_Name (example_job :: unit job_request) \<noteq> []"
    "tspec (jq_Create (example_job :: unit job_request)) (\<lambda>r t. r = Ret (Inr zero_pod) \<and> t = [])"
    "tspec (jq_OnCompleted (example_job :: unit job_request) pod) (\<lambda>r t. r = Ret (True, None) \<and> t = [])" for pod
    by (auto simp: example_job_def intro: tspec_ret)
  from ReconcileJob_lifecycle [OF q, of jr c "()"]
  show "job_run \<lparr>nn_Name = ''pod'', nn_Namespace = ''ns''\<rparr>
     (\<lambda>p. name_pod \<lparr>nn_Name = ''pod'', nn_Namespace = ''ns''\<rparr> (own_pod jr zero_meta p)) (PVCEvent zero_pvc)
     (\<lambda>r t. r = Ret (Inr zero_pod) \<and> t = []) (\<lambda>_ r t. r = Ret (True, None) \<and> t = [])
     (run_result (ReconcileJob c jr example_job) ()) (run_trace (ReconcileJob c jr example_job) ())"
    by (simp add: example_job_def)
qed

text \<open>
  C39. Every pod a job creates is mapped back to the job's owner: the event handler that watches the
  pods of the manager's namespace requests a reconciliation of exactly that owner, so that progress of
  the pod is noticed.
\<close>
theorem job_pod_maps_to_owner:
  assumes "m_Name owner \<noteq> []" and "jr_AnnotationOwnerNamespace jr \<noteq> jr_AnnotationOwnerName jr"
    and "jr_AnnotationOwnerNamespace jr = [] \<or> m_Namespace owner \<noteq> []"
    and "mlookup (m_Annotations (pod_meta p)) [] = None"
  shows "PodToRequestMapper (nn_Namespace n) (jr_AnnotationOwnerName jr) (jr_AnnotationOwnerNamespace jr)
      (pod_meta (name_pod n (own_pod jr owner p))) =
    [\<lparr>nn_Name = m_Name owner,
      nn_Namespace = (if jr_AnnotationOwnerNamespace jr = [] then [] else m_Namespace owner)\<rparr>]"
proof -
  obtain f where f: "mnonnil (m_Annotations (pod_meta p)) = Some f" using mnonnil_ex by blast
  have "mlookup (Some f) [] = None" using assms(4) f by (metis mnonnil_simps(3))
  then have "f [] = None" by (simp add: mlookup_def)
  with f assms(1-3) show ?thesis
    by (auto simp: PodToRequestMapper_def own_pod_def Let_def mput_def mget_Some)
qed

theorem job_pod_maps_to_owner_witness:
  "PodToRequestMapper ''ns'' ''owner'' [] (pod_meta (name_pod \<lparr>nn_Name = ''pod'', nn_Namespace = ''ns''\<rparr>
      (own_pod \<lparr>jr_AnnotationOwnerName = ''owner'', jr_AnnotationOwnerNamespace = []\<rparr>
        (zero_meta\<lparr>m_Name := ''pv1''\<rparr>) zero_pod))) = [\<lparr>nn_Name = ''pv1'', nn_Namespace = []\<rparr>]"
  using job_pod_maps_to_owner [of "zero_meta\<lparr>m_Name := ''pv1''\<rparr>"
      "\<lparr>jr_AnnotationOwnerName = ''owner'', jr_AnnotationOwnerNamespace = []\<rparr>" zero_pod
      "\<lparr>nn_Name = ''pod'', nn_Namespace = ''ns''\<rparr>"]
  by (simp add: zero_pod_def zero_meta_def mlookup_def)

end
