(* ===== verification/PVCController.thy ===== *)
theory PVCController
  imports Registry Jobs
begin

text \<open>
  \<^verbatim>\<open>internal/controllers/persistentvolumeclaim_controller.go\<close>: provisioning a volume for a claim, and
  cleaning up when the claim is deleted.

  The reconciler's interface \<^verbatim>\<open>Provisioners\<close> is its \<open>Get\<close> function, as the registry stands during the
  reconciliation.  The result \<^verbatim>\<open>ctrl.Result{}\<close> is always empty, so a handler gives back its error only.
  Log calls are left out; events are entries of the trace.
\<close>

definition annPVCName :: string where
  "annPVCName = ''k8storagex.mgoltzsche.github.com/pvc-name''"
definition annPVCNamespace :: string where
  "annPVCNamespace = ''k8storagex.mgoltzsche.github.com/pvc-namespace''"
definition annStorageProvisioner :: string where
  "annStorageProvisioner = ''volume.beta.kubernetes.io/storage-provisioner''"
definition annStorageProvisionerSpec :: string where
  "annStorageProvisionerSpec = ''k8storagex.mgoltzsche.github.com/provisioner-spec''"
definition annProvisionedBy :: string where
  "annProvisionedBy = ''pv.kubernetes.io/provisioned-by''"
definition annSelectedNode :: string where
  "annSelectedNode = ''volume.kubernetes.io/selected-node''"
definition finalizer :: string where
  "finalizer = ''k8storagex.mgoltzsche.github.com/finalizer''"
definition finalizerPVCProtection :: string where
  "finalizerPVCProtection = ''kubernetes.io/pvc-protection''"
definition KeyNode :: string where
  "KeyNode = ''kubernetes.io/hostname''"

record pvc_reconciler =
  cr_ManagerNamespace :: string
  cr_Provisioners :: "string \<Rightarrow> storage_provisioner option"

definition pvc_jobs :: job_reconciler where
  "pvc_jobs = \<lparr>jr_AnnotationOwnerName = annPVCName, jr_AnnotationOwnerNamespace = annPVCNamespace\<rparr>"

text \<open>\<^verbatim>\<open>recorder.Eventf(claim, type, reason, format)\<close> without further arguments.\<close>
definition claim_event :: "pvc \<Rightarrow> event_type \<Rightarrow> string \<Rightarrow> string \<Rightarrow> ('w, unit) prog" where
  "claim_event claim ty reason fmt = emit (PVCEvent claim ty reason (Sprintf fmt []))"

section \<open>Helpers\<close>

definition resolveProvisioner :: "objmeta \<Rightarrow> (string \<Rightarrow> storage_provisioner option) \<Rightarrow>
    storage_provisioner option" where
  "resolveProvisioner obj provisioners =
     (case m_Annotations obj of
        None \<Rightarrow> None
      | Some a \<Rightarrow> provisioners (mget (Some a) annStorageProvisioner))"

definition pvNameForPVC :: "pvc \<Rightarrow> string" where
  "pvNameForPVC claim = Sprintf ''pvc-%s'' [AStr (m_UID (pvc_meta claim))]"

definition persistentVolumeClaimClass :: "pvc \<Rightarrow> string" where
  "persistentVolumeClaimClass claim =
     (case mlookup (m_Annotations (pvc_meta claim)) BetaStorageClassAnnotation of
        Some class \<Rightarrow> class
      | None \<Rightarrow> (case pvc_StorageClassName claim of Some n \<Rightarrow> n | None \<Rightarrow> []))"

definition persistentVolumeForClaim :: "pvc \<Rightarrow> storage_provisioner \<Rightarrow> string \<Rightarrow> pv" where
  "persistentVolumeForClaim claim provisioner provisionerJSON =
     (let spec0 = ps_PersistentVolumeTemplate (sp_spec provisioner);
          spec1 = (if s_Capacity spec0 = None then spec0\<lparr>s_Capacity := pvc_Requests claim\<rparr> else spec0);
          spec2 = (case pvc_StorageClassName claim of
                     Some n \<Rightarrow> spec1\<lparr>s_StorageClassName := n\<rparr>
                   | None \<Rightarrow> spec1);
          meta = pvc_meta claim
      in zero_pv\<lparr>
           pv_meta := zero_meta\<lparr>
             m_Name := pvNameForPVC claim,
             m_Annotations := Some [annStorageProvisioner \<mapsto> ps_Name (sp_spec provisioner),
               annStorageProvisionerSpec \<mapsto> provisionerJSON,
               annProvisionedBy \<mapsto> ''k8storagex''],
             m_Finalizers := [finalizer]\<rparr>,
           pv_spec := spec2\<lparr>s_ClaimRef := Some \<lparr>r_APIVersion = ''v1'', r_Kind = ''PersistentVolumeClaim'',
             r_Name = m_Name meta, r_Namespace = m_Namespace meta, r_UID = m_UID meta,
             r_ResourceVersion = m_ResourceVersion meta\<rparr>\<rparr>\<rparr>)"

definition pvc_deletePod :: "'w client \<Rightarrow> pvc_reconciler \<Rightarrow> string \<Rightarrow> ('w, bool \<times> go_error option) prog" where
  "pvc_deletePod c r name = DeletePod c \<lparr>nn_Name = name, nn_Namespace = cr_ManagerNamespace r\<rparr>"

definition getStorageClass :: "'w client \<Rightarrow> string \<Rightarrow> ('w, go_error option \<times> storageclass) prog" where
  "getStorageClass c name = k_get (cl_sc c) OnSC \<lparr>nn_Name = name, nn_Namespace = []\<rparr> zero_sc"

section \<open>shouldProvision\<close>

definition shouldProvision :: "'w client \<Rightarrow> pvc \<Rightarrow> storage_provisioner \<Rightarrow>
    ('w, bool \<times> go_error option) prog" where
  "shouldProvision c claim provisioner =
     (if pvc_VolumeName claim \<noteq> [] \<or> pvc_StorageClassName claim = None then ret (False, None)
      else
        bind (getStorageClass c (persistentVolumeClaimClass claim)) (\<lambda>(err, class).
        case err of
          Some e \<Rightarrow>
            if IsNotFound e then
              bind (claim_event claim Warning ''StorageClassNotFound'' (error_string e)) (\<lambda>_. ret (False, None))
            else ret (False, Some e)
        | None \<Rightarrow>
            (case s_VolumeMode (ps_PersistentVolumeTemplate (sp_spec provisioner)) of
               None \<Rightarrow> panic
             | Some pvMode \<Rightarrow>
                 if pvc_VolumeMode claim \<noteq> Some pvMode then
                   (let mode = (case pvc_VolumeMode claim of None \<Rightarrow> ''nil'' | Some m \<Rightarrow> Quote m)
                    in bind (emit (PVCEvent claim Warning ''InvalidVolumeMode''
                                (Sprintf ''Invalid volume mode %s, expected %s'' [AStr mode, AStr pvMode])))
                         (\<lambda>_. ret (False, None)))
                 else if sc_VolumeBindingMode class = Some WaitForFirstConsumer then
                   (case mlookup (m_Annotations (pvc_meta claim)) annSelectedNode of
                      Some selectedNode \<Rightarrow> ret (selectedNode \<noteq> [], None)
                    | None \<Rightarrow> ret (False, None))
                 else ret (True, None))))"


section \<open>provision and deprovision\<close>

definition pvc_deprovision :: "'w client \<Rightarrow> pvc \<Rightarrow> ('w, bool \<times> go_error option) prog" where
  "pvc_deprovision c claim =
     bind (k_get (cl_pv c) OnPV \<lparr>nn_Name = pvNameForPVC claim, nn_Namespace = []\<rparr> zero_pv) (\<lambda>(err, pv).
     case err of
       Some e \<Rightarrow> if IsNotFound e then ret (True, None) else ret (False, Some e)
     | None \<Rightarrow>
         if s_ReclaimPolicy (pv_spec pv) \<noteq> ReclaimDelete then ret (True, None)
         else
           bind (k_delete (cl_pv c) OnPV pv) (\<lambda>err.
           case err of
             None \<Rightarrow> ret (True, None)
           | Some e \<Rightarrow> if \<not> IsNotFound e then ret (False, Some e) else ret (True, None)))"

text \<open>
  The callback that creates the provisioner pod.  The placeholders and the pod's environment are
  written into the provisioner itself, which is then stored on the pod; the error of
  \<^verbatim>\<open>StorageProvisionerToJSON\<close> is ignored.
\<close>
definition provision_create :: "extlib \<Rightarrow> pvc_reconciler \<Rightarrow> pvc \<Rightarrow> storage_provisioner \<Rightarrow> envvar list \<Rightarrow>
    ('w, go_error + pod) prog" where
  "provision_create x r claim provisionerSpec env =
     (let nodeName = mget (m_Annotations (pvc_meta claim)) annSelectedNode
      in case StorageRootPathForNode nodeName (ps_Nodes (sp_spec provisionerSpec)) of
           Inl e \<Rightarrow> ret (Inl (Wrapped ''invalid storageprovisioner'' [] e))
         | Inr nodePath \<Rightarrow>
             (case SubstituteProvisionerPlaceholders x provisionerSpec
                \<lparr>pp_NodeName = nodeName, pp_NodePath = nodePath,
                  pp_PersistentVolumeName = pvNameForPVC claim,
                  pp_PersistentVolumeClaim = \<lparr>nn_Name = m_Name (pvc_meta claim),
                    nn_Namespace = m_Namespace (pvc_meta claim)\<rparr>\<rparr> of
                (Some e, _) \<Rightarrow> ret (Inl e)
              | (None, spec1) \<Rightarrow>
                  bind (lift (ResourceName (pvNameForPVC claim) provisioner_name)) (\<lambda>podName.
                  case NewProvisionerPod
                    \<lparr>so_PodName = \<lparr>nn_Name = podName, nn_Namespace = cr_ManagerNamespace r\<rparr>,
                      so_ContainerName = provisioner_name,
                      so_SubstitutedProvisioner = spec1,
                      so_Container = cs_Provisioner (ps_Containers (sp_spec spec1)),
                      so_Env = env\<rparr> of
                    Inl e \<Rightarrow> ret (Inl e)
                  | Inr (pod, spec2) \<Rightarrow>
                      (let meta = CopyAnnotations (pvc_meta claim) (pod_meta pod) (ps_Env (sp_spec spec2));
                           json = fst (StorageProvisionerToJSON x spec2);
                           pod' = pod\<lparr>pod_meta := meta\<lparr>m_Annotations :=
                             mput (m_Annotations meta) annStorageProvisionerSpec json\<rparr>\<rparr>
                       in bind (emit (PVCEvent claim Normal ''Provisioning'' ''Provisioning PersistentVolume''))
                            (\<lambda>_. ret (Inr pod'))))))"

text \<open>The volume created once the provisioner pod has succeeded.\<close>
definition provisioned_volume :: "pvc \<Rightarrow> pod \<Rightarrow> storage_provisioner \<Rightarrow> pv" where
  "provisioned_volume claim pod spec =
     (let pv = persistentVolumeForClaim claim spec
            (mget (m_Annotations (pod_meta pod)) annStorageProvisionerSpec)
      in pv\<lparr>pv_meta := CopyAnnotations (pod_meta pod) (pv_meta pv) (ps_Env (sp_spec spec))\<rparr>)"

definition provision_completed :: "extlib \<Rightarrow> 'w client \<Rightarrow> pvc \<Rightarrow> pod \<Rightarrow>
    ('w, bool \<times> go_error option) prog" where
  "provision_completed x c claim pod =
     (case StorageProvisionerFromJSON x (mget (m_Annotations (pod_meta pod)) annStorageProvisionerSpec) of
        (spec, Some e) \<Rightarrow>
          ret (True, Some (Wrapped ''invalid/missing provisioner pod annotation %s''
                             [AStr annStorageProvisionerSpec] e))
      | (spec, None) \<Rightarrow>
          bind (k_create (cl_pv c) OnPV (provisioned_volume claim pod spec)) (\<lambda>(err, pv).
          case err of
            Some e \<Rightarrow> ret (False, Some e)
          | None \<Rightarrow>
              bind (claim_event claim Normal ''Provisioned''
                      (Sprintf ''Provisioned PersistentVolume %s'' [AStr (pvNameForPVC claim)]))
                (\<lambda>_. ret (True, None))))"

definition provision_job :: "extlib \<Rightarrow> 'w client \<Rightarrow> pvc_reconciler \<Rightarrow> pvc \<Rightarrow> storage_provisioner \<Rightarrow>
    envvar list \<Rightarrow> string \<Rightarrow> bool \<Rightarrow> 'w job_request" where
  "provision_job x c r claim provisionerSpec env podName shouldRun =
     \<lparr>jq_Name = provisioner_name,
       jq_PodName = \<lparr>nn_Name = podName, nn_Namespace = cr_ManagerNamespace r\<rparr>,
       jq_Owner = pvc_meta claim,
       jq_OwnerEvent = PVCEvent claim,
       jq_ShouldRun = shouldRun,
       jq_Create = provision_create x r claim provisionerSpec env,
       jq_OnCompleted = provision_completed x c claim\<rparr>"

definition provision :: "extlib \<Rightarrow> 'w client \<Rightarrow> pvc_reconciler \<Rightarrow> pvc \<Rightarrow> storage_provisioner \<Rightarrow>
    ('w, bool \<times> go_error option) prog" where
  "provision x c r claim provisionerSpec =
     bind (k_get (cl_pv c) OnPV \<lparr>nn_Name = pvNameForPVC claim, nn_Namespace = []\<rparr> zero_pv) (\<lambda>(err, _).
     if err \<noteq> None \<and> \<not> IsNotFound (the err) then ret (False, err)
     else
       (let pvExists = (err = None);
            (env, errAnn) = AnnotationsToEnv (pvc_meta claim) (ps_Env (sp_spec provisionerSpec));
            nodeName = mget (m_Annotations (pvc_meta claim)) annSelectedNode
        in bind (if errAnn \<noteq> None
                 then (case err of
                         None \<Rightarrow> panic
                       | Some e \<Rightarrow> claim_event claim Warning ''AnnotationMissing'' (error_string e))
                 else ret ()) (\<lambda>_.
           bind (lift (ResourceName (pvNameForPVC claim) provisioner_name)) (\<lambda>podName.
           bind (ReconcileJob c pvc_jobs
                  (provision_job x c r claim provisionerSpec env podName
                     (\<not> pvExists \<and> nodeName \<noteq> [] \<and> errAnn = None))) (\<lambda>(done, err1).
           if done \<and> err1 \<noteq> None then
             bind (claim_event claim Warning ''ProvisionerFailed''
                     (Sprintf ''Failed to provision PersistentVolume %s: %v''
                        [AStr (pvNameForPVC claim), AStr (error_string (the err1))]))
               (\<lambda>_. ret (done, err1))
           else ret (done, err1))))))"

section \<open>Reconcile\<close>

definition pvc_with :: "pvc \<Rightarrow> string list \<Rightarrow> pvc" where
  "pvc_with claim fs = claim\<lparr>pvc_meta := (pvc_meta claim)\<lparr>m_Finalizers := fs\<rparr>\<rparr>"

text \<open>\<^verbatim>\<open>return ctrl.Result{}, r.Client.Status().Update(ctx, claim)\<close> after the finalizers were changed.\<close>
definition pvc_update_finalizers :: "'w client \<Rightarrow> pvc \<Rightarrow> string list \<Rightarrow> ('w, go_error option) prog" where
  "pvc_update_finalizers c claim fs =
     bind (k_status_update (cl_pvc c) OnPVC (pvc_with claim fs)) (\<lambda>(err, _). ret err)"

text \<open>The branch for a claim that is being deleted.\<close>
definition pvc_reconcile_deleted :: "'w client \<Rightarrow> pvc_reconciler \<Rightarrow> pvc \<Rightarrow> ('w, go_error option) prog" where
  "pvc_reconcile_deleted c r claim =
     (let fs = m_Finalizers (pvc_meta claim)
      in if HasString fs finalizerPVCProtection then
           (if mget (m_Annotations (pvc_meta claim)) AnnotationPersistentVolumeClaimNoProtection = Enabled
            then pvc_update_finalizers c claim (fst (RemoveString fs finalizerPVCProtection))
            else ret None)
         else if HasString fs finalizer then
           (if length fs \<noteq> 1 then ret None
            else
              bind (lift (ResourceName (pvNameForPVC claim) provisioner_name)) (\<lambda>podName.
              bind (pvc_deletePod c r podName) (\<lambda>(done, err).
              if err \<noteq> None \<or> \<not> done then ret err
              else
                bind (pvc_deprovision c claim) (\<lambda>(done, err).
                if err \<noteq> None \<or> \<not> done then ret err
                else pvc_update_finalizers c claim (fst (RemoveString fs finalizer))))))
         else ret None)"

definition pvc_Reconcile :: "extlib \<Rightarrow> 'w client \<Rightarrow> pvc_reconciler \<Rightarrow> nsname \<Rightarrow> ('w, go_error option) prog" where
  "pvc_Reconcile x c r req =
     bind (k_get (cl_pvc c) OnPVC req zero_pvc) (\<lambda>(err, claim).
     case err of
       Some e \<Rightarrow> if IsNotFound e then ret None else ret (Some e)
     | None \<Rightarrow>
         if m_DeletionTimestamp (pvc_meta claim) \<noteq> None then pvc_reconcile_deleted c r claim
         else
           (case resolveProvisioner (pvc_meta claim) (cr_Provisioners r) of
              None \<Rightarrow> ret None
            | Some provisionerSpec \<Rightarrow>
                bind (shouldProvision c claim provisionerSpec) (\<lambda>(should, err).
                if err \<noteq> None \<or> \<not> should then ret err
                else
                  (case AddString (m_Finalizers (pvc_meta claim)) finalizer of
                     (fs, added) \<Rightarrow>
                       if added then pvc_update_finalizers c claim fs
                       else bind (provision x c r claim provisionerSpec) (\<lambda>(done, err). ret err)))))"

section \<open>What each part may do\<close>

lemma finalizers_distinct [simp]:
  "finalizer \<noteq> finalizerPVCProtection" "finalizerPVCProtection \<noteq> finalizer"
  by (simp_all add: finalizer_def finalizerPVCProtection_def)

lemma ann_distinct [simp]:
  "annPVCName \<noteq> annPVCNamespace" "annPVCNamespace \<noteq> annPVCName"
  "annPVCName \<noteq> []" "annPVCNamespace \<noteq> []"
  "annStorageProvisionerSpec \<noteq> annPVCName" "annStorageProvisionerSpec \<noteq> annPVCNamespace"
  "annStorageProvisionerSpec \<noteq> annStorageProvisioner" "annStorageProvisionerSpec \<noteq> annProvisionedBy"
  by (simp_all add: annPVCName_def annPVCNamespace_def annStorageProvisionerSpec_def
      annStorageProvisioner_def annProvisionedBy_def)

lemma provisioner_name_simps [simp]: "provisioner_name \<noteq> []" "length provisioner_name = 11"
  by (simp_all add: provisioner_name_def)

definition provisioner_pod :: "pvc_reconciler \<Rightarrow> pvc \<Rightarrow> nsname \<Rightarrow> bool" where
  "provisioner_pod r claim n \<longleftrightarrow>
     ResourceName (pvNameForPVC claim) provisioner_name = Ret (nn_Name n)
     \<and> nn_Namespace n = cr_ManagerNamespace r"

text \<open>Whether a provisioner applies to a claim.\<close>
definition wanted :: "pvc \<Rightarrow> storage_provisioner \<Rightarrow> bool" where
  "wanted claim p \<longleftrightarrow> pvc_VolumeName claim = [] \<and> pvc_StorageClassName claim \<noteq> None
     \<and> s_VolumeMode (ps_PersistentVolumeTemplate (sp_spec p)) \<noteq> None
     \<and> pvc_VolumeMode claim = s_VolumeMode (ps_PersistentVolumeTemplate (sp_spec p))"

lemma shouldProvision_run:
  "tspec (shouldProvision c claim p) (\<lambda>r t.
     (\<forall>x \<in> set t. (\<exists>v. x = OnSC v \<and> verb_reads v) \<or> (\<exists>ty rs m. x = PVCEvent claim ty rs m))
     \<and> (r = Panic \<longrightarrow> s_VolumeMode (ps_PersistentVolumeTemplate (sp_spec p)) = None)
     \<and> (\<forall>b e. r = Ret (b, e) \<longrightarrow> b \<longrightarrow> wanted claim p \<and> e = None
          \<and> (\<exists>class. t = [OnSC (DoGet \<lparr>nn_Name = persistentVolumeClaimClass claim, nn_Namespace = []\<rparr> None class)]
               \<and> (sc_VolumeBindingMode class = Some WaitForFirstConsumer \<longrightarrow>
                    mget (m_Annotations (pvc_meta claim)) annSelectedNode \<noteq> []))))"
  unfolding shouldProvision_def getStorageClass_def claim_event_def Let_def
  by (intro tspec_intros) (auto simp: wanted_def mget_mlookup)

lemma pvc_deprovision_run:
  "tspec (pvc_deprovision c claim) (\<lambda>r t. r \<noteq> Panic
     \<and> (\<forall>x \<in> set t. (\<exists>v. x = OnPV v \<and> verb_reads v)
          \<or> (\<exists>pv e. x = OnPV (DoDelete pv e) \<and> s_ReclaimPolicy (pv_spec pv) = ReclaimDelete
               \<and> OnPV (DoGet \<lparr>nn_Name = pvNameForPVC claim, nn_Namespace = []\<rparr> None pv) \<in> set t))
     \<and> (\<forall>e. r = Ret (True, e) \<longrightarrow>
          (\<exists>e' pv. IsNotFound e' \<and> t = [OnPV (DoGet \<lparr>nn_Name = pvNameForPVC claim, nn_Namespace = []\<rparr> (Some e') pv)])
          \<or> (\<exists>pv. t = [OnPV (DoGet \<lparr>nn_Name = pvNameForPVC claim, nn_Namespace = []\<rparr> None pv)]
               \<and> s_ReclaimPolicy (pv_spec pv) \<noteq> ReclaimDelete)
          \<or> (\<exists>pv e'. t = [OnPV (DoGet \<lparr>nn_Name = pvNameForPVC claim, nn_Namespace = []\<rparr> None pv), OnPV (DoDelete pv e')]
               \<and> (e' = None \<or> IsNotFound (the e')))))"
  unfolding pvc_deprovision_def by (intro tspec_intros) auto

text \<open>What the two callbacks of the provisioner job may do.\<close>
definition creating :: "pvc \<Rightarrow> (go_error + pod) outcome \<Rightarrow> entry list \<Rightarrow> bool" where
  "creating claim o1 t \<longleftrightarrow> o1 \<noteq> Panic \<and> (\<forall>y \<in> set t. \<exists>ty rs m. y = PVCEvent claim ty rs m)"

definition completing :: "extlib \<Rightarrow> pvc \<Rightarrow> pod \<Rightarrow> (bool \<times> go_error option) outcome \<Rightarrow> entry list \<Rightarrow> bool" where
  "completing x claim pod o1 t \<longleftrightarrow> o1 \<noteq> Panic
     \<and> (\<forall>y \<in> set t. (\<exists>ty rs m. y = PVCEvent claim ty rs m)
          \<or> (\<exists>spec e. y = OnPV (DoCreate (provisioned_volume claim pod spec) e)
               \<and> StorageProvisionerFromJSON x (mget (m_Annotations (pod_meta pod)) annStorageProvisionerSpec) = (spec, None)))"

lemma provision_create_run: "tspec (provision_create x r claim spec env) (creating claim)"
  unfolding provision_create_def Let_def
  by (intro tspec_intros) (auto simp: creating_def)

lemma provision_completed_run: "tspec (provision_completed x c claim pod) (completing x claim pod)"
  unfolding provision_completed_def claim_event_def
  by (intro tspec_intros) (auto simp: completing_def)

lemma provision_job_simps [simp]:
  "jq_Name (provision_job x c r claim spec env n b) = provisioner_name"
  "jq_PodName (provision_job x c r claim spec env n b) = \<lparr>nn_Name = n, nn_Namespace = cr_ManagerNamespace r\<rparr>"
  "jq_Owner (provision_job x c r claim spec env n b) = pvc_meta claim"
  "jq_OwnerEvent (provision_job x c r claim spec env n b) = PVCEvent claim"
  "jq_ShouldRun (provision_job x c r claim spec env n b) = b"
  "jq_Create (provision_job x c r claim spec env n b) = provision_create x r claim spec env"
  "jq_OnCompleted (provision_job x c r claim spec env n b) = provision_completed x c claim"
  by (simp_all add: provision_job_def)


text \<open>The volume entries of a provisioning run: only a succeeded pod leads to a volume.\<close>
definition volume_from_pod :: "extlib \<Rightarrow> pvc \<Rightarrow> nsname \<Rightarrow> entry list \<Rightarrow> pv \<Rightarrow> bool" where
  "volume_from_pod x claim n t pv \<longleftrightarrow>
     (\<exists>pod spec. pod_Phase pod = PodSucceeded \<and> OnPod (DoGet n None pod) \<in> set t
        \<and> StorageProvisionerFromJSON x (mget (m_Annotations (pod_meta pod)) annStorageProvisionerSpec) = (spec, None)
        \<and> pv = provisioned_volume claim pod spec)"

lemma volume_from_pod_mono: "volume_from_pod x claim n t pv \<Longrightarrow> set t \<subseteq> set t' \<Longrightarrow> volume_from_pod x claim n t' pv"
  unfolding volume_from_pod_def by blast

lemma provision_job_idle:
  "tspec (ReconcileJob c pvc_jobs (provision_job x c r claim spec env n False)) (\<lambda>o1 t. o1 \<noteq> Panic
     \<and> (\<forall>y \<in> set t. (\<exists>v. y = OnPod v) \<and> (\<forall>p e. y \<noteq> OnPod (DoCreate p e))))"
  by (rule tspec_mono [OF job.run_idle]) (auto elim!: idle_run.cases pod_gone.cases)

lemma provision_job_run:
  "tspec (ReconcileJob c pvc_jobs (provision_job x c r claim spec env n True)) (\<lambda>o1 t. o1 \<noteq> Panic
     \<and> (\<forall>y \<in> set t. (\<exists>v. y = OnPod v) \<or> (\<exists>ty rs m. y = PVCEvent claim ty rs m)
          \<or> (\<exists>pv e. y = OnPV (DoCreate pv e) \<and>
               volume_from_pod x claim \<lparr>nn_Name = n, nn_Namespace = cr_ManagerNamespace r\<rparr> t pv))
     \<and> (\<forall>p e. OnPod (DoCreate p e) \<in> set t \<longrightarrow> m_Name (pod_meta p) = n
          \<and> m_Namespace (pod_meta p) = cr_ManagerNamespace r
          \<and> p_RestartPolicy (pod_spec p) = RestartPolicyNever))"
proof -
  let ?q = "provision_job x c r claim spec env n True"
  have q: "jq_ShouldRun ?q" "jq_Name ?q \<noteq> []" "tspec (jq_Create ?q) (creating claim)"
    "\<And>pod. tspec (jq_OnCompleted ?q pod) (completing x claim pod)"
    by (simp_all add: provision_create_run provision_completed_run)
  have cr: "tspec (ReconcileJob c pvc_jobs ?q) (\<lambda>o1 t. \<forall>p e. OnPod (DoCreate p e) \<in> set t \<longrightarrow>
      m_Name (pod_meta p) = nn_Name (jq_PodName ?q) \<and> m_Namespace (pod_meta p) = nn_Namespace (jq_PodName ?q)
      \<and> p_RestartPolicy (pod_spec p) = RestartPolicyNever
      \<and> (\<exists>e' p' u. IsNotFound e' \<and> t = OnPod (DoGet (jq_PodName ?q) (Some e') p') # u))"
    by (rule job.run_creates [OF q]) (auto simp: creating_def completing_def)
  have "tspec (ReconcileJob c pvc_jobs ?q) (\<lambda>o1 t. o1 \<noteq> Panic)"
    by (rule tspec_mono [OF job.run_panic [OF q]]) (auto simp: creating_def completing_def)
  moreover have "tspec (ReconcileJob c pvc_jobs ?q) (\<lambda>o1 t.
      \<forall>y \<in> set t. (\<exists>v. y = OnPod v) \<or> (\<exists>ty rs m. y = PVCEvent claim ty rs m)
        \<or> (\<exists>pv e. y = OnPV (DoCreate pv e) \<and>
             volume_from_pod x claim \<lparr>nn_Name = n, nn_Namespace = cr_ManagerNamespace r\<rparr> t pv))"
    by (rule tspec_mono [OF job.run_entries [OF q]], simp only: provision_job_simps,
        unfold volume_from_pod_def creating_def completing_def, blast)
  moreover have "tspec (ReconcileJob c pvc_jobs ?q) (\<lambda>o1 t. \<forall>p e. OnPod (DoCreate p e) \<in> set t \<longrightarrow>
      m_Name (pod_meta p) = n \<and> m_Namespace (pod_meta p) = cr_ManagerNamespace r
      \<and> p_RestartPolicy (pod_spec p) = RestartPolicyNever)"
    by (rule tspec_mono [OF cr]) simp
  ultimately show ?thesis by (intro tspec_conj)
qed


abbreviation pv_of :: "pvc \<Rightarrow> nsname" where
  "pv_of claim \<equiv> \<lparr>nn_Name = pvNameForPVC claim, nn_Namespace = []\<rparr>"

text \<open>The claim is assigned to a node and has the annotations its provisioner requires.\<close>
definition ready_claim :: "pvc \<Rightarrow> storage_provisioner \<Rightarrow> bool" where
  "ready_claim claim spec \<longleftrightarrow> mget (m_Annotations (pvc_meta claim)) annSelectedNode \<noteq> []
     \<and> snd (AnnotationsToEnv (pvc_meta claim) (ps_Env (sp_spec spec))) = None"

definition no_volume :: "pvc \<Rightarrow> entry list \<Rightarrow> bool" where
  "no_volume claim t \<longleftrightarrow> (\<exists>e pv. IsNotFound e \<and> OnPV (DoGet (pv_of claim) (Some e) pv) \<in> set t)"

definition provisions :: "extlib \<Rightarrow> pvc_reconciler \<Rightarrow> pvc \<Rightarrow> storage_provisioner \<Rightarrow> entry list \<Rightarrow> entry \<Rightarrow> bool" where
  "provisions x r claim spec t y \<longleftrightarrow>
     (\<exists>ty rs m. y = PVCEvent claim ty rs m) \<or> (\<exists>v. y = OnPV v \<and> verb_reads v)
     \<or> (\<exists>v. y = OnPod v \<and> (\<forall>p e. v = DoCreate p e \<longrightarrow>
          ready_claim claim spec \<and> no_volume claim t
          \<and> provisioner_pod r claim \<lparr>nn_Name = m_Name (pod_meta p), nn_Namespace = m_Namespace (pod_meta p)\<rparr>
          \<and> p_RestartPolicy (pod_spec p) = RestartPolicyNever))
     \<or> (\<exists>pv e n. y = OnPV (DoCreate pv e) \<and> ready_claim claim spec \<and> no_volume claim t
          \<and> provisioner_pod r claim n \<and> volume_from_pod x claim n t pv)"

lemma provisions_mono: "provisions x r claim spec t y \<Longrightarrow> set t \<subseteq> set t' \<Longrightarrow> provisions x r claim spec t' y"
  unfolding provisions_def no_volume_def using volume_from_pod_mono [of x claim _ t _ t'] by blast

lemma provision_job_provisions:
  assumes "ResourceName (pvNameForPVC claim) provisioner_name = Ret n"
    and "b \<Longrightarrow> ready_claim claim spec \<and> no_volume claim t0"
  shows "tspec (ReconcileJob c pvc_jobs (provision_job x c r claim spec env n b))
    (\<lambda>o1 t. o1 \<noteq> Panic \<and> (\<forall>y \<in> set t. provisions x r claim spec (t0 @ t) y))"
proof (cases b)
  case True
  with assms(2) have b: "ready_claim claim spec" "no_volume claim t0" by auto
  have nv: "no_volume claim (t0 @ t)" for t using b(2) by (auto simp: no_volume_def)
  let ?n = "\<lparr>nn_Name = n, nn_Namespace = cr_ManagerNamespace r\<rparr>"
  have pp: "provisioner_pod r claim ?n" by (simp add: provisioner_pod_def assms(1))
  have vf: "volume_from_pod x claim ?n t pv \<Longrightarrow> volume_from_pod x claim ?n (t0 @ t) pv" for t pv
    by (rule volume_from_pod_mono) auto
  from True have "b = True" by simp
  show ?thesis unfolding \<open>b = True\<close>
  proof (rule tspec_mono [OF provision_job_run], elim conjE, intro conjI ballI, assumption)
    fix o1 t y
    assume y: "\<forall>y\<in>set t. (\<exists>v. y = OnPod v) \<or> (\<exists>ty rs m. y = PVCEvent claim ty rs m)
          \<or> (\<exists>pv e. y = OnPV (DoCreate pv e) \<and> volume_from_pod x claim ?n t pv)" "y \<in> set t"
      and p: "\<forall>p e. OnPod (DoCreate p e) \<in> set t \<longrightarrow> m_Name (pod_meta p) = n
          \<and> m_Namespace (pod_meta p) = cr_ManagerNamespace r \<and> p_RestartPolicy (pod_spec p) = RestartPolicyNever"
    from y consider v where "y = OnPod v" | ty rs m where "y = PVCEvent claim ty rs m"
      | pv e where "y = OnPV (DoCreate pv e)" "volume_from_pod x claim ?n t pv" by blast
    then show "provisions x r claim spec (t0 @ t) y"
    proof cases
      case (1 v)
      with p y(2) b(1) nv pp show ?thesis by (auto simp: provisions_def)
    next
      case 2
      then show ?thesis by (simp add: provisions_def)
    next
      case (3 pv e)
      with b(1) nv pp vf show ?thesis unfolding provisions_def by blast
    qed
  qed
next
  case False
  then have "b = False" by simp
  show ?thesis unfolding \<open>b = False\<close>
    by (rule tspec_mono [OF provision_job_idle]) (auto simp: provisions_def)
qed

lemma provision_run:
  "tspec (provision x c r claim spec) (\<lambda>o1 t.
     (o1 = Panic \<longrightarrow> (\<exists>pv. OnPV (DoGet (pv_of claim) None pv) \<in> set t)
        \<and> snd (AnnotationsToEnv (pvc_meta claim) (ps_Env (sp_spec spec))) \<noteq> None)
     \<and> (\<forall>y \<in> set t. provisions x r claim spec t y))"
  unfolding provision_def
proof (rule tspec_bind_k_get, simp only: prod.case, rule tspec_if, goal_cases)
  case (1 err pv)
  then show ?case by (auto intro!: tspec_ret simp: provisions_def)
next
  case (2 err pv)
  obtain n where n: "ResourceName (pvNameForPVC claim) provisioner_name = Ret n"
    using ResourceName_bounds [of provisioner_name "pvNameForPVC claim"] by auto
  obtain env errAnn where a: "AnnotationsToEnv (pvc_meta claim) (ps_Env (sp_spec spec)) = (env, errAnn)"
    by fastforce
  let ?g = "OnPV (DoGet (pv_of claim) err pv)"
  have ev: "tspec (if errAnn \<noteq> None then (case err of None \<Rightarrow> panic
        | Some e \<Rightarrow> claim_event claim Warning ''AnnotationMissing'' (error_string e)) else ret ())
      (\<lambda>o1 t. (o1 = Panic \<longrightarrow> err = None \<and> errAnn \<noteq> None) \<and> (\<forall>y \<in> set t. \<exists>ty rs m. y = PVCEvent claim ty rs m))"
    unfolding claim_event_def by (intro tspec_intros tspec_emit) auto
  have job: "tspec (ReconcileJob c pvc_jobs (provision_job x c r claim spec env n
        (\<not> (err = None) \<and> mget (m_Annotations (pvc_meta claim)) annSelectedNode \<noteq> [] \<and> errAnn = None)))
      (\<lambda>o1 t. o1 \<noteq> Panic \<and> (\<forall>y \<in> set t. provisions x r claim spec ([?g] @ t) y))"
    by (rule provision_job_provisions [OF n])
       (use 2 a in \<open>auto simp: ready_claim_def no_volume_def\<close>)
  have event: "provisions x r claim spec t (PVCEvent claim ty rs m)" for t ty rs m
    by (auto simp: provisions_def)
  have get: "provisions x r claim spec t ?g" for t by (auto simp: provisions_def)
  show ?case
    unfolding Let_def a prod.case n lift_simps bind_simps
  proof (rule tspec_bind [OF ev], goal_cases)
    case (1 _ u)
    then have u: "\<forall>y \<in> set u. \<exists>ty rs m. y = PVCEvent claim ty rs m" by simp
    show ?case
    proof (rule tspec_bind [OF job], goal_cases)
      case (1 res t)
      then have t: "\<forall>y \<in> set t. provisions x r claim spec (?g # u @ t @ v) y" for v
        by (auto elim!: provisions_mono)
      show ?case using u t event get unfolding claim_event_def
        by (cases res) (auto intro!: tspec_intros)
    qed simp
  next
    case (2 u)
    with a event get show ?case by auto
  qed
qed


text \<open>Cleaning up after a deleted claim: the pod is gone, then the volume is released.\<close>
definition volume_released :: "pvc \<Rightarrow> entry list \<Rightarrow> bool" where
  "volume_released claim t \<longleftrightarrow>
     (\<exists>e pv. IsNotFound e \<and> t = [OnPV (DoGet (pv_of claim) (Some e) pv)])
     \<or> (\<exists>pv. t = [OnPV (DoGet (pv_of claim) None pv)] \<and> s_ReclaimPolicy (pv_spec pv) \<noteq> ReclaimDelete)
     \<or> (\<exists>pv e. t = [OnPV (DoGet (pv_of claim) None pv), OnPV (DoDelete pv e)]
          \<and> (e = None \<or> IsNotFound (the e)))"

definition cleans :: "pvc_reconciler \<Rightarrow> pvc \<Rightarrow> entry list \<Rightarrow> entry \<Rightarrow> bool" where
  "cleans r claim t y \<longleftrightarrow>
     (\<exists>v. y = OnPod v \<and> (\<forall>p e. v \<noteq> DoCreate p e)) \<or> (\<exists>v. y = OnPV v \<and> verb_reads v)
     \<or> (\<exists>pv e n u v. y = OnPV (DoDelete pv e) \<and> s_ReclaimPolicy (pv_spec pv) = ReclaimDelete
          \<and> m_Finalizers (pvc_meta claim) = [finalizer] \<and> provisioner_pod r claim n \<and> pod_gone n u
          \<and> t = u @ v \<and> OnPV (DoGet (pv_of claim) None pv) \<in> set v)
     \<or> (\<exists>e. y = OnPVC (DoStatusUpdate
            (pvc_with claim (filter (\<lambda>f. f \<noteq> finalizerPVCProtection) (m_Finalizers (pvc_meta claim)))) e)
          \<and> finalizerPVCProtection \<in> set (m_Finalizers (pvc_meta claim))
          \<and> mget (m_Annotations (pvc_meta claim)) AnnotationPersistentVolumeClaimNoProtection = Enabled)
     \<or> (\<exists>e n u v. y = OnPVC (DoStatusUpdate (pvc_with claim []) e) \<and> m_Finalizers (pvc_meta claim) = [finalizer]
          \<and> provisioner_pod r claim n \<and> pod_gone n u \<and> volume_released claim v \<and> t = u @ v @ [y])"

lemma only_finalizer: "finalizer \<in> set fs \<Longrightarrow> length fs = 1 \<Longrightarrow> fs = [finalizer]"
  by (cases fs) auto

lemma pvc_update_run:
  "(\<And>e. P (Ret e) [OnPVC (DoStatusUpdate (pvc_with claim fs) e)]) \<Longrightarrow> tspec (pvc_update_finalizers c claim fs) P"
  unfolding pvc_update_finalizers_def by (intro tspec_intros) auto

lemma pvc_release_run:
  assumes fs: "m_Finalizers (pvc_meta claim) = [finalizer]"
    and "provisioner_pod r claim n" and "pod_gone n u"
  shows "tspec (bind (pvc_deprovision c claim) (\<lambda>(done, err).
      if err \<noteq> None \<or> \<not> done then ret err else pvc_update_finalizers c claim []))
    (\<lambda>o1 v. o1 \<noteq> Panic \<and> (\<forall>y \<in> set (u @ v). cleans r claim (u @ v) y))"
proof -
  have pods: "\<exists>v. y = OnPod v \<and> (\<forall>p e. v \<noteq> DoCreate p e)" if "y \<in> set u" for y
    using assms(3) that by (auto elim!: pod_gone.cases)
  have vols: "cleans r claim (u @ v @ v') y"
    if "\<forall>x \<in> set v. (\<exists>w. x = OnPV w \<and> verb_reads w) \<or> (\<exists>pv e. x = OnPV (DoDelete pv e)
          \<and> s_ReclaimPolicy (pv_spec pv) = ReclaimDelete \<and> OnPV (DoGet (pv_of claim) None pv) \<in> set v)"
      and "y \<in> set (u @ v)" for y v v'
  proof -
    from that consider "y \<in> set u" | w where "y = OnPV w" "verb_reads w"
      | pv e where "y = OnPV (DoDelete pv e)" "s_ReclaimPolicy (pv_spec pv) = ReclaimDelete"
          "OnPV (DoGet (pv_of claim) None pv) \<in> set (v @ v')" by fastforce
    then show ?thesis
    proof cases
      case 1
      then show ?thesis using pods by (auto simp: cleans_def)
    next
      case 3
      with assms show ?thesis unfolding cleans_def by blast
    qed (auto simp: cleans_def)
  qed
  have upd: "cleans r claim (u @ v @ [y]) y"
    if "volume_released claim v" "y = OnPVC (DoStatusUpdate (pvc_with claim []) e)" for v y e
    using that assms unfolding cleans_def by blast
  show ?thesis
  proof (rule tspec_bind [OF pvc_deprovision_run], goal_cases)
    case (1 res v)
    show ?case
    proof (cases "res = (True, None)")
      case True
      with 1 have rel: "volume_released claim v" by (auto simp: volume_released_def)
      show ?thesis unfolding True using upd [OF rel] vols [of v] 1
        by (auto intro!: pvc_update_run)
    next
      case False
      with 1 vols [of v _ "[]"] show ?thesis by (cases res) (auto intro!: tspec_ret)
    qed
  qed simp
qed

lemma pvc_deleted_run:
  "tspec (pvc_reconcile_deleted c r claim) (\<lambda>o1 t. o1 \<noteq> Panic \<and> (\<forall>y \<in> set t. cleans r claim t y))"
proof -
  obtain n where n: "ResourceName (pvNameForPVC claim) provisioner_name = Ret n"
    using ResourceName_bounds [of provisioner_name "pvNameForPVC claim"] by auto
  let ?n = "\<lparr>nn_Name = n, nn_Namespace = cr_ManagerNamespace r\<rparr>"
  have pp: "provisioner_pod r claim ?n" by (simp add: provisioner_pod_def n)
  have pods: "cleans r claim t y" if "idle_run ?n o1 u" "y \<in> set u" for o1 u t y
    using that by (auto elim!: idle_run.cases pod_gone.cases simp: cleans_def)
  show ?thesis
    unfolding pvc_reconcile_deleted_def Let_def n lift_simps bind_simps string_list_eqs fst_conv
      pvc_deletePod_def
  proof (intro tspec_if, goal_cases)
    case 1
    then show ?case by (intro pvc_update_run) (auto simp: cleans_def)
  next
    case 4
    then have fs: "m_Finalizers (pvc_meta claim) = [finalizer]" by (intro only_finalizer) auto
    then have none_left: "filter (\<lambda>f. f \<noteq> finalizer) (m_Finalizers (pvc_meta claim)) = []" by simp
    show ?case
    proof (rule tspec_bind [OF DeletePod_run], goal_cases)
      case (1 res u)
      show ?case
      proof (cases "res = (True, None)")
        case True
        with 1 have "pod_gone ?n u" by (auto elim: idle_run.cases)
        from pvc_release_run [OF fs pp this] show ?thesis unfolding True none_left by simp
      qed (use pods [OF 1] in \<open>cases res, auto intro!: tspec_ret\<close>)
    qed (auto elim: idle_run.cases)
  qed (auto intro: tspec_ret)
qed


text \<open>The runs for a claim that is not being deleted.\<close>
definition serves :: "extlib \<Rightarrow> pvc_reconciler \<Rightarrow> pvc \<Rightarrow> storage_provisioner \<Rightarrow> entry list \<Rightarrow> entry \<Rightarrow> bool" where
  "serves x r claim spec t y \<longleftrightarrow>
     (\<exists>v. y = OnSC v \<and> verb_reads v) \<or> (\<exists>ty rs m. y = PVCEvent claim ty rs m)
     \<or> (wanted claim spec \<and> finalizer \<notin> set (m_Finalizers (pvc_meta claim))
          \<and> (\<exists>e. y = OnPVC (DoStatusUpdate (pvc_with claim (m_Finalizers (pvc_meta claim) @ [finalizer])) e)))
     \<or> (wanted claim spec \<and> finalizer \<in> set (m_Finalizers (pvc_meta claim)) \<and> provisions x r claim spec t y)"

definition serve_panics :: "pvc \<Rightarrow> storage_provisioner \<Rightarrow> entry list \<Rightarrow> bool" where
  "serve_panics claim spec t \<longleftrightarrow>
     s_VolumeMode (ps_PersistentVolumeTemplate (sp_spec spec)) = None
     \<or> ((\<exists>pv. OnPV (DoGet (pv_of claim) None pv) \<in> set t)
         \<and> snd (AnnotationsToEnv (pvc_meta claim) (ps_Env (sp_spec spec))) \<noteq> None)"

lemma pvc_live_run:
  "tspec (bind (shouldProvision c claim spec) (\<lambda>(should, err).
      if err \<noteq> None \<or> \<not> should then ret err
      else (case AddString (m_Finalizers (pvc_meta claim)) finalizer of
              (fs, added) \<Rightarrow>
                if added then pvc_update_finalizers c claim fs
                else bind (provision x c r claim spec) (\<lambda>(done, err). ret err))))
    (\<lambda>o1 t. (o1 = Panic \<longrightarrow> serve_panics claim spec t) \<and> (\<forall>y \<in> set t. serves x r claim spec t y))"
proof (rule tspec_bind [OF shouldProvision_run], goal_cases)
  case (1 res t)
  then have t: "\<forall>y \<in> set t. serves x r claim spec u y" for u by (auto simp: serves_def)
  show ?case
  proof (cases "fst res \<and> snd res = None")
    case False
    with t show ?thesis by (cases res) (auto intro!: tspec_ret)
  next
    case True
    with 1 have w: "wanted claim spec" by (cases res) auto
    have p: "serves x r claim spec (t @ u) y"
      if "finalizer \<in> set (m_Finalizers (pvc_meta claim))" "provisions x r claim spec u y" for u y
      using that w provisions_mono [OF that(2), of "t @ u"] by (auto simp: serves_def)
    have prov: "tspec (bind (provision x c r claim spec) (\<lambda>(done, err). ret err))
      (\<lambda>o1 u. (o1 = Panic \<longrightarrow> serve_panics claim spec (t @ u)) \<and> (\<forall>y \<in> set (t @ u). serves x r claim spec (t @ u) y))"
      if "finalizer \<in> set (m_Finalizers (pvc_meta claim))"
      by (rule tspec_bind [OF provision_run])
         (use p [OF that] t in \<open>auto intro!: tspec_ret simp: serve_panics_def\<close>)
    have upd: "serves x r claim spec u (OnPVC (DoStatusUpdate
        (pvc_with claim (m_Finalizers (pvc_meta claim) @ [finalizer])) e))"
      if "finalizer \<notin> set (m_Finalizers (pvc_meta claim))" for u e
      using that w by (simp add: serves_def)
    from True have res: "res = (True, None)" by (cases res) auto
    show ?thesis unfolding res
      using t prov upd by (auto simp: AddString_eq intro!: pvc_update_run)
  qed
next
  case (2 t)
  then show ?case by (auto simp: serve_panics_def serves_def)
qed

lemma pvc_Reconcile_run:
  "tspec (pvc_Reconcile x c r req) (\<lambda>o1 t. \<exists>err claim u. t = OnPVC (DoGet req err claim) # u \<and>
     (if err \<noteq> None then u = [] \<and> o1 \<noteq> Panic
      else if m_DeletionTimestamp (pvc_meta claim) \<noteq> None
      then o1 \<noteq> Panic \<and> (\<forall>y \<in> set u. cleans r claim u y)
      else (case resolveProvisioner (pvc_meta claim) (cr_Provisioners r) of
              None \<Rightarrow> u = [] \<and> o1 \<noteq> Panic
            | Some spec \<Rightarrow> (o1 = Panic \<longrightarrow> serve_panics claim spec u) \<and> (\<forall>y \<in> set u. serves x r claim spec u y))))"
  unfolding pvc_Reconcile_def
proof (rule tspec_bind_k_get, simp only: prod.case, rule tspec_option, goal_cases)
  case (1 err claim)
  show ?case
  proof (cases "m_DeletionTimestamp (pvc_meta claim) = None")
    case False
    with 1 show ?thesis by (auto intro!: tspec_mono [OF pvc_deleted_run])
  next
    case True
    with 1 show ?thesis
      by (cases "resolveProvisioner (pvc_meta claim) (cr_Provisioners r)")
         (use pvc_live_run [of c claim _ x r] in \<open>auto intro!: tspec_ret\<close>)
  qed
next
  case (2 err claim e)
  then show ?case by (auto intro!: tspec_intros)
qed


section \<open>Properties\<close>

lemma provisioned_volume_fields:
  "m_Name (pv_meta (provisioned_volume claim pod spec)) = pvNameForPVC claim"
  "m_Finalizers (pv_meta (provisioned_volume claim pod spec)) = [finalizer]"
  "s_ClaimRef (pv_spec (provisioned_volume claim pod spec)) =
     Some \<lparr>r_APIVersion = ''v1'', r_Kind = ''PersistentVolumeClaim'', r_Name = m_Name (pvc_meta claim),
       r_Namespace = m_Namespace (pvc_meta claim), r_UID = m_UID (pvc_meta claim),
       r_ResourceVersion = m_ResourceVersion (pvc_meta claim)\<rparr>"
  by (simp_all add: provisioned_volume_def persistentVolumeForClaim_def CopyAnnotations_def Let_def)

lemma pvc_live_entry:
  assumes "y \<in> set (run_trace (pvc_Reconcile x c r req) w)"
    and "\<And>claim err. y \<noteq> OnPVC (DoGet req err claim)" and "\<And>claim u. \<not> cleans r claim u y"
  obtains claim spec u where "run_trace (pvc_Reconcile x c r req) w = OnPVC (DoGet req None claim) # u"
    "m_DeletionTimestamp (pvc_meta claim) = None"
    "resolveProvisioner (pvc_meta claim) (cr_Provisioners r) = Some spec" "serves x r claim spec u y"
  using tspec_run [OF pvc_Reconcile_run, of x c r req w] assms
  by (fastforce split: if_splits option.splits)

definition example_claim :: "time option \<Rightarrow> pvc" where
  "example_claim del = zero_pvc\<lparr>pvc_meta := zero_meta\<lparr>m_Name := ''claim'', m_Namespace := ''ns'', m_UID := ''1'',
       m_DeletionTimestamp := del, m_Finalizers := [finalizer],
       m_Annotations := Some [annStorageProvisioner \<mapsto> ''p.example'', annSelectedNode \<mapsto> ''node1'']\<rparr>,
     pvc_VolumeMode := Some ''Filesystem'', pvc_StorageClassName := Some ''sc''\<rparr>"

definition example_pvc_reconciler :: pvc_reconciler where
  "example_pvc_reconciler = \<lparr>cr_ManagerNamespace = ''mgr'',
     cr_Provisioners = (\<lambda>n. if n = ''p.example'' then Some example_provisioner else None)\<rparr>"

definition not_found :: go_error where
  "not_found = Api NotFound ''not found''"

lemma not_found_simps [simp]: "IsNotFound not_found" "\<not> IsAlreadyExists not_found"
  by (simp_all add: not_found_def)

lemma example_pv_name: "pvNameForPVC (example_claim del) = ''pvc-1''"
  by (simp add: pvNameForPVC_def example_claim_def)

lemma example_pod_name: "ResourceName ''pvc-1'' provisioner_name = Ret ''pvc-1-provisioner''"
  by (simp add: ResourceName_short) (simp add: provisioner_name_def)

lemma example_upper: "name_upper provisioner_name = Ret ''Provisioner''"
  unfolding provisioner_name_def name_upper_def ToUpper_def by code_simp

lemma plain_ext_FromJSON: "StorageProvisionerFromJSON plain_ext js = (zero_storage_provisioner, None)"
  by (simp add: StorageProvisionerFromJSON_def plain_ext_def)

lemma example_claim_simps:
  "mget (m_Annotations (pvc_meta (example_claim del))) annSelectedNode = ''node1''"
  "AnnotationsToEnv (pvc_meta (example_claim del)) (ps_Env (sp_spec example_provisioner)) = ([], None)"
  "resolveProvisioner (pvc_meta (example_claim del)) (cr_Provisioners example_pvc_reconciler) = Some example_provisioner"
  "m_DeletionTimestamp (pvc_meta (example_claim del)) = del"
  "m_Finalizers (pvc_meta (example_claim del)) = [finalizer]"
  "pvc_VolumeName (example_claim del) = []" "pvc_StorageClassName (example_claim del) = Some ''sc''"
  "pvc_VolumeMode (example_claim del) = Some ''Filesystem''"
  "s_VolumeMode (ps_PersistentVolumeTemplate (sp_spec example_provisioner)) = Some ''Filesystem''"
  by (simp_all add: example_claim_def example_pvc_reconciler_def AnnotationsToEnv_def resolveProvisioner_def
      mget_Some annSelectedNode_def annStorageProvisioner_def zero_pvc_def example_defs)

lemmas pvc_exec = pvc_Reconcile_def shouldProvision_def getStorageClass_def provision_def claim_event_def
  example_claim_simps example_pv_name example_pod_name string_list_eqs run_exec
  ReconcileJob_def ReconcilePod_def bindR_def example_upper plain_ext_FromJSON Let_def exec_simps

text \<open>The client of a claim without a volume whose provisioner pod is \<open>pod\<close>.\<close>
definition example_pvc_client :: "go_error option \<times> pod \<Rightarrow> unit client" where
  "example_pvc_client pod = answering_client (None, example_claim None) (Some not_found, zero_pv) pod (None, zero_sc)"

definition example_pod :: pod where
  "example_pod = zero_pod\<lparr>pod_Phase := PodSucceeded\<rparr>"

lemma example_creates_volume:
  "\<exists>pv e. OnPV (DoCreate pv e) \<in> set (run_trace (pvc_Reconcile plain_ext (example_pvc_client (None, example_pod))
     example_pvc_reconciler \<lparr>nn_Name = ''claim'', nn_Namespace = ''ns''\<rparr>) ())"
  by (simp add: pvc_exec example_pvc_client_def example_pod_def zero_sc_def provision_completed_def
      DeleteResource_def)

text \<open>
  C2. A volume is created for a claim only after its provisioner pod was seen to have succeeded, and
  only while the claim exists, carries the controller's finalizer, is assigned to a node, has all
  required annotations and has no volume yet.  The volume is named after the claim, refers to it and
  is protected by the finalizer.
\<close>
theorem volume_created_after_pod_succeeded:
  assumes "OnPV (DoCreate pv e) \<in> set (run_trace (pvc_Reconcile x c r req) w)"
  shows "\<exists>claim spec n pod u. run_trace (pvc_Reconcile x c r req) w = OnPVC (DoGet req None claim) # u
    \<and> m_DeletionTimestamp (pvc_meta claim) = None \<and> finalizer \<in> set (m_Finalizers (pvc_meta claim))
    \<and> resolveProvisioner (pvc_meta claim) (cr_Provisioners r) = Some spec
    \<and> wanted claim spec \<and> ready_claim claim spec \<and> no_volume claim u
    \<and> provisioner_pod r claim n \<and> OnPod (DoGet n None pod) \<in> set u \<and> pod_Phase pod = PodSucceeded
    \<and> m_Name (pv_meta pv) = pvNameForPVC claim \<and> m_Finalizers (pv_meta pv) = [finalizer]
    \<and> map_option r_UID (s_ClaimRef (pv_spec pv)) = Some (m_UID (pvc_meta claim))"
proof (rule pvc_live_entry [OF assms])
  fix claim spec u
  assume t: "run_trace (pvc_Reconcile x c r req) w = OnPVC (DoGet req None claim) # u"
    and cl: "m_DeletionTimestamp (pvc_meta claim) = None"
      "resolveProvisioner (pvc_meta claim) (cr_Provisioners r) = Some spec"
    and s: "serves x r claim spec u (OnPV (DoCreate pv e))"
  from s obtain n where "wanted claim spec" "finalizer \<in> set (m_Finalizers (pvc_meta claim))"
      "ready_claim claim spec" "no_volume claim u" "provisioner_pod r claim n" "volume_from_pod x claim n u pv"
    by (auto simp: serves_def provisions_def)
  with t cl show ?thesis by (fastforce simp: volume_from_pod_def provisioned_volume_fields)
qed (auto simp: cleans_def)

theorem volume_created_after_pod_succeeded_witness:
  "\<exists>pv e (pod::pod). OnPV (DoCreate pv e) \<in> set (run_trace (pvc_Reconcile plain_ext
       (example_pvc_client (None, example_pod)) example_pvc_reconciler \<lparr>nn_Name = ''claim'', nn_Namespace = ''ns''\<rparr>) ())
     \<and> pod_Phase pod = PodSucceeded \<and> m_Finalizers (pv_meta pv) = [finalizer]"
proof -
  obtain pv e where pv: "OnPV (DoCreate pv e) \<in> set (run_trace (pvc_Reconcile plain_ext
      (example_pvc_client (None, example_pod)) example_pvc_reconciler \<lparr>nn_Name = ''claim'', nn_Namespace = ''ns''\<rparr>) ())"
    using example_creates_volume by blast
  from volume_created_after_pod_succeeded [OF pv] pv show ?thesis
    by (elim exE conjE) (intro exI conjI)
qed

text \<open>
  C23. A provisioner pod is created only for a claim that exists, carries the finalizer, is assigned to
  a node, has all required annotations and has no volume yet; the pod has the name derived from the
  claim's volume, lives in the manager's namespace and is never restarted.
\<close>
theorem provisioner_pod_created_when_ready:
  assumes "OnPod (DoCreate p e) \<in> set (run_trace (pvc_Reconcile x c r req) w)"
  shows "\<exists>claim spec u. run_trace (pvc_Reconcile x c r req) w = OnPVC (DoGet req None claim) # u
    \<and> m_DeletionTimestamp (pvc_meta claim) = None \<and> finalizer \<in> set (m_Finalizers (pvc_meta claim))
    \<and> resolveProvisioner (pvc_meta claim) (cr_Provisioners r) = Some spec
    \<and> wanted claim spec \<and> ready_claim claim spec \<and> no_volume claim u
    \<and> ResourceName (pvNameForPVC claim) provisioner_name = Ret (m_Name (pod_meta p))
    \<and> m_Namespace (pod_meta p) = cr_ManagerNamespace r
    \<and> p_RestartPolicy (pod_spec p) = RestartPolicyNever"
proof (rule pvc_live_entry [OF assms])
  fix claim spec u
  assume "run_trace (pvc_Reconcile x c r req) w = OnPVC (DoGet req None claim) # u"
    "m_DeletionTimestamp (pvc_meta claim) = None"
    "resolveProvisioner (pvc_meta claim) (cr_Provisioners r) = Some spec"
    "serves x r claim spec u (OnPod (DoCreate p e))"
  then show ?thesis by (auto simp: serves_def provisions_def provisioner_pod_def)
qed (auto simp: cleans_def)


lemma example_create:
  "\<exists>pod. provision_create plain_ext example_pvc_reconciler (example_claim None) example_provisioner [] =
     bind (emit (PVCEvent (example_claim None) Normal ''Provisioning'' ''Provisioning PersistentVolume'')) (\<lambda>_. ret (Inr pod))"
proof -
  have "StorageRootPathForNode ''node1'' (ps_Nodes (sp_spec example_provisioner)) = Inr ''/data/vols''"
    unfolding example_defs by code_simp
  moreover obtain pod p' where "NewProvisionerPod \<lparr>so_PodName = \<lparr>nn_Name = ''pvc-1-provisioner'',
        nn_Namespace = cr_ManagerNamespace example_pvc_reconciler\<rparr>, so_ContainerName = provisioner_name,
      so_SubstitutedProvisioner = example_provisioner,
      so_Container = cs_Provisioner (ps_Containers (sp_spec example_provisioner)), so_Env = []\<rparr> = Inr (pod, p')"
    by (fastforce simp: NewProvisionerPod_def Let_def command_len_def merge_container_def example_defs)
  ultimately show ?thesis
    by (intro exI) (simp add: provision_create_def Let_def example_claim_simps example_pv_name example_pod_name)
qed

lemma example_creates_pod:
  "\<exists>p e. OnPod (DoCreate p e) \<in> set (run_trace (pvc_Reconcile plain_ext (example_pvc_client (Some not_found, zero_pod))
     example_pvc_reconciler \<lparr>nn_Name = ''claim'', nn_Namespace = ''ns''\<rparr>) ())"
proof -
  obtain pod where "(provision_create plain_ext example_pvc_reconciler (example_claim None)
       example_provisioner [] :: (unit, go_error + pod) prog) =
     bind (emit (PVCEvent (example_claim None) Normal ''Provisioning'' ''Provisioning PersistentVolume'')) (\<lambda>_. ret (Inr pod))"
    using example_create by blast
  then show ?thesis
    by (simp add: pvc_exec example_pvc_client_def zero_sc_def)
qed

theorem provisioner_pod_created_when_ready_witness:
  "\<exists>p e. OnPod (DoCreate p e) \<in> set (run_trace (pvc_Reconcile plain_ext
       (example_pvc_client (Some not_found, zero_pod)) example_pvc_reconciler \<lparr>nn_Name = ''claim'', nn_Namespace = ''ns''\<rparr>) ())
     \<and> p_RestartPolicy (pod_spec p) = RestartPolicyNever"
proof -
  obtain p e where p: "OnPod (DoCreate p e) \<in> set (run_trace (pvc_Reconcile plain_ext
      (example_pvc_client (Some not_found, zero_pod)) example_pvc_reconciler \<lparr>nn_Name = ''claim'', nn_Namespace = ''ns''\<rparr>) ())"
    using example_creates_pod by blast
  from provisioner_pod_created_when_ready [OF p] p show ?thesis by blast
qed



definition example_volume :: pv where
  "example_volume = zero_pv\<lparr>pv_spec := zero_pvspec\<lparr>s_ReclaimPolicy := ReclaimDelete\<rparr>\<rparr>"

definition example_deletion :: "(unit, go_error option) prog" where
  "example_deletion = pvc_Reconcile plain_ext
     (answering_client (None, example_claim (Some 1)) (None, example_volume) (Some not_found, zero_pod) (None, zero_sc))
     example_pvc_reconciler \<lparr>nn_Name = ''claim'', nn_Namespace = ''ns''\<rparr>"

lemma example_deletion_trace:
  "OnPVC (DoStatusUpdate (pvc_with (example_claim (Some 1)) []) None) \<in> set (run_trace example_deletion ())"
  "OnPV (DoDelete example_volume None) \<in> set (run_trace example_deletion ())"
  by (simp_all add: pvc_exec example_deletion_def example_volume_def pvc_reconcile_deleted_def pvc_deletePod_def
      DeletePod_def pvc_deprovision_def pvc_update_finalizers_def)


text \<open>
  C25. The claim controller deletes a volume only if its reclaim policy is \<^verbatim>\<open>Delete\<close>, its claim is being
  deleted and holds no finalizer but the controller's own, and the provisioner pod is already gone.
\<close>
theorem volume_deleted_only_if_reclaimed:
  assumes "OnPV (DoDelete pv e) \<in> set (run_trace (pvc_Reconcile x c r req) w)"
  shows "\<exists>claim n t v. run_trace (pvc_Reconcile x c r req) w = OnPVC (DoGet req None claim) # t @ v
    \<and> m_DeletionTimestamp (pvc_meta claim) \<noteq> None \<and> m_Finalizers (pvc_meta claim) = [finalizer]
    \<and> provisioner_pod r claim n \<and> pod_gone n t
    \<and> OnPV (DoGet (pv_of claim) None pv) \<in> set v \<and> s_ReclaimPolicy (pv_spec pv) = ReclaimDelete"
proof -
  have no: "\<not> serves x r claim spec u (OnPV (DoDelete pv e))" for claim spec u
    by (auto simp: serves_def provisions_def)
  from tspec_run [OF pvc_Reconcile_run, of x c r req w] assms no
  obtain claim u where "run_trace (pvc_Reconcile x c r req) w = OnPVC (DoGet req None claim) # u"
    "m_DeletionTimestamp (pvc_meta claim) \<noteq> None" "cleans r claim u (OnPV (DoDelete pv e))"
    by (fastforce split: if_splits option.splits)
  then show ?thesis by (auto simp: cleans_def)
qed

theorem volume_deleted_only_if_reclaimed_witness:
  "OnPV (DoDelete example_volume None) \<in> set (run_trace example_deletion ())
   \<and> (\<exists>t n. pod_gone n t) \<and> s_ReclaimPolicy (pv_spec example_volume) = ReclaimDelete"
  using volume_deleted_only_if_reclaimed [OF example_deletion_trace(2) [unfolded example_deletion_def]]
    example_deletion_trace(2) by blast

text \<open>
  C5. With the registry of the manager as its source of provisioners the controller panics in one
  situation only: the claim's volume exists already and the claim lacks an annotation its provisioner
  requires.
\<close>
theorem claim_panics_only_on_missing_annotation:
  assumes "registry_reach x reg" and "conversion_keeps_nil x" and "cr_Provisioners r = Get reg"
    and "run_result (pvc_Reconcile x c r req) w = Panic"
  shows "\<exists>claim spec pv u. run_trace (pvc_Reconcile x c r req) w = OnPVC (DoGet req None claim) # u
    \<and> resolveProvisioner (pvc_meta claim) (Get reg) = Some spec
    \<and> OnPV (DoGet (pv_of claim) None pv) \<in> set u
    \<and> snd (AnnotationsToEnv (pvc_meta claim) (ps_Env (sp_spec spec))) \<noteq> None"
proof -
  from tspec_run [OF pvc_Reconcile_run, of x c r req w] assms(3,4)
  obtain claim spec u where t: "run_trace (pvc_Reconcile x c r req) w = OnPVC (DoGet req None claim) # u"
    and s: "resolveProvisioner (pvc_meta claim) (Get reg) = Some spec" "serve_panics claim spec u"
    by (fastforce split: if_splits option.splits)
  from s(1) obtain n where "Get reg n = Some spec"
    by (auto simp: resolveProvisioner_def split: option.splits)
  then have "s_VolumeMode (ps_PersistentVolumeTemplate (sp_spec spec)) \<noteq> None"
    using known.lookup_mode [of x reg n spec] registry_reach_registry_inv [OF assms(1)] assms(2) by blast
  with t s show ?thesis unfolding serve_panics_def by blast
qed


text \<open>A provisioner that requires an annotation the example claim does not have.\<close>
definition env_provisioner :: storage_provisioner where
  "env_provisioner = example_provisioner\<lparr>sp_spec := (sp_spec example_provisioner)\<lparr>ps_Env :=
     [\<lparr>em_Name = ''SIZE'', em_Annotation = ''example/size'', em_Required = None\<rparr>]\<rparr>\<rparr>"

definition env_registry :: registry where
  "env_registry = snd (Put plain_ext newProvisioners env_provisioner)"

definition env_reconcile :: "(unit, go_error option) prog" where
  "env_reconcile = pvc_Reconcile plain_ext
     (answering_client (None, example_claim None) (None, zero_pv) (Some not_found, zero_pod) (None, zero_sc))
     \<lparr>cr_ManagerNamespace = ''mgr'', cr_Provisioners = Get env_registry\<rparr> \<lparr>nn_Name = ''claim'', nn_Namespace = ''ns''\<rparr>"

lemma env_provisioner_valid: "validateProvisioner plain_ext env_provisioner = None"
proof -
  have "validate_nodes 0 [\<lparr>np_Name = ''*'', np_Path = ''/data/vols''\<rparr>] = None" by code_simp
  then show ?thesis
    by (simp add: validateProvisioner_def NewProvisionerPod_def Let_def command_len_def merge_container_def
        env_provisioner_def example_defs)
qed

lemma env_registry_Get: "Get env_registry ''p.example'' = Some env_provisioner"
proof -
  have "GetProvisionerName env_provisioner = ''p.example''"
    by (simp add: GetProvisionerName_def env_provisioner_def example_defs)
  then show ?thesis
    by (simp add: env_registry_def Put_def Get_def Let_def env_provisioner_valid newProvisioners_def)
qed

lemma env_registry_reach: "registry_reach plain_ext env_registry"
  unfolding env_registry_def by (rule registry_reach.step [OF registry_reach.init registry_step.put])

lemma env_claim_simps:
  "resolveProvisioner (pvc_meta (example_claim None)) (Get env_registry) = Some env_provisioner"
  "snd (AnnotationsToEnv (pvc_meta (example_claim None)) (ps_Env (sp_spec env_provisioner))) \<noteq> None"
  "s_VolumeMode (ps_PersistentVolumeTemplate (sp_spec env_provisioner)) = Some ''Filesystem''"
  by (simp_all add: resolveProvisioner_def AnnotationsToEnv_def example_claim_def mget_Some annStorageProvisioner_def
      annSelectedNode_def env_registry_Get env_provisioner_def example_claim_simps)

text \<open>
  That situation does make it panic: reconciling a claim whose volume exists, but which lost a
  required annotation before it was bound, calls \<^verbatim>\<open>err.Error()\<close> on the nil error of the volume's lookup.
\<close>
theorem missing_annotation_panics:
  assumes "rc_get (cl_pvc c) req zero_pvc w = ((None, claim), wa)"
    and "m_DeletionTimestamp (pvc_meta claim) = None" and "finalizer \<in> set (m_Finalizers (pvc_meta claim))"
    and "resolveProvisioner (pvc_meta claim) (cr_Provisioners r) = Some spec" and "wanted claim spec"
    and "rc_get (cl_sc c) \<lparr>nn_Name = persistentVolumeClaimClass claim, nn_Namespace = []\<rparr> zero_sc wa = ((None, cls), wb)"
    and "sc_VolumeBindingMode cls \<noteq> Some WaitForFirstConsumer"
    and "rc_get (cl_pv c) (pv_of claim) zero_pv wb = ((None, pv), wc)"
    and "snd (AnnotationsToEnv (pvc_meta claim) (ps_Env (sp_spec spec))) \<noteq> None"
  shows "run_result (pvc_Reconcile x c r req) w = Panic"
proof -
  obtain mode where mode: "s_VolumeMode (ps_PersistentVolumeTemplate (sp_spec spec)) = Some mode"
      "pvc_VolumeMode claim = Some mode" "pvc_VolumeName claim = []" "pvc_StorageClassName claim \<noteq> None"
    using assms(5) by (auto simp: wanted_def)
  obtain env e where env: "AnnotationsToEnv (pvc_meta claim) (ps_Env (sp_spec spec)) = (env, Some e)"
    using assms(9) by (cases "AnnotationsToEnv (pvc_meta claim) (ps_Env (sp_spec spec))") auto
  have "wp (pvc_Reconcile x c r req) (\<lambda>_ _. False) (\<lambda>_. True) (start w)"
    using assms(1-4,6-8) mode env
    by (simp add: pvc_Reconcile_def shouldProvision_def getStorageClass_def provision_def AddString_eq
        wp_simps Let_def)
  then show ?thesis by (auto simp: wp_def run_result_def split: prod.splits outcome.splits)
qed

theorem missing_annotation_panics_witness: "run_result env_reconcile () = Panic"
  unfolding env_reconcile_def
  by (rule missing_annotation_panics [where claim = "example_claim None" and spec = env_provisioner
        and wa = "()" and wb = "()" and wc = "()" and cls = zero_sc and pv = zero_pv])
     (use env_claim_simps(2) in \<open>simp_all add: example_claim_simps env_claim_simps wanted_def zero_sc_def answering_def\<close>)

theorem claim_panics_only_on_missing_annotation_witness:
  "registry_reach plain_ext env_registry \<and> conversion_keeps_nil plain_ext
   \<and> run_result env_reconcile () = Panic
   \<and> (\<exists>claim u. run_trace env_reconcile () = OnPVC (DoGet \<lparr>nn_Name = ''claim'', nn_Namespace = ''ns''\<rparr> None claim) # u)"
proof -
  obtain env e where "AnnotationsToEnv (pvc_meta (example_claim None)) (ps_Env (sp_spec env_provisioner)) = (env, Some e)"
    using env_claim_simps(2) by (metis not_None_eq prod.collapse)
  then have p: "run_result env_reconcile () = Panic"
    by (simp add: env_reconcile_def pvc_exec env_claim_simps zero_sc_def)
  show ?thesis
    using claim_panics_only_on_missing_annotation [OF env_registry_reach plain_ext_keeps_nil _ p [unfolded env_reconcile_def]]
      p env_registry_reach plain_ext_keeps_nil
    unfolding env_reconcile_def by fastforce
qed

end
