(* ===== verification/PVController.thy ===== *)
theory PVController
  imports PVCController
begin

text \<open>
  \<^verbatim>\<open>internal/controllers/persistentvolume_controller.go\<close>: deprovisioning a volume that is being deleted.
  A deleted volume loses its reference to a claim that is gone, then a deprovisioner pod is run, then
  an annotation records that it succeeded, then the pod is removed and only then the finalizer.
\<close>

definition deprovisioner_name :: string where
  "deprovisioner_name = ''deprovisioner''"
definition annPVName :: string where
  "annPVName = ''k8storagex.mgoltzsche.github.com/pv-name''"
definition annPVDisableDeprovisioner :: string where
  "annPVDisableDeprovisioner = ''k8storagex.mgoltzsche.github.com/pv-deprovisioner-disabled''"
definition annPVClaimRef :: string where
  "annPVClaimRef = ''k8storagex.mgoltzsche.github.com/pvc''"

record pv_reconciler =
  vr_ManagerNamespace :: string
  vr_Provisioners :: "string \<Rightarrow> storage_provisioner option"

definition pv_jobs :: job_reconciler where
  "pv_jobs = \<lparr>jr_AnnotationOwnerName = annPVName, jr_AnnotationOwnerNamespace = []\<rparr>"

section \<open>Claim references and events\<close>

definition setClaimRefAnnotation :: "extlib \<Rightarrow> pv \<Rightarrow> objref \<Rightarrow> pv" where
  "setClaimRefAnnotation x pv claim =
     (case x_marshal_ref x claim of
        Inl _ \<Rightarrow> pv
      | Inr b \<Rightarrow> pv\<lparr>pv_meta := (pv_meta pv)\<lparr>m_Annotations :=
                   mput (mnonnil (m_Annotations (pv_meta pv))) annPVClaimRef b\<rparr>\<rparr>)"

definition getClaimRef :: "extlib \<Rightarrow> pv \<Rightarrow> objref option" where
  "getClaimRef x pv =
     (case s_ClaimRef (pv_spec pv) of
        Some ref \<Rightarrow> Some ref
      | None \<Rightarrow>
          (case m_Annotations (pv_meta pv) of
             None \<Rightarrow> None
           | Some a \<Rightarrow>
               (let claimRefJSON = mget (Some a) annPVClaimRef
                in if claimRefJSON = [] then None
                   else case x_unmarshal_ref x claimRefJSON of Inl _ \<Rightarrow> None | Inr ref \<Rightarrow> Some ref)))"

definition pv_event :: "extlib \<Rightarrow> pv \<Rightarrow> event_type \<Rightarrow> string \<Rightarrow> string \<Rightarrow> ('w, unit) prog" where
  "pv_event x pv evtType reason message =
     bind (emit (PVEvent pv evtType reason (Sprintf message []))) (\<lambda>_.
     case getClaimRef x pv of
       None \<Rightarrow> ret ()
     | Some ref \<Rightarrow> emit (RefEvent ref evtType reason (Sprintf message [])))"

section \<open>canDeprovision\<close>

text \<open>
  The loop, with the number of iterations left and the last error; also gives back the volume as the
  code leaves it.
\<close>
primrec canDeprovision_loop :: "extlib \<Rightarrow> 'w client \<Rightarrow> pv_reconciler \<Rightarrow> nat \<Rightarrow> pv \<Rightarrow> go_error option \<Rightarrow>
    ('w, bool \<times> go_error option \<times> pv) prog" where
  "canDeprovision_loop x c r 0 pv err =
     ret (False, wrap ''remove claimRef from persistentvolume'' [] err, pv)"
| "canDeprovision_loop x c r (Suc i) pv err =
     (if pv_Phase pv = VolumeBound then ret (False, None, pv)
      else case s_ClaimRef (pv_spec pv) of
        None \<Rightarrow> ret (True, None, pv)
      | Some claimRef \<Rightarrow>
          bind (k_get (cl_pvc c) OnPVC \<lparr>nn_Name = r_Name claimRef, nn_Namespace = r_Namespace claimRef\<rparr> zero_pvc)
            (\<lambda>(err1, pvc).
          if err1 = None \<or> \<not> IsNotFound (the err1) then
            ret (False, wrap ''remove claimRef from persistentvolume'' [] err1, pv)
          else if resolveProvisioner (pv_meta pv) (vr_Provisioners r) = None then ret (False, None, pv)
          else
            (let pv0 = setClaimRefAnnotation x pv claimRef;
                 pv1 = pv0\<lparr>pv_spec := (pv_spec pv0)\<lparr>s_ClaimRef := None\<rparr>\<rparr>
             in bind (k_update (cl_pv c) OnPV pv1) (\<lambda>(err2, pv2).
                case err2 of
                  None \<Rightarrow> ret (False, None, pv2)
                | Some e \<Rightarrow>
                    if IsConflict e then
                      bind (k_get (cl_pv c) OnPV \<lparr>nn_Name = m_Name (pv_meta pv2), nn_Namespace = m_Namespace (pv_meta pv2)\<rparr> pv2)
                        (\<lambda>(err3, pv3).
                      case err3 of
                        Some _ \<Rightarrow> ret (False, wrap ''remove claimRef from persistentvolume'' [] err3, pv3)
                      | None \<Rightarrow> canDeprovision_loop x c r i pv3 err2)
                    else ret (False, wrap ''remove claimRef from persistentvolume'' [] err2, pv2)))))"

definition canDeprovision :: "extlib \<Rightarrow> 'w client \<Rightarrow> pv_reconciler \<Rightarrow> pv \<Rightarrow>
    ('w, bool \<times> go_error option \<times> pv) prog" where
  "canDeprovision x c r pv = canDeprovision_loop x c r 2 pv None"

section \<open>deprovisionVolume\<close>

definition deprovision_create :: "extlib \<Rightarrow> pv \<Rightarrow> storage_provisioner \<Rightarrow> nsname \<Rightarrow> ('w, go_error + pod) prog" where
  "deprovision_create x pv provisioner podName =
     (case AnnotationsToEnv (pv_meta pv) (ps_Env (sp_spec provisioner)) of
        (_, Some e) \<Rightarrow> ret (Inl (Wrapped ''persistentvolume does not specify annotation'' [] e))
      | (env, None) \<Rightarrow>
          (case NewProvisionerPod \<lparr>so_PodName = podName, so_ContainerName = deprovisioner_name,
              so_SubstitutedProvisioner = provisioner,
              so_Container = cs_Deprovisioner (ps_Containers (sp_spec provisioner)),
              so_Env = env\<rparr> of
             Inl e \<Rightarrow> ret (Inl e)
           | Inr (pod, _) \<Rightarrow>
               bind (pv_event x pv Normal ''Deprovisioning'' ''Deprovisioning PersistentVolume'')
                 (\<lambda>_. ret (Inr pod))))"

text \<open>Writing to the annotations panics if the map is nil.\<close>
definition deprovision_completed :: "'w client \<Rightarrow> pv \<Rightarrow> ('w, bool \<times> go_error option) prog" where
  "deprovision_completed c pv =
     (if m_Annotations (pv_meta pv) = None then panic
      else bind (k_update (cl_pv c) OnPV (pv\<lparr>pv_meta := (pv_meta pv)\<lparr>m_Annotations :=
                   mput (m_Annotations (pv_meta pv)) annPVDisableDeprovisioner ''true''\<rparr>\<rparr>))
             (\<lambda>(err, _). ret (False, err)))"

definition deprovision_job :: "extlib \<Rightarrow> 'w client \<Rightarrow> pv \<Rightarrow> storage_provisioner \<Rightarrow> nsname \<Rightarrow> bool \<Rightarrow>
    'w job_request" where
  "deprovision_job x c pv provisioner podName shouldRun =
     \<lparr>jq_Name = deprovisioner_name, jq_PodName = podName, jq_Owner = pv_meta pv,
       jq_OwnerEvent = PVEvent pv, jq_ShouldRun = shouldRun,
       jq_Create = deprovision_create x pv provisioner podName,
       jq_OnCompleted = (\<lambda>_. deprovision_completed c pv)\<rparr>"

definition deprovisionVolume :: "extlib \<Rightarrow> 'w client \<Rightarrow> pv_reconciler \<Rightarrow> pv \<Rightarrow>
    ('w, bool \<times> go_error option) prog" where
  "deprovisionVolume x c r pv =
     (let provisionerJSON = mget (m_Annotations (pv_meta pv)) annStorageProvisionerSpec
      in if provisionerJSON = [] then
           bind (pv_event x pv Warning ''DeprovisionerSpecAnnotationMissing''
                   (error_string (Errorf ''missing annotation %s'' [AStr annStorageProvisionerSpec])))
             (\<lambda>_. ret (False, None))
         else case StorageProvisionerFromJSON x provisionerJSON of
           (_, Some e) \<Rightarrow>
             bind (pv_event x pv Warning ''DeprovisionerSpecAnnotationInvalid''
                     (error_string (Wrapped ''invalid deprovisioner annotation %s on PersistentVolume''
                        [AStr annStorageProvisionerSpec] e)))
               (\<lambda>_. ret (False, None))
         | (provisioner, None) \<Rightarrow>
             bind (lift (ResourceName (m_Name (pv_meta pv)) deprovisioner_name)) (\<lambda>name.
             let podName = \<lparr>nn_Name = name, nn_Namespace = vr_ManagerNamespace r\<rparr>;
                 needsDeprovisioning = (m_Annotations (pv_meta pv) \<noteq> None
                   \<and> mget (m_Annotations (pv_meta pv)) annPVDisableDeprovisioner \<noteq> ''true'')
             in bind (ReconcileJob c pv_jobs (deprovision_job x c pv provisioner podName needsDeprovisioning))
                  (\<lambda>(done, err).
                if done \<and> err \<noteq> None then
                  bind (pv_event x pv Warning ''DeprovisionerFailed''
                          (Sprintf ''Failed to deprovision PersistentVolume: %v'' [AStr (error_string (the err))]))
                    (\<lambda>_. ret (done, err))
                else ret (done, err))))"

section \<open>Reconcile\<close>

definition pv_Reconcile :: "extlib \<Rightarrow> 'w client \<Rightarrow> pv_reconciler \<Rightarrow> nsname \<Rightarrow> ('w, go_error option) prog" where
  "pv_Reconcile x c r req =
     bind (k_get (cl_pv c) OnPV req zero_pv) (\<lambda>(err, pv).
     case err of
       Some e \<Rightarrow> if IsNotFound e then ret None else ret (Some e)
     | None \<Rightarrow>
         if m_DeletionTimestamp (pv_meta pv) \<noteq> None then
           (if \<not> HasString (m_Finalizers (pv_meta pv)) finalizer then ret None
            else
              bind (canDeprovision x c r pv) (\<lambda>(should, err, pv1).
              if err \<noteq> None \<or> \<not> should then ret err
              else
                bind (deprovisionVolume x c r pv1) (\<lambda>(done, err).
                if err \<noteq> None \<or> \<not> done then ret err
                else
                  bind (k_status_update (cl_pv c) OnPV (pv1\<lparr>pv_meta := (pv_meta pv1)\<lparr>m_Finalizers :=
                          fst (RemoveString (m_Finalizers (pv_meta pv1)) finalizer)\<rparr>\<rparr>)) (\<lambda>(err, pv2).
                  case err of
                    Some e \<Rightarrow> ret (Some e)
                  | None \<Rightarrow>
                      bind (pv_event x pv2 Normal ''Deprovisioned'' ''Deprovisioned PersistentVolume'')
                        (\<lambda>_. ret None)))))
         else ret None)"

section \<open>Helpers, predicates and mappers\<close>

definition hostPathFromPV :: "pv \<Rightarrow> string" where
  "hostPathFromPV pv = (case s_HostPath (pv_spec pv) of None \<Rightarrow> [] | Some p \<Rightarrow> p)"

fun node_of_exprs :: "matchexpr list \<Rightarrow> string \<Rightarrow> go_error + string" where
  "node_of_exprs [] node = Inr node"
| "node_of_exprs (e # es) node =
     (if e_Key e = KeyNode \<and> e_Operator e = NodeSelectorOpIn then
        (case e_Values e of
           [v] \<Rightarrow> Inr v
         | _ \<Rightarrow> Inl (Errorf ''multiple values for the node affinity'' []))
      else node_of_exprs es node)"

fun node_of_terms :: "matchexpr list list \<Rightarrow> string \<Rightarrow> go_error + string" where
  "node_of_terms [] node = Inr node"
| "node_of_terms (t # ts) node =
     (case node_of_exprs t node of
        Inl e \<Rightarrow> Inl e
      | Inr node' \<Rightarrow> if node' \<noteq> [] then Inr node' else node_of_terms ts node')"

definition nodeNameFromPV :: "pv \<Rightarrow> go_error + string" where
  "nodeNameFromPV pv =
     (case s_NodeAffinity (pv_spec pv) of
        None \<Rightarrow> Inl (Errorf ''no NodeAffinity set'' [])
      | Some a \<Rightarrow>
          (case na_Required a of
             None \<Rightarrow> Inl (Errorf ''no NodeAffinity.Required set'' [])
           | Some terms \<Rightarrow>
               (case node_of_terms terms [] of
                  Inl e \<Rightarrow> Inl e
                | Inr node \<Rightarrow> if node = [] then Inl (Errorf ''cannot find affinited node'' []) else Inr node)))"

definition hasSupportedProvisionerOrFinalizer :: "(string \<Rightarrow> storage_provisioner option) \<Rightarrow> objmeta \<Rightarrow> bool" where
  "hasSupportedProvisionerOrFinalizer provisioners obj \<longleftrightarrow>
     resolveProvisioner obj provisioners \<noteq> None \<or> HasString (m_Finalizers obj) finalizer"

definition hasDeletionTimestamp :: "objmeta \<Rightarrow> bool" where
  "hasDeletionTimestamp obj \<longleftrightarrow> m_DeletionTimestamp obj \<noteq> None"

definition pvcToRequestMapper :: "pvc option \<Rightarrow> nsname list" where
  "pvcToRequestMapper obj =
     (case obj of
        None \<Rightarrow> []
      | Some claim \<Rightarrow>
          if pvc_VolumeName claim = [] then []
          else [\<lparr>nn_Name = pvc_VolumeName claim, nn_Namespace = []\<rparr>])"


section \<open>What each part may do\<close>

lemma deprovisioner_name_simps [simp]: "deprovisioner_name \<noteq> []" "length deprovisioner_name = 13"
  by (simp_all add: deprovisioner_name_def)

text \<open>The volume the handler works on: the one it was given or one it has read since.\<close>
definition current :: "pv \<Rightarrow> entry list \<Rightarrow> pv \<Rightarrow> bool" where
  "current pv0 t pv \<longleftrightarrow> pv = pv0 \<or> (\<exists>n. OnPV (DoGet n None pv) \<in> set t)"

definition claim_of :: "objref \<Rightarrow> nsname" where
  "claim_of ref = \<lparr>nn_Name = r_Name ref, nn_Namespace = r_Namespace ref\<rparr>"

definition detached :: "extlib \<Rightarrow> pv \<Rightarrow> objref \<Rightarrow> pv" where
  "detached x pv ref = (setClaimRefAnnotation x pv ref)\<lparr>pv_spec :=
     (pv_spec (setClaimRefAnnotation x pv ref))\<lparr>s_ClaimRef := None\<rparr>\<rparr>"

text \<open>The reference is taken off a volume only when its claim is known to be gone.\<close>
definition detaches :: "extlib \<Rightarrow> pv_reconciler \<Rightarrow> pv \<Rightarrow> entry list \<Rightarrow> pv \<Rightarrow> bool" where
  "detaches x r pv0 t pv' \<longleftrightarrow> (\<exists>pv ref e q. current pv0 t pv \<and> pv_Phase pv \<noteq> VolumeBound
     \<and> s_ClaimRef (pv_spec pv) = Some ref \<and> IsNotFound e \<and> OnPVC (DoGet (claim_of ref) (Some e) q) \<in> set t
     \<and> resolveProvisioner (pv_meta pv) (vr_Provisioners r) \<noteq> None \<and> pv' = detached x pv ref)"

definition checks :: "extlib \<Rightarrow> pv_reconciler \<Rightarrow> pv \<Rightarrow> entry list \<Rightarrow> entry \<Rightarrow> bool" where
  "checks x r pv0 t y \<longleftrightarrow> (\<exists>v. y = OnPVC v \<and> verb_reads v) \<or> (\<exists>v. y = OnPV v \<and> verb_reads v)
     \<or> (\<exists>pv' e. y = OnPV (DoUpdate pv' e) \<and> detaches x r pv0 t pv')"

definition releasable :: "pv \<Rightarrow> entry list \<Rightarrow> pv \<Rightarrow> bool" where
  "releasable pv0 t pv \<longleftrightarrow> current pv0 t pv \<and> pv_Phase pv \<noteq> VolumeBound \<and> s_ClaimRef (pv_spec pv) = None
     \<and> (\<forall>n q. OnPVC (DoGet n None q) \<notin> set t)"

lemma current_later: "current pv1 u pv \<Longrightarrow> OnPV (DoGet n None pv1) \<in> set t \<Longrightarrow> set u \<subseteq> set t \<Longrightarrow> current pv0 t pv"
  unfolding current_def by blast

lemma checks_mono: "checks x r pv t y \<Longrightarrow> set t \<subseteq> set t' \<Longrightarrow> checks x r pv t' y"
  unfolding checks_def detaches_def current_def by blast

lemma checks_later:
  assumes "checks x r pv1 u y" "OnPV (DoGet n None pv1) \<in> set t" "set u \<subseteq> set t"
  shows "checks x r pv0 t y"
proof -
  have "detaches x r pv0 t pv'" if "detaches x r pv1 u pv'" for pv'
    using that current_later [of pv1 u _ n t pv0] assms(2,3) unfolding detaches_def by blast
  with assms(1) show ?thesis unfolding checks_def by blast
qed

lemma canDeprovision_loop_run:
  "tspec (canDeprovision_loop x c r i pv err) (\<lambda>o1 t. o1 \<noteq> Panic \<and> (\<forall>y \<in> set t. checks x r pv t y)
     \<and> (\<forall>e pv1. o1 = Ret (True, e, pv1) \<longrightarrow> e = None \<and> releasable pv t pv1))"
proof (induction i arbitrary: pv err)
  case 0
  show ?case by (simp add: tspec_ret)
next
  case (Suc i)
  show ?case
    unfolding canDeprovision_loop.simps Let_def
    unfolding detached_def [symmetric] claim_of_def [symmetric]
  proof (intro tspec_intros, goal_cases)
    case (6 ref _ q err1 _ _ _ err2 pv2 e _ _ err3 pv3)
    let ?g = "OnPV (DoGet \<lparr>nn_Name = m_Name (pv_meta pv2), nn_Namespace = m_Namespace (pv_meta pv2)\<rparr> None pv3)"
    let ?t = "\<lambda>u. OnPVC (DoGet (claim_of ref) err1 q) # OnPV (DoUpdate (detached x pv ref) err2) # ?g # u"
    have d: "detaches x r pv (?t u) (detached x pv ref)" for u
      using 6 unfolding detaches_def current_def by fastforce
    have later: "checks x r pv (?t u) y" if "checks x r pv3 u y" for u y
      by (rule checks_later [OF that, of "\<lparr>nn_Name = m_Name (pv_meta pv2), nn_Namespace = m_Namespace (pv_meta pv2)\<rparr>"]) auto
    have rel: "releasable pv (?t u) pv1" if "releasable pv3 u pv1" for u pv1
      using that 6 by (auto simp: releasable_def current_def)
    show ?case
      by (rule tspec_mono [OF Suc.IH]) (use 6 d later rel in \<open>auto simp: checks_def\<close>)
  qed (auto simp: checks_def releasable_def current_def detaches_def)
qed


definition pv_notice :: "entry \<Rightarrow> bool" where
  "pv_notice y \<longleftrightarrow> (\<exists>pv ty rs m. y = PVEvent pv ty rs m) \<or> (\<exists>ref ty rs m. y = RefEvent ref ty rs m)"

lemma pv_event_run: "tspec (pv_event x pv ty rs m) (\<lambda>o1 t. o1 = Ret () \<and> (\<forall>y \<in> set t. pv_notice y))"
  unfolding pv_event_def by (intro tspec_intros tspec_emit) (auto simp: pv_notice_def)

lemma tspec_bind_pv_event:
  assumes "\<And>t. \<forall>y \<in> set t. pv_notice y \<Longrightarrow> tspec (f ()) (\<lambda>o1 u. P o1 (t @ u))"
  shows "tspec (bind (pv_event x pv ty rs m) f) P"
  by (rule tspec_bind [OF pv_event_run]) (auto intro: assms)

definition deprovisioner_pod :: "pv_reconciler \<Rightarrow> pv \<Rightarrow> nsname \<Rightarrow> bool" where
  "deprovisioner_pod r pv n \<longleftrightarrow> ResourceName (m_Name (pv_meta pv)) deprovisioner_name = Ret (nn_Name n)
     \<and> nn_Namespace n = vr_ManagerNamespace r"

text \<open>The volume marked as deprovisioned.\<close>
definition marked :: "pv \<Rightarrow> pv" where
  "marked pv = pv\<lparr>pv_meta := (pv_meta pv)\<lparr>m_Annotations :=
     mput (m_Annotations (pv_meta pv)) annPVDisableDeprovisioner ''true''\<rparr>\<rparr>"

definition is_marked :: "pv \<Rightarrow> bool" where
  "is_marked pv \<longleftrightarrow> mget (m_Annotations (pv_meta pv)) annPVDisableDeprovisioner = ''true''"

definition deprovisioning :: "(go_error + pod) outcome \<Rightarrow> entry list \<Rightarrow> bool" where
  "deprovisioning o1 t \<longleftrightarrow> o1 \<noteq> Panic \<and> (\<forall>y \<in> set t. pv_notice y)"

definition marking :: "pv \<Rightarrow> (bool \<times> go_error option) outcome \<Rightarrow> entry list \<Rightarrow> bool" where
  "marking pv o1 t \<longleftrightarrow> (\<exists>e. o1 = Ret (False, e) \<and> t = [OnPV (DoUpdate (marked pv) e)])"

lemma deprovision_create_run: "tspec (deprovision_create x pv p n) deprovisioning"
  unfolding deprovision_create_def
  by (intro tspec_intros tspec_bind_pv_event) (auto simp: deprovisioning_def)

lemma deprovision_completed_run:
  "m_Annotations (pv_meta pv) \<noteq> None \<Longrightarrow> tspec (deprovision_completed c pv) (marking pv)"
  unfolding deprovision_completed_def by (intro tspec_intros) (auto simp: marking_def marked_def)

lemma deprovision_job_simps [simp]:
  "jq_Name (deprovision_job x c pv p n b) = deprovisioner_name"
  "jq_PodName (deprovision_job x c pv p n b) = n"
  "jq_OwnerEvent (deprovision_job x c pv p n b) = PVEvent pv"
  "jq_ShouldRun (deprovision_job x c pv p n b) = b"
  "jq_Create (deprovision_job x c pv p n b) = deprovision_create x pv p n"
  "jq_OnCompleted (deprovision_job x c pv p n b) = (\<lambda>_. deprovision_completed c pv)"
  by (simp_all add: deprovision_job_def)

text \<open>What deprovisioning a volume may do: the mark is set only after the pod was seen to succeed.\<close>
definition deprovisions :: "pv_reconciler \<Rightarrow> pv \<Rightarrow> entry list \<Rightarrow> entry \<Rightarrow> bool" where
  "deprovisions r pv t y \<longleftrightarrow> pv_notice y
     \<or> (\<exists>v. y = OnPod v \<and> (\<forall>p e. v = DoCreate p e \<longrightarrow> \<not> is_marked pv
          \<and> deprovisioner_pod r pv \<lparr>nn_Name = m_Name (pod_meta p), nn_Namespace = m_Namespace (pod_meta p)\<rparr>
          \<and> p_RestartPolicy (pod_spec p) = RestartPolicyNever))
     \<or> (\<exists>e n pod. y = OnPV (DoUpdate (marked pv) e) \<and> \<not> is_marked pv \<and> deprovisioner_pod r pv n
          \<and> OnPod (DoGet n None pod) \<in> set t \<and> pod_Phase pod = PodSucceeded)"

lemma deprovisions_mono: "deprovisions r pv t y \<Longrightarrow> set t \<subseteq> set t' \<Longrightarrow> deprovisions r pv t' y"
  unfolding deprovisions_def by blast

lemma deprovision_job_run:
  assumes "m_Annotations (pv_meta pv) \<noteq> None" and m: "\<not> is_marked pv" and n: "deprovisioner_pod r pv n"
  shows "tspec (ReconcileJob c pv_jobs (deprovision_job x c pv p n True)) (\<lambda>o1 t.
    o1 \<noteq> Panic \<and> o1 \<noteq> Ret (True, None) \<and> (\<forall>y \<in> set t. deprovisions r pv t y))"
proof -
  let ?q = "deprovision_job x c pv p n True"
  have q: "jq_ShouldRun ?q" "jq_Name ?q \<noteq> []" "tspec (jq_Create ?q) deprovisioning"
    "\<And>pod. tspec (jq_OnCompleted ?q pod) (marking pv)"
    by (simp_all add: deprovision_create_run deprovision_completed_run assms(1))
  have "tspec (ReconcileJob c pv_jobs ?q) (\<lambda>o1 t. o1 \<noteq> Panic)"
    by (rule tspec_mono [OF job.run_panic [OF q]]) (auto simp: deprovisioning_def marking_def)
  moreover have "tspec (ReconcileJob c pv_jobs ?q) (\<lambda>o1 t. o1 \<noteq> Ret (True, None))"
    by (rule job.run_not_done [OF q]) (simp add: marking_def)
  moreover have cr: "tspec (ReconcileJob c pv_jobs ?q) (\<lambda>o1 t. \<forall>p e. OnPod (DoCreate p e) \<in> set t \<longrightarrow>
      m_Name (pod_meta p) = nn_Name (jq_PodName ?q) \<and> m_Namespace (pod_meta p) = nn_Namespace (jq_PodName ?q)
      \<and> p_RestartPolicy (pod_spec p) = RestartPolicyNever
      \<and> (\<exists>e' p' u. IsNotFound e' \<and> t = OnPod (DoGet (jq_PodName ?q) (Some e') p') # u))"
    by (rule job.run_creates [OF q]) (auto simp: deprovisioning_def marking_def pv_notice_def)
  have "tspec (ReconcileJob c pv_jobs ?q) (\<lambda>o1 t. \<forall>y \<in> set t. deprovisions r pv t y)"
  proof (rule tspec_mono [OF tspec_conj [OF cr job.run_entries [OF q]]], elim conjE, intro ballI, goal_cases)
    case (1 o1 t y)
    from 1(2,3) consider v where "y = OnPod v" | "pv_notice y"
      | pod e where "y = OnPV (DoUpdate (marked pv) e)" "pod_Phase pod = PodSucceeded" "OnPod (DoGet n None pod) \<in> set t"
      unfolding deprovision_job_simps deprovisioning_def marking_def pv_notice_def by fastforce
    then show ?case
    proof cases
      case (1 v)
      with \<open>\<forall>p e. _\<close> \<open>y \<in> set t\<close> m n show ?thesis by (auto simp: deprovisions_def deprovisioner_pod_def)
    next
      case 2
      then show ?thesis by (simp add: deprovisions_def)
    next
      case (3 pod e)
      with m n show ?thesis unfolding deprovisions_def by blast
    qed
  qed
  with calculation show ?thesis by (intro tspec_conj)
qed


text \<open>Deprovisioning is done only for a marked volume, when the last thing seen is that its pod is gone.\<close>
definition deprovisioned :: "pv_reconciler \<Rightarrow> pv \<Rightarrow> entry list \<Rightarrow> bool" where
  "deprovisioned r pv t \<longleftrightarrow> is_marked pv \<and> (\<exists>n. deprovisioner_pod r pv n \<and> pod_gone n t)"

lemma deprovisionVolume_run:
  "tspec (deprovisionVolume x c r pv) (\<lambda>o1 t. o1 \<noteq> Panic \<and> (\<forall>y \<in> set t. deprovisions r pv t y)
     \<and> (o1 = Ret (True, None) \<longrightarrow> deprovisioned r pv t))"
proof (cases "mget (m_Annotations (pv_meta pv)) annStorageProvisionerSpec = []")
  case True
  then show ?thesis unfolding deprovisionVolume_def Let_def
    by (auto intro!: tspec_bind_pv_event tspec_ret simp: deprovisions_def)
next
  case False
  note json = this
  then have ann: "m_Annotations (pv_meta pv) \<noteq> None" by (rule mget_nonempty_nonnil)
  obtain p err where p: "StorageProvisionerFromJSON x (mget (m_Annotations (pv_meta pv)) annStorageProvisionerSpec) = (p, err)"
    by fastforce
  obtain nm where nm: "ResourceName (m_Name (pv_meta pv)) deprovisioner_name = Ret nm"
    using ResourceName_bounds [of deprovisioner_name "m_Name (pv_meta pv)"] by auto
  let ?n = "\<lparr>nn_Name = nm, nn_Namespace = vr_ManagerNamespace r\<rparr>"
  have n: "deprovisioner_pod r pv ?n" by (simp add: deprovisioner_pod_def nm)
  have job: "tspec (ReconcileJob c pv_jobs (deprovision_job x c pv p ?n (\<not> is_marked pv))) (\<lambda>o1 t.
      o1 \<noteq> Panic \<and> (o1 = Ret (True, None) \<longrightarrow> deprovisioned r pv t) \<and> (\<forall>y \<in> set t. deprovisions r pv t y))"
  proof (cases "is_marked pv")
    case True
    then have idle: "\<not> jq_ShouldRun (deprovision_job x c pv p ?n (\<not> is_marked pv))" by simp
    show ?thesis
      by (rule tspec_mono [OF job.run_idle [OF idle]])
         (use True n in \<open>auto simp: deprovisioned_def deprovisions_def dest: idle_run_pods idle_run_done\<close>)
  next
    case False
    then have "(\<not> is_marked pv) = True" by simp
    then show ?thesis using deprovision_job_run [OF ann False n, of c x p] by (auto elim: tspec_mono)
  qed
  show ?thesis
  proof (cases err)
    case (Some e)
    with p json show ?thesis unfolding deprovisionVolume_def Let_def
      by (auto intro!: tspec_bind_pv_event tspec_ret simp: deprovisions_def)
  next
    case None
    have needs: "(m_Annotations (pv_meta pv) \<noteq> None \<and> mget (m_Annotations (pv_meta pv)) annPVDisableDeprovisioner \<noteq> ''true'')
        = (\<not> is_marked pv)"
      using ann by (simp add: is_marked_def)
    show ?thesis
      unfolding deprovisionVolume_def Let_def p None prod.case option.case nm lift_simps bind_simps needs
        if_not_P [OF json]
    proof (rule tspec_bind [OF job], goal_cases)
      case (1 res t)
      have notice: "pv_notice y \<Longrightarrow> deprovisions r pv u y" for y u by (simp add: deprovisions_def)
      have t: "\<forall>y \<in> set t. deprovisions r pv (t @ u) y" for u
        using 1 by (auto elim!: deprovisions_mono)
      show ?case using 1 t notice by (cases res) (auto intro!: tspec_intros tspec_bind_pv_event)
    qed simp
  qed
qed

lemma canDeprovision_run:
  "tspec (canDeprovision x c r pv) (\<lambda>o1 t. o1 \<noteq> Panic \<and> (\<forall>y \<in> set t. checks x r pv t y)
     \<and> (\<forall>e pv1. o1 = Ret (True, e, pv1) \<longrightarrow> e = None \<and> releasable pv t pv1))"
  unfolding canDeprovision_def by (rule canDeprovision_loop_run)

definition without_finalizer :: "pv \<Rightarrow> pv" where
  "without_finalizer pv = pv\<lparr>pv_meta := (pv_meta pv)\<lparr>m_Finalizers :=
     filter (\<lambda>f. f \<noteq> finalizer) (m_Finalizers (pv_meta pv))\<rparr>\<rparr>"

text \<open>The runs for a volume that is being deleted and carries the finalizer.\<close>
definition finalizes :: "extlib \<Rightarrow> pv_reconciler \<Rightarrow> pv \<Rightarrow> entry list \<Rightarrow> entry \<Rightarrow> bool" where
  "finalizes x r pv t y \<longleftrightarrow> pv_notice y \<or> checks x r pv t y
     \<or> (\<exists>pv1 u v. t = u @ v \<and> releasable pv u pv1 \<and> deprovisions r pv1 v y)
     \<or> (\<exists>pv1 e u v v'. t = u @ v @ y # v' \<and> releasable pv u pv1 \<and> deprovisioned r pv1 v
          \<and> y = OnPV (DoStatusUpdate (without_finalizer pv1) e))"

lemma pv_release_run:
  assumes rel: "releasable pv t pv1" and t: "\<And>y u. y \<in> set t \<Longrightarrow> finalizes x r pv (t @ u) y"
  shows "tspec (bind (deprovisionVolume x c r pv1) (\<lambda>(done, err).
      if err \<noteq> None \<or> \<not> done then ret err
      else
        bind (k_status_update (cl_pv c) OnPV (without_finalizer pv1)) (\<lambda>(err, pv2).
        case err of
          Some e \<Rightarrow> ret (Some e)
        | None \<Rightarrow>
            bind (pv_event x pv2 Normal ''Deprovisioned'' ''Deprovisioned PersistentVolume'') (\<lambda>_. ret None))))
    (\<lambda>o1 u. o1 \<noteq> Panic \<and> (\<forall>y \<in> set (t @ u). finalizes x r pv (t @ u) y))"
proof (rule tspec_bind [OF deprovisionVolume_run], goal_cases)
  case (1 res u)
  have u: "finalizes x r pv (t @ u @ v) y" if "y \<in> set u" for y v
    using 1 that rel deprovisions_mono [of r pv1 u y "u @ v"] unfolding finalizes_def by fastforce
  show ?case
  proof (cases "res = (True, None)")
    case False
    with t u [of _ "[]"] show ?thesis by (cases res) (auto intro!: tspec_ret)
  next
    case True
    with 1 have dep: "deprovisioned r pv1 u" by simp
    have upd: "finalizes x r pv (t @ u @ y # v) y"
      if "y = OnPV (DoStatusUpdate (without_finalizer pv1) e)" for y e v
      using that rel dep unfolding finalizes_def by blast
    have notice: "pv_notice y \<Longrightarrow> finalizes x r pv v y" for y v by (simp add: finalizes_def)
    show ?thesis unfolding True using t u upd notice
      by (auto intro!: tspec_intros tspec_bind_pv_event)
  qed
qed simp

lemma pv_Reconcile_run:
  "tspec (pv_Reconcile x c r req) (\<lambda>o1 t. o1 \<noteq> Panic \<and> (\<exists>err pv u. t = OnPV (DoGet req err pv) # u
     \<and> (u \<noteq> [] \<longrightarrow> err = None \<and> m_DeletionTimestamp (pv_meta pv) \<noteq> None
          \<and> finalizer \<in> set (m_Finalizers (pv_meta pv)) \<and> (\<forall>y \<in> set u. finalizes x r pv u y))))"
  unfolding pv_Reconcile_def string_list_eqs fst_conv without_finalizer_def [symmetric]
proof (rule tspec_bind_k_get, simp only: prod.case, intro tspec_option tspec_if, goal_cases)
  case (2 err pv)
  show ?case
  proof (rule tspec_bind [OF canDeprovision_run], goal_cases)
    case (1 res t)
    have t: "finalizes x r pv (t @ u) y" if "y \<in> set t" for y u
      using 1 that checks_mono [of x r pv t y "t @ u"] by (auto simp: finalizes_def)
    obtain should e pv1 where res: "res = (should, e, pv1)" by (cases res)
    show ?case
    proof (cases "should \<and> e = None")
      case False
      with 2 t [of _ "[]"] res show ?thesis by (auto intro!: tspec_ret)
    next
      case True
      with 1 res have rel: "releasable pv t pv1" by auto
      from True have st: "should = True" "e = None" by auto
      show ?thesis
        unfolding res st prod.case simp_thms if_False
        by (rule tspec_mono [OF pv_release_run [OF rel t]]) (use 2 in auto)
    qed
  qed simp
qed (auto intro!: tspec_ret)


section \<open>Properties\<close>

lemma pv_entry:
  assumes "y \<in> set (run_trace (pv_Reconcile x c r req) w)" and "\<And>e pv. y \<noteq> OnPV (DoGet req e pv)"
  obtains pv u where "run_trace (pv_Reconcile x c r req) w = OnPV (DoGet req None pv) # u"
    "m_DeletionTimestamp (pv_meta pv) \<noteq> None" "finalizer \<in> set (m_Finalizers (pv_meta pv))" "finalizes x r pv u y"
  using tspec_run [OF pv_Reconcile_run, of x c r req w] assms by fastforce

lemma no_notice [simp]: "\<not> pv_notice (OnPV v)" "\<not> pv_notice (OnPVC v')" "\<not> pv_notice (OnPod v'')"
  by (simp_all add: pv_notice_def)

text \<open>Volumes and clients the properties are applied to.\<close>
definition example_pv :: "string \<Rightarrow> objref option \<Rightarrow> pv" where
  "example_pv mark ref = zero_pv\<lparr>pv_meta := zero_meta\<lparr>m_Name := ''pvc-1'', m_DeletionTimestamp := Some 1,
       m_Finalizers := [finalizer],
       m_Annotations := Some [annStorageProvisionerSpec \<mapsto> ''spec'', annPVDisableDeprovisioner \<mapsto> mark]\<rparr>,
     pv_spec := zero_pvspec\<lparr>s_ClaimRef := ref\<rparr>\<rparr>"

definition json_ext :: extlib where
  "json_ext = plain_ext\<lparr>x_unmarshal := \<lambda>_ _. (None, example_provisioner)\<rparr>"

definition example_ref :: objref where
  "example_ref = \<lparr>r_APIVersion = [], r_Kind = [], r_Name = ''claim'', r_Namespace = [], r_UID = [], r_ResourceVersion = []\<rparr>"

definition example_pv_run :: "pv \<Rightarrow> go_error option \<times> pod \<Rightarrow> (unit, go_error option) prog" where
  "example_pv_run pv pod = pv_Reconcile json_ext
     (answering_client (None, example_claim None) (None, pv) pod (None, zero_sc))
     \<lparr>vr_ManagerNamespace = ''mgr'', vr_Provisioners = (\<lambda>n. None)\<rparr> \<lparr>nn_Name = ''pvc-1'', nn_Namespace = []\<rparr>"

lemma ann_pv_distinct [simp]:
  "annStorageProvisionerSpec \<noteq> annPVDisableDeprovisioner" "annPVDisableDeprovisioner \<noteq> annStorageProvisionerSpec"
  "annPVClaimRef \<noteq> annPVDisableDeprovisioner" "annPVClaimRef \<noteq> annStorageProvisionerSpec"
  by (simp_all add: annStorageProvisionerSpec_def annPVDisableDeprovisioner_def annPVClaimRef_def)

lemma example_pv_simps:
  "m_DeletionTimestamp (pv_meta (example_pv mark ref)) = Some 1"
  "m_Finalizers (pv_meta (example_pv mark ref)) = [finalizer]"
  "pv_Phase (example_pv mark ref) \<noteq> VolumeBound"
  "s_ClaimRef (pv_spec (example_pv mark ref)) = ref"
  "m_Name (pv_meta (example_pv mark ref)) = ''pvc-1''"
  "mget (m_Annotations (pv_meta (example_pv mark ref))) annStorageProvisionerSpec = ''spec''"
  "mget (m_Annotations (pv_meta (example_pv mark ref))) annPVDisableDeprovisioner = mark"
  "m_Annotations (pv_meta (example_pv mark ref)) \<noteq> None"
  by (simp_all add: example_pv_def zero_pv_def zero_pvspec_def zero_meta_def VolumeBound_def mget_Some)

lemma example_depod_name: "ResourceName ''pvc-1'' deprovisioner_name = Ret ''pvc-1-deprovisioner''"
  by (simp add: ResourceName_short) (simp add: deprovisioner_name_def)

lemma example_deupper: "name_upper deprovisioner_name = Ret ''Deprovisioner''"
  unfolding deprovisioner_name_def name_upper_def ToUpper_def by code_simp

lemma json_ext_FromJSON: "StorageProvisionerFromJSON json_ext js = (example_provisioner, None)"
  by (simp add: StorageProvisionerFromJSON_def json_ext_def)

lemmas pv_exec = example_pv_run_def pv_Reconcile_def canDeprovision_def numeral_2_eq_2 deprovisionVolume_def
  example_pv_simps example_depod_name example_deupper json_ext_FromJSON string_list_eqs run_exec
  ReconcileJob_def ReconcilePod_def DeletePod_def bindR_def Let_def exec_simps

lemma example_pv_finalized:
  "OnPV (DoStatusUpdate (without_finalizer (example_pv ''true'' None)) None)
     \<in> set (run_trace (example_pv_run (example_pv ''true'' None) (Some not_found, zero_pod)) ())"
  by (simp add: pv_exec without_finalizer_def pv_event_def getClaimRef_def split: option.splits)

lemma example_pv_marked:
  "OnPV (DoUpdate (marked (example_pv [] None)) None)
     \<in> set (run_trace (example_pv_run (example_pv [] None) (None, example_pod)) ())"
  by (simp add: pv_exec example_pod_def deprovision_completed_def marked_def)

text \<open>
  C1. The controller removes its finalizer from a volume only as the end of a deprovisioning: the
  volume is being deleted, is not bound and refers to no claim, it is marked as deprovisioned, and the
  last thing seen before the removal is that its deprovisioner pod does not exist.  The volume can
  therefore not disappear before the deprovisioner has done its work.
\<close>
theorem volume_finalizer_removed_last:
  assumes "OnPV (DoStatusUpdate pv' e) \<in> set (run_trace (pv_Reconcile x c r req) w)"
  shows "\<exists>pv0 pv u v v'. run_trace (pv_Reconcile x c r req) w =
      OnPV (DoGet req None pv0) # u @ v @ OnPV (DoStatusUpdate pv' e) # v'
    \<and> m_DeletionTimestamp (pv_meta pv0) \<noteq> None \<and> finalizer \<in> set (m_Finalizers (pv_meta pv0))
    \<and> current pv0 u pv \<and> pv_Phase pv \<noteq> VolumeBound \<and> s_ClaimRef (pv_spec pv) = None
    \<and> is_marked pv \<and> (\<exists>n. deprovisioner_pod r pv n \<and> pod_gone n v)
    \<and> pv' = without_finalizer pv"
proof (rule pv_entry [OF assms])
  fix pv0 t
  assume t: "run_trace (pv_Reconcile x c r req) w = OnPV (DoGet req None pv0) # t"
    and p: "m_DeletionTimestamp (pv_meta pv0) \<noteq> None" "finalizer \<in> set (m_Finalizers (pv_meta pv0))"
    and f: "finalizes x r pv0 t (OnPV (DoStatusUpdate pv' e))"
  from f obtain pv u v v' where s: "t = u @ v @ OnPV (DoStatusUpdate pv' e) # v'" "releasable pv0 u pv"
      "deprovisioned r pv v" "pv' = without_finalizer pv"
    by (auto simp: finalizes_def checks_def deprovisions_def)
  with t p show ?thesis unfolding releasable_def deprovisioned_def by blast
qed simp

theorem volume_finalizer_removed_last_witness:
  "OnPV (DoStatusUpdate (without_finalizer (example_pv ''true'' None)) None)
     \<in> set (run_trace (example_pv_run (example_pv ''true'' None) (Some not_found, zero_pod)) ())
   \<and> (\<exists>pv n v. is_marked pv \<and> pod_gone n v)"
  using volume_finalizer_removed_last [OF example_pv_finalized [unfolded example_pv_run_def]] example_pv_finalized
  by blast

text \<open>
  C6. The controller changes a volume otherwise in two ways only: it takes off the reference to a claim
  that it has just seen to be gone, keeping the reference in an annotation, for an unbound volume of a
  known provisioner; or it marks an unbound, unclaimed volume as deprovisioned, after it has seen the
  deprovisioner pod succeed.
\<close>
theorem volume_updates:
  assumes "OnPV (DoUpdate pv' e) \<in> set (run_trace (pv_Reconcile x c r req) w)"
  shows "\<exists>pv0 u. run_trace (pv_Reconcile x c r req) w = OnPV (DoGet req None pv0) # u
    \<and> m_DeletionTimestamp (pv_meta pv0) \<noteq> None
    \<and> (\<exists>pv. current pv0 u pv \<and> pv_Phase pv \<noteq> VolumeBound
        \<and> ((\<exists>ref e' q. s_ClaimRef (pv_spec pv) = Some ref \<and> pv' = detached x pv ref
              \<and> IsNotFound e' \<and> OnPVC (DoGet (claim_of ref) (Some e') q) \<in> set u
              \<and> resolveProvisioner (pv_meta pv) (vr_Provisioners r) \<noteq> None)
          \<or> (\<exists>n pod. s_ClaimRef (pv_spec pv) = None \<and> pv' = marked pv \<and> \<not> is_marked pv
              \<and> deprovisioner_pod r pv n \<and> OnPod (DoGet n None pod) \<in> set u \<and> pod_Phase pod = PodSucceeded)))"
proof (rule pv_entry [OF assms])
  fix pv0 t
  assume t: "run_trace (pv_Reconcile x c r req) w = OnPV (DoGet req None pv0) # t"
    and p: "m_DeletionTimestamp (pv_meta pv0) \<noteq> None" and f: "finalizes x r pv0 t (OnPV (DoUpdate pv' e))"
  from f consider "detaches x r pv0 t pv'"
    | pv u v where "t = u @ v" "releasable pv0 u pv" "deprovisions r pv v (OnPV (DoUpdate pv' e))"
    by (auto simp: finalizes_def checks_def)
  then show ?thesis
  proof cases
    case 1
    with t p show ?thesis unfolding detaches_def by blast
  next
    case (2 pv u v)
    then obtain n pod where "pv' = marked pv" "\<not> is_marked pv" "deprovisioner_pod r pv n"
        "OnPod (DoGet n None pod) \<in> set t" "pod_Phase pod = PodSucceeded"
      by (auto simp: deprovisions_def)
    moreover have "current pv0 t pv" "pv_Phase pv \<noteq> VolumeBound" "s_ClaimRef (pv_spec pv) = None"
      using 2 by (auto simp: releasable_def current_def)
    ultimately show ?thesis using t p by blast
  qed
qed simp

theorem volume_updates_witness:
  "OnPV (DoUpdate (marked (example_pv [] None)) None)
     \<in> set (run_trace (example_pv_run (example_pv [] None) (None, example_pod)) ())
   \<and> (\<exists>pv0 u. run_trace (example_pv_run (example_pv [] None) (None, example_pod)) () =
        OnPV (DoGet \<lparr>nn_Name = ''pvc-1'', nn_Namespace = []\<rparr> None pv0) # u)"
  using volume_updates [OF example_pv_marked [unfolded example_pv_run_def]] example_pv_marked
  unfolding example_pv_run_def by blast

text \<open>
  C24. A deprovisioner pod is created only for a volume that is being deleted, carries the finalizer, is
  unbound and unclaimed and has not been deprovisioned before; the pod has the name derived from the
  volume, lives in the manager's namespace and is never restarted.
\<close>
theorem deprovisioner_pod_created_when_released:
  assumes "OnPod (DoCreate p e) \<in> set (run_trace (pv_Reconcile x c r req) w)"
  shows "\<exists>pv0 pv u v. run_trace (pv_Reconcile x c r req) w = OnPV (DoGet req None pv0) # u @ v
    \<and> m_DeletionTimestamp (pv_meta pv0) \<noteq> None \<and> finalizer \<in> set (m_Finalizers (pv_meta pv0))
    \<and> current pv0 u pv \<and> pv_Phase pv \<noteq> VolumeBound \<and> s_ClaimRef (pv_spec pv) = None \<and> \<not> is_marked pv
    \<and> (\<forall>n q. OnPVC (DoGet n None q) \<notin> set u)
    \<and> deprovisioner_pod r pv \<lparr>nn_Name = m_Name (pod_meta p), nn_Namespace = m_Namespace (pod_meta p)\<rparr>
    \<and> p_RestartPolicy (pod_spec p) = RestartPolicyNever"
proof (rule pv_entry [OF assms])
  fix pv0 t
  assume t: "run_trace (pv_Reconcile x c r req) w = OnPV (DoGet req None pv0) # t"
    and p: "m_DeletionTimestamp (pv_meta pv0) \<noteq> None" "finalizer \<in> set (m_Finalizers (pv_meta pv0))"
    and f: "finalizes x r pv0 t (OnPod (DoCreate p e))"
  from f obtain pv u v where s: "t = u @ v" "releasable pv0 u pv" "deprovisions r pv v (OnPod (DoCreate p e))"
    by (auto simp: finalizes_def checks_def)
  from s(3) have "\<not> is_marked pv" "p_RestartPolicy (pod_spec p) = RestartPolicyNever"
      "deprovisioner_pod r pv \<lparr>nn_Name = m_Name (pod_meta p), nn_Namespace = m_Namespace (pod_meta p)\<rparr>"
    by (auto simp: deprovisions_def)
  with t p s(1,2) show ?thesis unfolding releasable_def by blast
qed simp


lemma example_deprovision_create:
  "\<exists>pod. (deprovision_create json_ext (example_pv [] None) example_provisioner n :: (unit, go_error + pod) prog) =
     bind (pv_event json_ext (example_pv [] None) Normal ''Deprovisioning'' ''Deprovisioning PersistentVolume'')
       (\<lambda>_. ret (Inr pod))"
proof -
  have "AnnotationsToEnv (pv_meta (example_pv [] None)) (ps_Env (sp_spec example_provisioner)) = ([], None)"
    by (simp add: AnnotationsToEnv_def example_defs)
  moreover obtain pod p' where "NewProvisionerPod \<lparr>so_PodName = n, so_ContainerName = deprovisioner_name,
      so_SubstitutedProvisioner = example_provisioner,
      so_Container = cs_Deprovisioner (ps_Containers (sp_spec example_provisioner)), so_Env = []\<rparr> = Inr (pod, p')"
    by (fastforce simp: NewProvisionerPod_def Let_def command_len_def merge_container_def example_defs)
  ultimately show ?thesis by (intro exI) (simp add: deprovision_create_def)
qed

lemma example_creates_depod:
  "\<exists>p e. OnPod (DoCreate p e)
     \<in> set (run_trace (example_pv_run (example_pv [] None) (Some not_found, zero_pod)) ())"
proof -
  obtain pod where "(deprovision_create json_ext (example_pv [] None) example_provisioner
      \<lparr>nn_Name = ''pvc-1-deprovisioner'', nn_Namespace = ''mgr''\<rparr> :: (unit, go_error + pod) prog) =
     bind (pv_event json_ext (example_pv [] None) Normal ''Deprovisioning'' ''Deprovisioning PersistentVolume'')
       (\<lambda>_. ret (Inr pod))"
    using example_deprovision_create by blast
  then show ?thesis
    by (simp add: pv_exec pv_event_def getClaimRef_def split: option.splits)
qed

theorem deprovisioner_pod_created_when_released_witness:
  "\<exists>p e. OnPod (DoCreate p e)
     \<in> set (run_trace (example_pv_run (example_pv [] None) (Some not_found, zero_pod)) ())
     \<and> p_RestartPolicy (pod_spec p) = RestartPolicyNever"
proof -
  obtain p e where p: "OnPod (DoCreate p e)
     \<in> set (run_trace (example_pv_run (example_pv [] None) (Some not_found, zero_pod)) ())"
    using example_creates_depod by blast
  from deprovisioner_pod_created_when_released [OF p [unfolded example_pv_run_def]] p show ?thesis by blast
qed

lemma claim_seen_run:
  "tspec (pv_Reconcile x c r req) (\<lambda>o1 t. (\<exists>n q. OnPVC (DoGet n None q) \<in> set t) \<longrightarrow>
     (\<forall>y \<in> set t. \<exists>pv. checks x r pv t y))"
  unfolding pv_Reconcile_def
proof (rule tspec_bind_k_get, simp only: prod.case, intro tspec_option tspec_if, goal_cases)
  case (2 err pv)
  let ?g = "OnPV (DoGet req err pv)"
  show ?case
  proof (rule tspec_bind [OF canDeprovision_run], goal_cases)
    case (1 res t)
    obtain should e pv1 where res: "res = (should, e, pv1)" by (cases res)
    have t: "checks x r pv (?g # t) y" if "y \<in> set t" for y
      using 1 that checks_mono [of x r pv t y "?g # t"] by auto
    show ?case
    proof (cases "should \<and> e = None")
      case False
      have "checks x r pv (?g # t) ?g" by (simp add: checks_def)
      with False res t show ?thesis by (auto intro!: tspec_ret exI [of _ pv])
    next
      case True
      with 1 res have rel: "releasable pv t pv1" by auto
      from True have st: "should = True" "e = None" by auto
      have no: "\<forall>n q. OnPVC (DoGet n None q) \<notin> set t" using rel by (simp add: releasable_def)
      have d: "OnPVC (DoGet n None q) \<notin> set u" if "\<forall>y \<in> set u. deprovisions r pv1 u y" for u n q
        using that by (auto simp: deprovisions_def dest: bspec [of _ _ "OnPVC (DoGet n None q)"])
      have nt: "OnPVC (DoGet n None q) \<notin> set u" if "\<forall>y \<in> set u. pv_notice y" for u n q
        using that by (auto dest: bspec [of _ _ "OnPVC (DoGet n None q)"])
      show ?thesis
        unfolding res st prod.case simp_thms if_False
      proof (rule tspec_bind [OF deprovisionVolume_run], goal_cases)
        case (1 r2 u)
        with d have "\<forall>n q. OnPVC (DoGet n None q) \<notin> set u" by blast
        with no nt show ?case
          by (cases r2) (auto intro!: tspec_intros tspec_bind_pv_event)
      qed simp
    qed
  qed simp
qed (auto intro!: tspec_ret)

text \<open>
  C7. While the claim a volume refers to still exists, the volume is left alone: no deprovisioner pod
  is created or deleted, the finalizer stays, and the only write that can have happened before the
  claim was seen is an earlier attempt to take off the reference.  The controller never panics.
\<close>
theorem claimed_volume_left_alone:
  assumes "OnPVC (DoGet n None q) \<in> set (run_trace (pv_Reconcile x c r req) w)"
  shows "list_all (\<lambda>y. (\<forall>v. y \<noteq> OnPod v) \<and> (\<forall>pv' e. y \<noteq> OnPV (DoStatusUpdate pv' e))
      \<and> (entry_writes y \<longrightarrow> (\<exists>pv pv' e. y = OnPV (DoUpdate pv' e)
           \<and> detaches x r pv (run_trace (pv_Reconcile x c r req) w) pv')))
      (run_trace (pv_Reconcile x c r req) w)
    \<and> run_result (pv_Reconcile x c r req) w \<noteq> Panic"
proof
  show "run_result (pv_Reconcile x c r req) w \<noteq> Panic"
    using tspec_run [OF pv_Reconcile_run, of x c r req w] by simp
  let ?t = "run_trace (pv_Reconcile x c r req) w"
  have "(\<forall>v. y \<noteq> OnPod v) \<and> (\<forall>pv' e. y \<noteq> OnPV (DoStatusUpdate pv' e))
      \<and> (entry_writes y \<longrightarrow> (\<exists>pv pv' e. y = OnPV (DoUpdate pv' e) \<and> detaches x r pv ?t pv'))"
    if "checks x r pv ?t y" for y pv
    using that by (auto simp: checks_def)
  with tspec_run [OF claim_seen_run, of x c r req w] assms
  show "list_all (\<lambda>y. (\<forall>v. y \<noteq> OnPod v) \<and> (\<forall>pv' e. y \<noteq> OnPV (DoStatusUpdate pv' e))
      \<and> (entry_writes y \<longrightarrow> (\<exists>pv pv' e. y = OnPV (DoUpdate pv' e) \<and> detaches x r pv ?t pv'))) ?t"
    unfolding list_all_iff by blast
qed

lemma example_claim_seen:
  "OnPVC (DoGet (claim_of example_ref) None (example_claim None))
     \<in> set (run_trace (example_pv_run (example_pv [] (Some example_ref)) (Some not_found, zero_pod)) ())"
  by (simp add: pv_exec claim_of_def)

theorem claimed_volume_left_alone_witness:
  "OnPVC (DoGet (claim_of example_ref) None (example_claim None))
     \<in> set (run_trace (example_pv_run (example_pv [] (Some example_ref)) (Some not_found, zero_pod)) ())
   \<and> run_result (example_pv_run (example_pv [] (Some example_ref)) (Some not_found, zero_pod)) () \<noteq> Panic"
  using claimed_volume_left_alone [OF example_claim_seen [unfolded example_pv_run_def]] example_claim_seen
  unfolding example_pv_run_def by blast

text \<open>
  A claim reference put into the annotation is found again: after the reference was taken off a
  volume, events about the volume still reach its claim.
\<close>
theorem claim_reference_kept:
  assumes "x_marshal_ref x ref = Inr js" and "js \<noteq> []" and "x_unmarshal_ref x js = Inr ref"
    and "s_ClaimRef (pv_spec pv) = Some ref"
  shows "getClaimRef x pv = Some ref \<and> getClaimRef x (detached x pv ref) = Some ref
    \<and> s_ClaimRef (pv_spec (detached x pv ref)) = None"
proof -
  obtain f where "mnonnil (m_Annotations (pv_meta pv)) = Some f" using mnonnil_ex by blast
  with assms show ?thesis
    by (simp add: getClaimRef_def detached_def setClaimRefAnnotation_def mput_def mget_Some Let_def)
qed


theorem claim_reference_kept_witness:
  "getClaimRef plain_ext (detached plain_ext (example_pv [] (Some example_ref)) example_ref) = Some example_ref"
  using claim_reference_kept [of plain_ext example_ref "''claim''" "example_pv [] (Some example_ref)"]
  by (simp add: plain_ext_def example_ref_def example_pv_simps)

end
