(* ===== verification/UtilConditions.thy ===== *)
theory UtilConditions
  imports ApiTypes
begin

text \<open>
  \<^verbatim>\<open>internal/utils/conditions.go\<close>: the list of status conditions of a resource.  \<open>now\<close> is the value of
  \<^verbatim>\<open>time.Now()\<close> during the call.
\<close>

fun GetCondition :: "condition list \<Rightarrow> string \<Rightarrow> condition option" where
  "GetCondition [] condType = None"
| "GetCondition (c # cs) condType = (if c_Type c = condType then Some c else GetCondition cs condType)"

text \<open>\<^verbatim>\<open>SetCondition\<close> gives back the updated list and whether anything was changed.\<close>
fun SetCondition :: "time \<Rightarrow> condition list \<Rightarrow> condition \<Rightarrow> condition list \<times> bool" where
  "SetCondition now [] newCond = ([newCond\<lparr>c_LastTransitionTime := now\<rparr>], True)"
| "SetCondition now (c # cs) newCond =
     (if c_Type c = c_Type newCond then
        (let new' = (if c_Status c = c_Status newCond
                     then newCond\<lparr>c_LastTransitionTime := c_LastTransitionTime c\<rparr>
                     else newCond\<lparr>c_LastTransitionTime := now\<rparr>);
             changed = (c_Status c \<noteq> c_Status newCond
                        \<or> c_ObservedGeneration c \<noteq> c_ObservedGeneration newCond
                        \<or> c_Reason c \<noteq> c_Reason newCond
                        \<or> c_Message c \<noteq> c_Message newCond)
         in (new' # cs, changed))
      else (let (cs', changed) = SetCondition now cs newCond in (c # cs', changed)))"

text \<open>At most one condition of each type.\<close>
definition conditions_wf :: "condition list \<Rightarrow> bool" where
  "conditions_wf cs = distinct (map c_Type cs)"

text \<open>The condition to store, up to its transition time.\<close>
definition same_condition :: "condition \<Rightarrow> condition \<Rightarrow> bool" where
  "same_condition a b \<longleftrightarrow> a\<lparr>c_LastTransitionTime := 0\<rparr> = b\<lparr>c_LastTransitionTime := 0\<rparr>"

lemma condition_eqI:
  fixes a b :: condition
  assumes "c_Type a = c_Type b" "c_Status a = c_Status b"
    "c_ObservedGeneration a = c_ObservedGeneration b"
    "c_LastTransitionTime a = c_LastTransitionTime b"
    "c_Reason a = c_Reason b" "c_Message a = c_Message b"
  shows "a = b"
  using assms by (cases a; cases b) simp

lemma SetCondition_types:
  "map c_Type (fst (SetCondition now cs n)) =
     (if c_Type n \<in> set (map c_Type cs) then map c_Type cs else map c_Type cs @ [c_Type n])"
  by (induction now cs n rule: SetCondition.induct) (auto simp: Let_def split: prod.splits)

lemma GetCondition_SetCondition_other:
  "t \<noteq> c_Type n \<Longrightarrow> GetCondition (fst (SetCondition now cs n)) t = GetCondition cs t"
  by (induction now cs n rule: SetCondition.induct) (auto simp: Let_def split: prod.splits)

lemma GetCondition_SetCondition_same:
  "GetCondition (fst (SetCondition now cs n)) (c_Type n) =
     Some (n\<lparr>c_LastTransitionTime :=
       (case GetCondition cs (c_Type n) of
          None \<Rightarrow> now
        | Some c \<Rightarrow> if c_Status c = c_Status n then c_LastTransitionTime c else now)\<rparr>)"
  by (induction now cs n rule: SetCondition.induct) (auto simp: Let_def split: prod.splits)

lemma SetCondition_unchanged_iff:
  "snd (SetCondition now cs n) \<longleftrightarrow> fst (SetCondition now cs n) \<noteq> cs"
proof (induction now cs n rule: SetCondition.induct)
  case (1 now n)
  show ?case by simp
next
  case (2 now c cs n)
  show ?case
  proof (cases "c_Type c = c_Type n")
    case False
    with 2 show ?thesis by (auto split: prod.splits)
  next
    case True
    then show ?thesis
      by (cases c; cases n) (auto simp: Let_def)
  qed
qed

lemma SetCondition_again:
  "SetCondition later (fst (SetCondition now cs n)) n = (fst (SetCondition now cs n), False)"
proof -
  let ?cs = "fst (SetCondition now cs n)"
  have "snd (SetCondition later ?cs n) = False"
    by (induction now cs n rule: SetCondition.induct) (auto simp: Let_def split: prod.splits)
  moreover from this have "fst (SetCondition later ?cs n) = ?cs"
    by (simp add: SetCondition_unchanged_iff)
  ultimately show ?thesis by (simp add: prod_eq_iff)
qed

text \<open>
  Setting a condition stores it under its type, leaves every other type alone, never
  creates a second condition of a type, and keeps the transition time exactly when the status
  did not change.
\<close>
theorem SetCondition_correct:
  assumes "conditions_wf cs"
  shows "conditions_wf (fst (SetCondition now cs n))
    \<and> (\<forall>t. GetCondition (fst (SetCondition now cs n)) t =
         (if t = c_Type n
          then Some (n\<lparr>c_LastTransitionTime :=
            (case GetCondition cs t of
               None \<Rightarrow> now
             | Some c \<Rightarrow> if c_Status c = c_Status n then c_LastTransitionTime c else now)\<rparr>)
          else GetCondition cs t))"
  using assms
  by (simp add: conditions_wf_def SetCondition_types GetCondition_SetCondition_same
      GetCondition_SetCondition_other)

theorem SetCondition_correct_witness:
  "conditions_wf [\<lparr>c_Type = ''a'', c_Status = ''True'', c_ObservedGeneration = 1,
      c_LastTransitionTime = 5, c_Reason = ''r'', c_Message = ''m''\<rparr>]
   \<and> conditions_wf (fst (SetCondition 9
      [\<lparr>c_Type = ''a'', c_Status = ''True'', c_ObservedGeneration = 1,
        c_LastTransitionTime = 5, c_Reason = ''r'', c_Message = ''m''\<rparr>]
      \<lparr>c_Type = ''b'', c_Status = ''False'', c_ObservedGeneration = 1,
        c_LastTransitionTime = 0, c_Reason = ''r'', c_Message = ''m''\<rparr>))"
  (is "conditions_wf ?cs \<and> conditions_wf (fst (SetCondition 9 ?cs ?n))")
proof -
  have wf: "conditions_wf ?cs" by (simp add: conditions_wf_def)
  show ?thesis using wf SetCondition_correct [OF wf, of 9 ?n] by blast
qed

text \<open>
  The result of \<^const>\<open>SetCondition\<close> says exactly whether the list was changed, and a repeated
  call with the same condition changes nothing, whatever the clock says: a status that is written
  only when the result is true is written once.
\<close>
theorem SetCondition_reports_change:
  "snd (SetCondition now cs n) = (fst (SetCondition now cs n) \<noteq> cs)
   \<and> SetCondition later (fst (SetCondition now cs n)) n = (fst (SetCondition now cs n), False)"
  using SetCondition_unchanged_iff SetCondition_again by blast

end
