(* ===== verification/ProvisionerController.thy ===== *)
theory ProvisionerController
  imports Registry UtilConditions
begin

text \<open>
  \<^verbatim>\<open>internal/controllers/storageprovisioner_controller.go\<close>: keeping the registry and the status of the
  \<open>StorageProvisioner\<close> resources up to date.  The registry the reconciler points to is passed in and
  given back next to the error; \<open>now\<close> is the clock reading of \<^verbatim>\<open>SetCondition\<close>.
\<close>

definition configured :: "storage_provisioner \<Rightarrow> go_error option \<Rightarrow> condition" where
  "configured config err =
     (case err of
        Some e \<Rightarrow> \<lparr>c_Type = ConditionConfigured, c_Status = ConditionFalse,
          c_ObservedGeneration = m_Generation (sp_meta config), c_LastTransitionTime = 0,
          c_Reason = ''InvalidProvisioner'', c_Message = error_string e\<rparr>
      | None \<Rightarrow> \<lparr>c_Type = ConditionConfigured, c_Status = ConditionTrue,
          c_ObservedGeneration = m_Generation (sp_meta config), c_LastTransitionTime = 0,
          c_Reason = ''Success'', c_Message = ''provisioner configured''\<rparr>)"

definition sp_Reconcile :: "extlib \<Rightarrow> 'w client \<Rightarrow> time \<Rightarrow> registry \<Rightarrow> nsname \<Rightarrow>
    ('w, go_error option \<times> registry) prog" where
  "sp_Reconcile x c now r req =
     bind (k_get (cl_sp c) OnSP req zero_storage_provisioner) (\<lambda>(err, config).
     case err of
       Some e \<Rightarrow> if IsNotFound e then ret (None, Delete r config) else ret (Some e, r)
     | None \<Rightarrow>
         (case Put x r config of
            (perr, r') \<Rightarrow>
              (case SetCondition now (sp_Conditions config) (configured config perr) of
                 (cs, changed) \<Rightarrow>
                   if changed then
                     bind (k_status_update (cl_sp c) OnSP (config\<lparr>sp_Conditions := cs\<rparr>))
                       (\<lambda>(err, _). ret (err, r'))
                   else ret (None, r'))))"

text \<open>The predicate of \<^verbatim>\<open>SetupWithManager\<close>: which objects are watched.\<close>
definition sp_watched :: "string \<Rightarrow> objmeta \<Rightarrow> bool" where
  "sp_watched namespace obj \<longleftrightarrow> namespace = [] \<or> m_Namespace obj = namespace"

lemma configured_simps [simp]:
  "c_Type (configured p e) = ConditionConfigured"
  "c_Status (configured p e) = (if e = None then ConditionTrue else ConditionFalse)"
  "c_ObservedGeneration (configured p e) = m_Generation (sp_meta p)"
  by (auto simp: configured_def split: option.splits)

text \<open>What one reconciliation of an object that exists does.\<close>
lemma sp_Reconcile_found:
  assumes "rc_get (cl_sp c) req zero_storage_provisioner w = ((None, p), w1)"
    and cs: "cs = fst (SetCondition now (sp_Conditions p) (configured p (fst (Put x r p))))"
  shows "\<exists>e. run_trace (sp_Reconcile x c now r req) w = OnSP (DoGet req None p) #
      (if cs = sp_Conditions p then [] else [OnSP (DoStatusUpdate (p\<lparr>sp_Conditions := cs\<rparr>) e)])
    \<and> run_result (sp_Reconcile x c now r req) w =
        Ret (if cs = sp_Conditions p then None else e, snd (Put x r p))"
proof -
  have changed: "snd (SetCondition now (sp_Conditions p) (configured p (fst (Put x r p)))) \<longleftrightarrow> cs \<noteq> sp_Conditions p"
    by (simp add: cs SetCondition_unchanged_iff)
  obtain e y w2 where u: "rc_status_update (cl_sp c) (p\<lparr>sp_Conditions := cs\<rparr>) w1 = ((e, y), w2)"
    by (metis prod.exhaust)
  show ?thesis
    using assms changed u
    by (intro exI [of _ e])
       (auto simp: run_trace_def run_result_def sp_Reconcile_def k_defs call_def bind_def ret_def start_def
         split: prod.splits)
qed

text \<open>
  C29. Reconciling an existing provisioner leaves the registry as registering it does and its status
  telling the truth: the condition \<open>Configured\<close> is true exactly if the provisioner is valid and is the
  one registered under its name, it carries the observed generation, the other conditions are kept,
  and the status is written only if it changes.
\<close>
theorem provisioner_status_truthful:
  assumes "rc_get (cl_sp c) req zero_storage_provisioner w = ((None, p), w1)"
  shows "\<exists>e r' cs cond rest. run_result (sp_Reconcile x c now r req) w = Ret (e, r')
    \<and> slots r' = spec_put x p (slots r)
    \<and> run_trace (sp_Reconcile x c now r req) w = OnSP (DoGet req None p) # rest
    \<and> (if cs = sp_Conditions p then rest = [] else (\<exists>e'. rest = [OnSP (DoStatusUpdate (p\<lparr>sp_Conditions := cs\<rparr>) e')]))
    \<and> GetCondition cs ConditionConfigured = Some cond
    \<and> (c_Status cond = ConditionTrue \<longleftrightarrow>
         validateProvisioner x p = None \<and> Get r' (GetProvisionerName p) = Some p)
    \<and> c_ObservedGeneration cond = m_Generation (sp_meta p)
    \<and> (\<forall>t. t \<noteq> ConditionConfigured \<longrightarrow> GetCondition cs t = GetCondition (sp_Conditions p) t)"
proof -
  let ?n = "configured p (fst (Put x r p))"
  let ?cs = "fst (SetCondition now (sp_Conditions p) ?n)"
  obtain e where t: "run_trace (sp_Reconcile x c now r req) w = OnSP (DoGet req None p) #
        (if ?cs = sp_Conditions p then [] else [OnSP (DoStatusUpdate (p\<lparr>sp_Conditions := ?cs\<rparr>) e)])"
    and r: "run_result (sp_Reconcile x c now r req) w =
        Ret (if ?cs = sp_Conditions p then None else e, snd (Put x r p))"
    using sp_Reconcile_found [OF assms refl, where now = now and x = x and r = r] by blast
  obtain cond where cond: "GetCondition ?cs ConditionConfigured = Some cond"
    "c_Status cond = c_Status ?n" "c_ObservedGeneration cond = m_Generation (sp_meta p)"
    using GetCondition_SetCondition_same [of now "sp_Conditions p" ?n] by simp
  have ok: "fst (Put x r p) = None \<longleftrightarrow>
      validateProvisioner x p = None \<and> Get (snd (Put x r p)) (GetProvisionerName p) = Some p"
    by (rule Put_succeeds)
  have "\<forall>t. t \<noteq> ConditionConfigured \<longrightarrow> GetCondition ?cs t = GetCondition (sp_Conditions p) t"
    by (auto simp: GetCondition_SetCondition_other)
  moreover have "slots (snd (Put x r p)) = spec_put x p (slots r)"
    by (auto simp: fun_eq_iff slots_Put_at spec_put_def)
  ultimately show ?thesis using t r cond ok
    by (intro exI [of _ "if ?cs = sp_Conditions p then None else e"] exI [of _ "snd (Put x r p)"]
        exI [of _ ?cs] exI [of _ cond] exI conjI) auto
qed


definition sp_client :: "go_error option \<times> storage_provisioner \<Rightarrow> unit client" where
  "sp_client sp = (listing_client [])\<lparr>cl_sp := answering sp None\<rparr>"

lemma sp_client_get: "rc_get (cl_sp (sp_client sp)) n p () = (sp, ())"
  by (simp add: sp_client_def answering_def)

theorem provisioner_status_truthful_witness:
  "\<exists>e r'. run_result (sp_Reconcile plain_ext (sp_client (None, example_provisioner)) 0 newProvisioners
      \<lparr>nn_Name = ''p'', nn_Namespace = []\<rparr>) () = Ret (e, r')
     \<and> slots r' = spec_put plain_ext example_provisioner (slots newProvisioners)"
  using provisioner_status_truthful [OF sp_client_get [of "(None, example_provisioner)"],
      of plain_ext 0 newProvisioners "\<lparr>nn_Name = ''p'', nn_Namespace = []\<rparr>"]
  by blast

text \<open>
  Registrations that go stale.  Of a deleted provisioner only the zero value is left when its
  lookup fails, and its name is empty: the controller removes the registration of the empty name and
  every other name, the deleted provisioner's included, stays registered.  Likewise, when a
  provisioner is given a new name, the old name stays registered with its old specification.
\<close>
theorem stale_registrations:
  assumes "rc_get (cl_sp c) req zero_storage_provisioner w = ((err, p'), w1)"
    and "(\<exists>e. err = Some e \<and> IsNotFound e \<and> p' = zero_storage_provisioner)
      \<or> (err = None \<and> GetProvisionerName p' \<noteq> n)"
    and "Get r n = Some p" and "n \<noteq> []"
  shows "\<exists>e r'. run_result (sp_Reconcile x c now r req) w = Ret (e, r') \<and> Get r' n = Some p"
proof (cases err)
  case None
  with assms(1) have g: "rc_get (cl_sp c) req zero_storage_provisioner w = ((None, p'), w1)" by simp
  from None assms(2) have "GetProvisionerName p' \<noteq> n" by auto
  with assms(3) have "Get (snd (Put x r p')) n = Some p" by (auto simp: Get_slots slots_Put_at)
  with sp_Reconcile_found [OF g refl, where now = now and x = x and r = r] show ?thesis by blast
next
  case (Some e)
  with assms have "IsNotFound e" "p' = zero_storage_provisioner" by auto
  then have "run_result (sp_Reconcile x c now r req) w = Ret (None, Delete r zero_storage_provisioner)"
    using assms(1) Some by (simp add: run_result_def sp_Reconcile_def k_get_def call_def bind_def ret_def)
  moreover have "Get (Delete r zero_storage_provisioner) n = Some p"
    using assms(3,4) by (simp add: Get_slots slots_Delete GetProvisionerName_def zero_storage_provisioner_def
        zero_provisioner_spec_def)
  ultimately show ?thesis by blast
qed

theorem stale_registrations_witness:
  "\<exists>e r'. run_result (sp_Reconcile plain_ext (sp_client (Some (Api NotFound ''gone''), zero_storage_provisioner)) 0
      [(''p.example'', Some example_provisioner)] \<lparr>nn_Name = ''p'', nn_Namespace = []\<rparr>) () = Ret (e, r')
     \<and> Get r' ''p.example'' = Some example_provisioner"
  by (rule stale_registrations [OF sp_client_get])
     (simp_all add: Get_def)

end
