(* ===== verification/PodController.thy ===== *)
theory PodController
  imports PVCController
begin

text \<open>
  \<^verbatim>\<open>internal/controllers/pod_controller.go\<close>: deleting the claims of a completed pod, for provisioners
  that ask for it.
\<close>

definition errPVCDelete :: go_error where
  "errPVCDelete = Errorf ''pvc deletion failed'' []"

record pod_reconciler =
  or_Provisioners :: "string \<Rightarrow> storage_provisioner option"

fun writeable_loop :: "string \<Rightarrow> volume list \<Rightarrow> nsname list" where
  "writeable_loop ns [] = []"
| "writeable_loop ns (v # vs) =
     (case vol_Claim v of
        Some (claimName, readOnly) \<Rightarrow>
          if \<not> readOnly then \<lparr>nn_Name = claimName, nn_Namespace = ns\<rparr> # writeable_loop ns vs
          else writeable_loop ns vs
      | None \<Rightarrow> writeable_loop ns vs)"

definition writeablePVCs :: "pod \<Rightarrow> nsname list" where
  "writeablePVCs pod = writeable_loop (m_Namespace (pod_meta pod)) (p_Volumes (pod_spec pod))"

text \<open>The predicate on the pods that are watched.\<close>
definition podCompleted :: "pod \<Rightarrow> bool" where
  "podCompleted pod =
     (let podFailed = (pod_Phase pod = PodFailed);
          podSucceeded = (pod_Phase pod = PodSucceeded);
          finished = (p_RestartPolicy (pod_spec pod) = RestartPolicyNever \<and> (podSucceeded \<or> podFailed)
            \<or> p_RestartPolicy (pod_spec pod) = RestartPolicyOnFailure \<and> podSucceeded)
      in finished \<and> length (writeablePVCs pod) > 0)"

definition hasAccessMode :: "pvc \<Rightarrow> string \<Rightarrow> bool" where
  "hasAccessMode claim mode = (if length (pvc_AccessModes claim) \<noteq> 1 then False else pvc_AccessModes claim ! 0 = mode)"

definition shouldDelete :: "pod_reconciler \<Rightarrow> pvc \<Rightarrow> bool" where
  "shouldDelete r claim =
     (if \<not> hasAccessMode claim ReadWriteOnce \<or> m_Annotations (pvc_meta claim) = None then False
      else case or_Provisioners r (mget (m_Annotations (pvc_meta claim)) annStorageProvisioner) of
        None \<Rightarrow> False
      | Some provisioner \<Rightarrow> ps_DeprovisionOnPodCompletion (sp_spec provisioner))"

definition setAnnotation :: "objmeta \<Rightarrow> string \<Rightarrow> string \<Rightarrow> objmeta \<times> bool" where
  "setAnnotation meta key value =
     (let a = mnonnil (m_Annotations meta)
      in if mget a key \<noteq> value then (meta\<lparr>m_Annotations := mput a key value\<rparr>, True) else (meta, False))"

text \<open>The error after a call that failed: absence is ignored.\<close>
definition pvc_failed :: "go_error \<Rightarrow> go_error option \<Rightarrow> go_error option" where
  "pvc_failed e err = (if \<not> IsNotFound e then Some errPVCDelete else err)"

text \<open>One iteration of the loop over the claims; the last argument is the error so far.\<close>
definition pod_claim :: "'w client \<Rightarrow> pod_reconciler \<Rightarrow> nsname \<Rightarrow> go_error option \<Rightarrow> ('w, go_error option) prog" where
  "pod_claim c r pvcName err =
     bind (k_get (cl_pvc c) OnPVC pvcName zero_pvc) (\<lambda>(e, claim).
     case e of
       Some e \<Rightarrow> ret (pvc_failed e err)
     | None \<Rightarrow>
         if \<not> shouldDelete r claim then ret err
         else
           (case setAnnotation (pvc_meta claim) AnnotationPersistentVolumeClaimNoProtection Enabled of
              (meta, changed) \<Rightarrow>
                bindR (if changed then
                         bind (k_update (cl_pvc c) OnPVC (claim\<lparr>pvc_meta := meta\<rparr>)) (\<lambda>(e, claim1).
                         case e of Some e \<Rightarrow> ret (Inl (pvc_failed e err)) | None \<Rightarrow> ret (Inr claim1))
                       else ret (Inr claim))
                  (\<lambda>claim1.
                   if m_DeletionTimestamp (pvc_meta claim1) = None then
                     bind (k_delete (cl_pvc c) OnPVC claim1) (\<lambda>e.
                     case e of Some e \<Rightarrow> ret (pvc_failed e err) | None \<Rightarrow> ret err)
                   else ret err)))"

fun pod_claims :: "'w client \<Rightarrow> pod_reconciler \<Rightarrow> nsname list \<Rightarrow> go_error option \<Rightarrow> ('w, go_error option) prog" where
  "pod_claims c r [] err = ret err"
| "pod_claims c r (n # ns) err = bind (pod_claim c r n err) (pod_claims c r ns)"

definition pod_Reconcile :: "'w client \<Rightarrow> pod_reconciler \<Rightarrow> nsname \<Rightarrow> ('w, go_error option) prog" where
  "pod_Reconcile c r req =
     bind (k_get (cl_pod c) OnPod req zero_pod) (\<lambda>(err, pod).
     case err of
       Some e \<Rightarrow> if IsNotFound e then ret None else ret (Some e)
     | None \<Rightarrow> pod_claims c r (writeablePVCs pod) None)"

section \<open>What an iteration may do\<close>

definition disclaimed :: "pvc \<Rightarrow> pvc" where
  "disclaimed claim = claim\<lparr>pvc_meta := (pvc_meta claim)\<lparr>m_Annotations :=
     mput (mnonnil (m_Annotations (pvc_meta claim))) AnnotationPersistentVolumeClaimNoProtection Enabled\<rparr>\<rparr>"

definition unprotected :: "pvc \<Rightarrow> bool" where
  "unprotected claim \<longleftrightarrow>
     mget (m_Annotations (pvc_meta claim)) AnnotationPersistentVolumeClaimNoProtection = Enabled"

text \<open>An error other than absence in a response about a claim.\<close>
fun failure :: "entry \<Rightarrow> bool" where
  "failure (OnPVC (DoGet _ (Some e) _)) = (\<not> IsNotFound e)"
| "failure (OnPVC (DoUpdate _ (Some e))) = (\<not> IsNotFound e)"
| "failure (OnPVC (DoDelete _ (Some e))) = (\<not> IsNotFound e)"
| "failure _ = False"

text \<open>The runs of one iteration.\<close>
inductive claim_run :: "pod_reconciler \<Rightarrow> nsname \<Rightarrow> entry list \<Rightarrow> bool" for r n where
  absent: "claim_run r n [OnPVC (DoGet n (Some e) claim)]"
| kept: "\<not> shouldDelete r claim \<Longrightarrow> claim_run r n [OnPVC (DoGet n None claim)]"
| marking: "shouldDelete r claim \<Longrightarrow> \<not> unprotected claim \<Longrightarrow> t = [] \<or> (e = None \<and> (\<exists>c1 e'. t = [OnPVC (DoDelete c1 e')])) \<Longrightarrow>
    claim_run r n (OnPVC (DoGet n None claim) # OnPVC (DoUpdate (disclaimed claim) e) # t)"
| marked: "shouldDelete r claim \<Longrightarrow> unprotected claim \<Longrightarrow> t = [] \<or> (\<exists>e'. t = [OnPVC (DoDelete claim e')]) \<Longrightarrow>
    claim_run r n (OnPVC (DoGet n None claim) # t)"

inductive_cases claim_run_cases: "claim_run r n t"

lemma unprotected_mnonnil:
  "(mget (mnonnil (m_Annotations (pvc_meta claim))) AnnotationPersistentVolumeClaimNoProtection \<noteq> Enabled)
     = (\<not> unprotected claim)"
  by (simp add: unprotected_def)

lemma setAnnotation_eq:
  "setAnnotation (pvc_meta claim) AnnotationPersistentVolumeClaimNoProtection Enabled =
     (if unprotected claim then (pvc_meta claim, False) else (pvc_meta (disclaimed claim), True))"
  by (simp add: setAnnotation_def Let_def unprotected_def disclaimed_def)

lemma disclaimed_meta [simp]: "claim\<lparr>pvc_meta := pvc_meta (disclaimed claim)\<rparr> = disclaimed claim"
  by (simp add: disclaimed_def)

lemma pod_claim_run:
  "tspec (pod_claim c r n err) (\<lambda>o1 t. claim_run r n t
     \<and> o1 = Ret (if list_ex failure t then Some errPVCDelete else err))"
  unfolding pod_claim_def
proof (rule tspec_bind_k_get, simp only: prod.case, rule tspec_option, goal_cases)
  case (1 e claim)
  consider "\<not> shouldDelete r claim" | "shouldDelete r claim" "unprotected claim"
    | "shouldDelete r claim" "\<not> unprotected claim" by blast
  then show ?case
  proof cases
    case 1
    with \<open>e = None\<close> show ?thesis by (simp add: tspec_ret claim_run.kept)
  next
    case 2
    then show ?thesis using \<open>e = None\<close>
      by (auto simp: setAnnotation_eq pvc_failed_def intro!: tspec_intros claim_run.marked)
  next
    case 3
    show ?thesis
    proof (simp add: 3 setAnnotation_eq bindR_bind \<open>e = None\<close>, rule tspec_bind_k_update, goal_cases)
      case (1 e' claim')
      then show ?case using 3
        by (cases e') (auto simp: pvc_failed_def intro!: tspec_intros claim_run.marking)
    qed
  qed
next
  case (2 e claim e')
  then show ?case by (auto simp: pvc_failed_def intro!: tspec_ret claim_run.absent)
qed


text \<open>The loop: one run per claim, in order, none left out because another one failed.\<close>
lemma pod_claims_run:
  "tspec (pod_claims c r ns err) (\<lambda>o1 t. \<exists>ts. t = concat ts \<and> list_all2 (claim_run r) ns ts
     \<and> o1 = Ret (if list_ex failure t then Some errPVCDelete else err))"
proof (induction ns arbitrary: err)
  case Nil
  show ?case by (auto intro: tspec_ret)
next
  case (Cons n ns)
  show ?case unfolding pod_claims.simps
  proof (rule tspec_bind [OF pod_claim_run], goal_cases)
    case (1 err1 t)
    show ?case
    proof (rule tspec_mono [OF Cons.IH], goal_cases)
      case (1 o1 u)
      then obtain ts where ts: "u = concat ts" "list_all2 (claim_run r) ns ts"
        and o1: "o1 = Ret (if list_ex failure u then Some errPVCDelete else err1)" by blast
      show ?case
        by (intro exI [of _ "t # ts"]) (use ts o1 \<open>claim_run r n t \<and> _\<close> in auto)
    qed
  qed simp
qed

lemma pod_Reconcile_run:
  "tspec (pod_Reconcile c r req) (\<lambda>o1 t. \<exists>err pod u. t = OnPod (DoGet req err pod) # u \<and>
     (case err of
        Some e \<Rightarrow> u = [] \<and> o1 = Ret (if IsNotFound e then None else Some e)
      | None \<Rightarrow> (\<exists>ts. u = concat ts \<and> list_all2 (claim_run r) (writeablePVCs pod) ts
                 \<and> o1 = Ret (if list_ex failure u then Some errPVCDelete else None))))"
  unfolding pod_Reconcile_def
  by (intro tspec_intros) (auto intro!: tspec_mono [OF pod_claims_run])

section \<open>Properties\<close>

text \<open>
  C28. Every claim that the pod mounts writeable is visited once, in the order of the pod's volumes,
  whatever happened to the others; the handler never panics, and reports an error exactly if the API
  server answered one other than \<^verbatim>\<open>NotFound\<close> on the way.
\<close>
theorem pod_claims_all_visited:
  "\<exists>err pod u. run_trace (pod_Reconcile c r req) w = OnPod (DoGet req err pod) # u \<and>
    (case err of
       Some e \<Rightarrow> u = [] \<and> run_result (pod_Reconcile c r req) w = Ret (if IsNotFound e then None else Some e)
     | None \<Rightarrow> (\<exists>ts. u = concat ts \<and> list_all2 (claim_run r) (writeablePVCs pod) ts
         \<and> run_result (pod_Reconcile c r req) w = Ret (if list_ex failure u then Some errPVCDelete else None)))"
  by (rule tspec_run [OF pod_Reconcile_run])


definition deleting_reconciler :: pod_reconciler where
  "deleting_reconciler = \<lparr>or_Provisioners = \<lambda>n. Some (example_provisioner\<lparr>sp_spec :=
     (sp_spec example_provisioner)\<lparr>ps_DeprovisionOnPodCompletion := True\<rparr>\<rparr>)\<rparr>"

definition once_claim :: pvc where
  "once_claim = (example_claim None)\<lparr>pvc_AccessModes := [ReadWriteOnce]\<rparr>"

definition using_pod :: "string \<Rightarrow> pod" where
  "using_pod phase = zero_pod\<lparr>pod_Phase := phase,
     pod_spec := zero_podspec\<lparr>p_RestartPolicy := RestartPolicyNever,
       p_Volumes := [\<lparr>vol_Name = ''v'', vol_Claim = Some (''claim'', False), vol_Source = None\<rparr>]\<rparr>\<rparr>"

definition using_run :: "string \<Rightarrow> (unit, go_error option) prog" where
  "using_run phase = pod_Reconcile
     (answering_client (None, once_claim) (Some not_found, zero_pv) (None, using_pod phase) (None, zero_sc))
     deleting_reconciler \<lparr>nn_Name = ''pod'', nn_Namespace = []\<rparr>"

lemma using_run_deletes:
  "OnPVC (DoDelete (disclaimed once_claim) None) \<in> set (run_trace (using_run phase) ())"
proof -
  have "writeablePVCs (using_pod phase) = [\<lparr>nn_Name = ''claim'', nn_Namespace = []\<rparr>]"
    by (simp add: writeablePVCs_def using_pod_def zero_pod_def zero_meta_def)
  moreover have "shouldDelete deleting_reconciler once_claim"
    by (simp add: shouldDelete_def once_claim_def example_claim_def hasAccessMode_def deleting_reconciler_def)
  moreover have "\<not> unprotected once_claim"
    by (simp add: unprotected_def once_claim_def example_claim_def mget_Some Enabled_def annSelectedNode_def
        annStorageProvisioner_def AnnotationPersistentVolumeClaimNoProtection_def)
  moreover have "m_DeletionTimestamp (pvc_meta (disclaimed once_claim)) = None"
    by (simp add: disclaimed_def once_claim_def example_claim_def)
  ultimately show ?thesis
    by (simp add: using_run_def pod_Reconcile_def pod_claim_def setAnnotation_eq run_exec bindR_def exec_simps)
qed


text \<open>
  Whether the pod has completed is decided by the watch predicate alone: the handler deletes the claims
  of whatever pod it finds under the name, one that is running included.
\<close>
lemma claims_of_running_pod_deleted:
  "\<not> podCompleted (using_pod ''Running'')"
  "OnPVC (DoDelete (disclaimed once_claim) None) \<in> set (run_trace (using_run ''Running'') ())"
  by (simp add: podCompleted_def using_pod_def PodFailed_def PodSucceeded_def) (rule using_run_deletes)

end
