(* ===== verification/ManagerMain.thy ===== *)
theory ManagerMain
  imports PVController ProvisionerController PodController
begin

text \<open>
  \<^verbatim>\<open>cmd/manager/main.go\<close>: starting the manager, and the controllers at work on one registry.

  \<open>main\<close> is the sequence of fallible steps of \<^verbatim>\<open>main\<close>, with the exit code as its result; the controller
  runtime is the parameter \<open>runtime\<close>.  \<open>parse_flags\<close> gives the variables their values from the environment and the flags on
  the command line.  What the runtime does after \<^verbatim>\<open>mgr.Start\<close> is the step relation
  \<open>manager_step\<close>: it calls one of the four reconcilers for any request, in any order, while others change
  the cluster.  The reconcilers share the registry that was loaded, which only the provisioner
  reconciler writes to.  A reconciliation is one step and sees one registry; the volume and the pod reconciler,
  which may look up several names or repeat a lookup after a conflict, could in the program see an update in
  between.  The answers of the cluster are not restricted in any way, so
  that other clients may change it in the middle of a reconciliation, too.
\<close>

section \<open>Starting\<close>

datatype controller = PersistentVolumeClaim | PersistentVolume | StorageProvisioner | Pod

record manager_flags =
  mf_metricsAddr :: string
  mf_enableLeaderElection :: bool
  mf_probeAddr :: string
  mf_managerNamespace :: string

text \<open>The environment, and the flags that are given.\<close>
definition parse_flags :: "(string \<Rightarrow> string) \<Rightarrow> (string \<Rightarrow> string option) \<Rightarrow> bool option \<Rightarrow> manager_flags" where
  "parse_flags getenv flag leaderElect =
     (let value = (\<lambda>name default. case flag name of None \<Rightarrow> default | Some v \<Rightarrow> v)
      in \<lparr>mf_metricsAddr = value ''metrics-bind-address'' '':8080'',
          mf_enableLeaderElection = (leaderElect = Some True),
          mf_probeAddr = value ''health-probe-bind-address'' '':8081'',
          mf_managerNamespace = value ''manager-namespace'' (getenv ''MANAGER_NAMESPACE'')\<rparr>)"

text \<open>\<^verbatim>\<open>ctrl.Options\<close>\<close>
record manager_options =
  mp_MetricsBindAddress :: string
  mp_Port :: nat
  mp_HealthProbeBindAddress :: string
  mp_LeaderElection :: bool
  mp_LeaderElectionID :: string

definition options_of :: "manager_flags \<Rightarrow> manager_options" where
  "options_of fl = \<lparr>mp_MetricsBindAddress = mf_metricsAddr fl, mp_Port = 9443, mp_HealthProbeBindAddress = mf_probeAddr fl,
     mp_LeaderElection = mf_enableLeaderElection fl, mp_LeaderElectionID = ''146685bb.cache-manager''\<rparr>"

record 'w runtime =
  rt_GetConfig :: "'w \<Rightarrow> bool \<times> 'w"
  rt_NewManager :: "manager_options \<Rightarrow> 'w \<Rightarrow> go_error option \<times> 'w"
  rt_NewClient :: "'w \<Rightarrow> (go_error + 'w client) \<times> 'w"
  rt_SetupWithManager :: "controller \<Rightarrow> 'w \<Rightarrow> go_error option \<times> 'w"
  rt_AddHealthzCheck :: "'w \<Rightarrow> go_error option \<times> 'w"
  rt_AddReadyzCheck :: "'w \<Rightarrow> go_error option \<times> 'w"
  rt_Start :: "registry \<Rightarrow> 'w \<Rightarrow> go_error option \<times> 'w"

datatype manager_entry =
    MConfig bool
  | MManager manager_options "go_error option"
  | MClient bool
  | MCluster entry
  | MSetup controller "go_error option"
  | MHealth "go_error option"
  | MReady "go_error option"
  | MStart registry "go_error option"

type_synonym ('w, 'a) manager_prog = "('w, manager_entry, 'a) go"

definition loadProvisioners :: "extlib \<Rightarrow> 'w runtime \<Rightarrow> string \<Rightarrow> ('w, go_error + registry) manager_prog" where
  "loadProvisioners x rt namespace =
     bind (call (rt_NewClient rt) (\<lambda>r. MClient (\<exists>c. r = Inr c))) (\<lambda>r.
     case r of
       Inl err \<Rightarrow> ret (Inl err)
     | Inr c \<Rightarrow> relabel MCluster (LoadProvisioners x c namespace))"

text \<open>\<^verbatim>\<open>if err := step; err != nil { os.Exit(1) }\<close>\<close>
definition or_exit :: "('w, go_error option) manager_prog \<Rightarrow> ('w, nat) manager_prog \<Rightarrow> ('w, nat) manager_prog" where
  "or_exit step rest = bind step (\<lambda>err. if err \<noteq> None then ret 1 else rest)"

definition setup_controller :: "'w runtime \<Rightarrow> controller \<Rightarrow> ('w, go_error option) manager_prog" where
  "setup_controller rt k = call (rt_SetupWithManager rt k) (MSetup k)"

text \<open>The error of setting up the pod controller is assigned but not looked at.\<close>
definition main :: "extlib \<Rightarrow> 'w runtime \<Rightarrow> manager_flags \<Rightarrow> ('w, nat) manager_prog" where
  "main x rt fl =
     (if mf_managerNamespace fl = [] then ret 1
      else
        bind (call (rt_GetConfig rt) MConfig) (\<lambda>ok.
        if \<not> ok then ret 1
        else
          or_exit (call (rt_NewManager rt (options_of fl)) (MManager (options_of fl)))
          (bind (loadProvisioners x rt (mf_managerNamespace fl)) (\<lambda>r.
           case r of
             Inl _ \<Rightarrow> ret 1
           | Inr provisioners \<Rightarrow>
               or_exit (setup_controller rt PersistentVolumeClaim)
               (or_exit (setup_controller rt PersistentVolume)
               (or_exit (setup_controller rt StorageProvisioner)
               (bind (setup_controller rt Pod) (\<lambda>_.
                or_exit (call (rt_AddHealthzCheck rt) MHealth)
                (or_exit (call (rt_AddReadyzCheck rt) MReady)
                (or_exit (call (rt_Start rt provisioners) (MStart provisioners)) (ret 0)))))))))))"

section \<open>Running\<close>

definition claim_reconciler :: "string \<Rightarrow> registry \<Rightarrow> pvc_reconciler" where
  "claim_reconciler managerNamespace r = \<lparr>cr_ManagerNamespace = managerNamespace, cr_Provisioners = Get r\<rparr>"

definition volume_reconciler :: "string \<Rightarrow> registry \<Rightarrow> pv_reconciler" where
  "volume_reconciler managerNamespace r = \<lparr>vr_ManagerNamespace = managerNamespace, vr_Provisioners = Get r\<rparr>"

definition completed_pod_reconciler :: "registry \<Rightarrow> pod_reconciler" where
  "completed_pod_reconciler r = \<lparr>or_Provisioners = Get r\<rparr>"

record 'w manager =
  mg_registry :: registry
  mg_cluster :: 'w

text \<open>One reconciliation, or a change of the cluster by somebody else; the calls it makes.\<close>
inductive manager_step :: "extlib \<Rightarrow> 'w client \<Rightarrow> string \<Rightarrow> 'w manager \<Rightarrow> entry list \<Rightarrow> 'w manager \<Rightarrow> bool"
  for x c ns where
  claim: "pvc_Reconcile x c (claim_reconciler ns (mg_registry m)) req (start (mg_cluster m)) = (o1, s) \<Longrightarrow>
    manager_step x c ns m (trace s) (m\<lparr>mg_cluster := world s\<rparr>)"
| volume: "pv_Reconcile x c (volume_reconciler ns (mg_registry m)) req (start (mg_cluster m)) = (o1, s) \<Longrightarrow>
    manager_step x c ns m (trace s) (m\<lparr>mg_cluster := world s\<rparr>)"
| pod: "pod_Reconcile c (completed_pod_reconciler (mg_registry m)) req (start (mg_cluster m)) = (o1, s) \<Longrightarrow>
    manager_step x c ns m (trace s) (m\<lparr>mg_cluster := world s\<rparr>)"
| provisioner: "sp_Reconcile x c now (mg_registry m) req (start (mg_cluster m)) = (Ret (err, r), s) \<Longrightarrow>
    manager_step x c ns m (trace s) (m\<lparr>mg_registry := r, mg_cluster := world s\<rparr>)"
| others: "manager_step x c ns m [] (m\<lparr>mg_cluster := w\<rparr>)"

text \<open>The states of a manager that was started on the provisioners it loaded.\<close>
inductive manager_reach :: "extlib \<Rightarrow> 'w client \<Rightarrow> string \<Rightarrow> 'w manager \<Rightarrow> bool" for x c ns where
  started: "LoadProvisioners x (c' :: 'w client) ns s0 = (Ret (Inr r), s1) \<Longrightarrow> manager_reach x c ns \<lparr>mg_registry = r, mg_cluster = w\<rparr>"
| step: "manager_reach x c ns m \<Longrightarrow> manager_step x c ns m t m' \<Longrightarrow> manager_reach x c ns m'"

inductive_cases manager_stepE: "manager_step x c ns m t m'"

section \<open>Starting: what has been set up\<close>

lemma main_trace:
  "tspec (main x rt fl) (\<lambda>r t.
     (r = Ret 0 \<or> r = Ret 1) \<and> (r = Ret 0 \<longleftrightarrow> (\<exists>reg. MStart reg None \<in> set t)) \<and>
     (\<forall>reg e. MStart reg e \<in> set t \<longrightarrow> mf_managerNamespace fl \<noteq> [] \<and> last t = MStart reg e \<and> MManager (options_of fl) None \<in> set t \<and>
        (\<forall>k. k \<noteq> Pod \<longrightarrow> MSetup k None \<in> set t) \<and> MHealth None \<in> set t \<and> MReady None \<in> set t))"
proof -
  have load: "tspec (loadProvisioners x rt ns) (\<lambda>r t. r \<noteq> Panic \<and> (\<forall>reg e. MStart reg e \<notin> set t))" for ns
  proof -
    have "run_result (LoadProvisioners x c ns) w \<noteq> Panic" for c and w :: 'a
      by (auto simp: run_result_def LoadProvisioners_def bind_def call_def ret_def split: prod.splits sum.splits)
    then show ?thesis
      unfolding loadProvisioners_def
      by (intro tspec_intros tspec_relabel) (auto simp: run_result_def)
  qed
  have all: "(\<forall>k. k \<noteq> Pod \<longrightarrow> P k) \<longleftrightarrow> P PersistentVolumeClaim \<and> P PersistentVolume \<and> P StorageProvisioner" for P
    by (metis controller.exhaust controller.distinct)
  show ?thesis
    unfolding main_def or_exit_def setup_controller_def all
    by (intro tspec_intros tspec_bind [OF load]) auto
qed

text \<open>
  The manager starts its controllers only with a namespace, after it was created with the options of the flags, the provisioners were loaded, the
  claim, volume and provisioner controllers and both probes were set up without an error, and as the
  last thing it does; the exit code is 0 exactly if it was started and stopped without an error.
\<close>
theorem manager_starts_configured:
  "let t = trace (snd (main x rt fl (start w))); r = fst (main x rt fl (start w))
   in r \<in> {Ret 0, Ret 1} \<and> (r = Ret 0) = (\<exists>reg. MStart reg None \<in> set t) \<and>
      (\<forall>reg e. MStart reg e \<in> set t \<longrightarrow> mf_managerNamespace fl \<noteq> [] \<and> last t = MStart reg e \<and> MManager (options_of fl) None \<in> set t \<and>
         (\<forall>k. k \<noteq> Pod \<longrightarrow> MSetup k None \<in> set t) \<and> MHealth None \<in> set t \<and> MReady None \<in> set t)"
  using tspec_start [OF main_trace, of x rt fl w] unfolding Let_def insert_iff empty_iff by blast

definition example_flags :: manager_flags where
  "example_flags = parse_flags (\<lambda>_. []) [''manager-namespace'' \<mapsto> ''ns''] None"

text \<open>A runtime in which every step works but those of \<open>bad\<close>.\<close>
definition partial_runtime :: "controller \<Rightarrow> unit runtime" where
  "partial_runtime bad =
     \<lparr>rt_GetConfig = (\<lambda>w. (True, w)), rt_NewManager = (\<lambda>_ w. (None, w)), rt_NewClient = (\<lambda>w. (Inr (listing_client []), w)),
      rt_SetupWithManager = (\<lambda>k w. (if k = bad then Some (Errorf ''setup'' []) else None, w)),
      rt_AddHealthzCheck = (\<lambda>w. (None, w)), rt_AddReadyzCheck = (\<lambda>w. (None, w)), rt_Start = (\<lambda>_ w. (None, w))\<rparr>"

lemma partial_runtime_main:
  "main x (partial_runtime bad) example_flags (start ()) =
     (if bad = Pod then
        (Ret 0, \<lparr>world = (), trace = [MConfig True, MManager (options_of example_flags) None, MClient True, MCluster (ListSP ''ns''),
           MSetup PersistentVolumeClaim None, MSetup PersistentVolume None, MSetup StorageProvisioner None,
           MSetup Pod (Some (Errorf ''setup'' [])), MHealth None, MReady None, MStart newProvisioners None]\<rparr>)
      else main x (partial_runtime bad) example_flags (start ()))"
  by (auto simp: main_def or_exit_def setup_controller_def partial_runtime_def example_flags_def parse_flags_def loadProvisioners_def relabel_def
      LoadProvisioners_def listing_client_def bind_def call_def ret_def start_def newProvisioners_def)

theorem manager_starts_configured_witness:
  "MStart newProvisioners None \<in> set (trace (snd (main plain_ext (partial_runtime Pod) example_flags (start ()))))
   \<and> MSetup PersistentVolume None \<in> set (trace (snd (main plain_ext (partial_runtime Pod) example_flags (start ()))))"
proof -
  have s: "MStart newProvisioners None \<in> set (trace (snd (main plain_ext (partial_runtime Pod) example_flags (start ()))))"
    by (subst partial_runtime_main) simp
  from manager_starts_configured [of plain_ext "partial_runtime Pod" example_flags "()"] s show ?thesis
    unfolding Let_def by blast
qed

text \<open>The manager runs without its pod controller: the error of setting it up is overlooked.\<close>
lemma pod_setup_error_ignored:
  "MSetup Pod (Some (Errorf ''setup'' [])) \<in> set (trace (snd (main x (partial_runtime Pod) example_flags (start ()))))
   \<and> fst (main x (partial_runtime Pod) example_flags (start ())) = Ret 0"
  by (subst (1 2) partial_runtime_main) simp

section \<open>Running: the registry\<close>

lemma load_loop_reach: "registry_reach x r \<Longrightarrow> registry_reach x (load_loop x ps r)"
  by (induction ps arbitrary: r) (auto intro: registry_reach.step registry_step.put)

lemma LoadProvisioners_reach:
  "LoadProvisioners x c ns s = (Ret (Inr r), s') \<Longrightarrow> registry_reach x r"
  by (auto simp: LoadProvisioners_def bind_def call_def ret_def split: prod.splits sum.splits
      intro!: load_loop_reach registry_reach.init)

lemma sp_Reconcile_reach:
  assumes "registry_reach x r" "sp_Reconcile x c now r req s = (Ret (err, r'), s')"
  shows "registry_reach x r'"
proof -
  have "r' = r \<or> (\<exists>p. r' = Delete r p) \<or> (\<exists>p. r' = snd (Put x r p))"
    using assms(2)
    by (auto simp: sp_Reconcile_def k_defs bind_def call_def ret_def split: prod.splits option.splits if_splits)
      (metis snd_conv)+
  with assms(1) show ?thesis
    by (auto intro: registry_reach.step registry_step.intros)
qed

lemma manager_reach_registry: "manager_reach x c ns m \<Longrightarrow> registry_reach x (mg_registry m)"
proof (induction rule: manager_reach.induct)
  case (step m t m')
  from step(2) step(3) show ?case
    by (cases rule: manager_step.cases) (auto intro: sp_Reconcile_reach)
qed (auto intro: LoadProvisioners_reach)

section \<open>Running: what is created\<close>

lemma pv_creates_no_volume: "OnPV (DoCreate v e) \<notin> set (run_trace (pv_Reconcile x c r req) w)"
proof
  assume "OnPV (DoCreate v e) \<in> set (run_trace (pv_Reconcile x c r req) w)"
  then show False
    by (rule pv_entry) (auto simp: finalizes_def checks_def deprovisions_def)
qed

lemma pod_creates_nothing:
  "OnPV (DoCreate v e) \<notin> set (run_trace (pod_Reconcile c r req) w)"
  "OnPod (DoCreate p e) \<notin> set (run_trace (pod_Reconcile c r req) w)"
proof -
  have c: "claim_run r n u \<Longrightarrow> y \<in> set u \<Longrightarrow> \<exists>v. y = OnPVC v" for n u y
    by (auto elim!: claim_run.cases)
  obtain err pod u where t: "run_trace (pod_Reconcile c r req) w = OnPod (DoGet req err pod) # u"
    and u: "u = [] \<or> (\<exists>ts. u = concat ts \<and> list_all2 (claim_run r) (writeablePVCs pod) ts)"
    using pod_Reconcile_run [THEN tspec_run, of c r req w] by (auto split: option.splits)
  have "\<exists>v. y = OnPVC v" if "y \<in> set u" for y
  proof -
    from u that obtain ts v where "list_all2 (claim_run r) (writeablePVCs pod) ts" "v \<in> set ts" "y \<in> set v"
      by auto
    then show ?thesis using c by (metis in_set_conv_nth list_all2_conv_all_nth)
  qed
  with t show "OnPV (DoCreate v e) \<notin> set (run_trace (pod_Reconcile c r req) w)"
    "OnPod (DoCreate p e) \<notin> set (run_trace (pod_Reconcile c r req) w)" by fastforce+
qed

lemma sp_creates_nothing:
  "OnPV (DoCreate v e) \<notin> set (run_trace (sp_Reconcile x c now r req) w)"
  "OnPod (DoCreate p e) \<notin> set (run_trace (sp_Reconcile x c now r req) w)"
proof -
  have "tspec (sp_Reconcile x c now r req) (\<lambda>o1 t. \<forall>y \<in> set t. \<exists>v. y = OnSP v)"
    unfolding sp_Reconcile_def by (intro tspec_intros) (auto intro!: tspec_intros split: prod.splits)
  from tspec_run [OF this, of w] show "OnPV (DoCreate v e) \<notin> set (run_trace (sp_Reconcile x c now r req) w)"
    "OnPod (DoCreate p e) \<notin> set (run_trace (sp_Reconcile x c now r req) w)" by blast+
qed

lemma run_trace_eq: "m (start w) = (o1, s) \<Longrightarrow> trace s = run_trace m w"
  by (simp add: run_trace_def)

lemmas creates_nothing = pv_creates_no_volume pod_creates_nothing sp_creates_nothing

text \<open>
  C4. Whatever the controllers of a manager have done before, and in whatever order: a volume is only
  created by a reconciliation of a claim whose annotation names a provisioner that is in the registry at
  that time, under its own name and valid, and only after a pod of the manager's namespace was seen to
  have succeeded.
\<close>
theorem manager_creates_volumes:
  assumes "manager_reach x c ns m" "manager_step x c ns m t m'" "OnPV (DoCreate v e) \<in> set t"
  shows "\<exists>req claim spec u n pod. t = OnPVC (DoGet req None claim) # u
    \<and> Get (mg_registry m) (mget (m_Annotations (pvc_meta claim)) annStorageProvisioner) = Some spec
    \<and> GetProvisionerName spec = mget (m_Annotations (pvc_meta claim)) annStorageProvisioner
    \<and> validateProvisioner x spec = None
    \<and> OnPod (DoGet n None pod) \<in> set u \<and> nn_Namespace n = ns \<and> pod_Phase pod = PodSucceeded
    \<and> map_option r_UID (s_ClaimRef (pv_spec v)) = Some (m_UID (pvc_meta claim))"
  using assms(2)
proof (cases rule: manager_step.cases)
  case (claim req o1 s)
  let ?r = "claim_reconciler ns (mg_registry m)"
  have t: "t = run_trace (pvc_Reconcile x c ?r req) (mg_cluster m)" using claim by (simp add: run_trace_def)
  show ?thesis
  proof (rule pvc_live_entry [OF assms(3) [unfolded t]], goal_cases)
    case (3 cl spec u)
    then obtain n where n: "provisioner_pod ?r cl n" "volume_from_pod x cl n u v"
      by (auto simp: serves_def provisions_def)
    moreover have g: "Get (mg_registry m) (mget (m_Annotations (pvc_meta cl)) annStorageProvisioner) = Some spec"
      using 3 by (auto simp: resolveProvisioner_def claim_reconciler_def split: option.splits)
    moreover have "nn_Namespace n = ns" using n(1) by (auto simp: provisioner_pod_def claim_reconciler_def)
    ultimately show ?thesis
      using registry_inv_Get [OF registry_reach_registry_inv [OF manager_reach_registry [OF assms(1)]] g] 3(1) t
      by (fastforce simp: volume_from_pod_def provisioned_volume_fields)
  qed (auto simp: cleans_def)
qed (use assms(3) in \<open>auto dest!: run_trace_eq simp: creates_nothing\<close>)

text \<open>
  C22. Every pod the manager creates lives in the manager's own namespace and is never restarted: the
  provisioner and deprovisioner pods, which run with the rights to change the nodes' file systems,
  cannot be made to appear in the namespace of a claim.
\<close>
theorem manager_pods_confined:
  assumes "manager_step x c ns m t m'" "OnPod (DoCreate p e) \<in> set t"
  shows "m_Namespace (pod_meta p) = ns \<and> p_RestartPolicy (pod_spec p) = RestartPolicyNever"
  using assms(1)
proof (cases rule: manager_step.cases)
  case (claim req o1 s)
  then have t: "t = run_trace (pvc_Reconcile x c (claim_reconciler ns (mg_registry m)) req) (mg_cluster m)"
    by (simp add: run_trace_def)
  show ?thesis
    by (rule pvc_live_entry [OF assms(2) [unfolded t]])
      (auto simp: cleans_def serves_def provisions_def provisioner_pod_def claim_reconciler_def)
next
  case (volume req o1 s)
  then have t: "t = run_trace (pv_Reconcile x c (volume_reconciler ns (mg_registry m)) req) (mg_cluster m)"
    by (simp add: run_trace_def)
  show ?thesis
    by (rule pv_entry [OF assms(2) [unfolded t]])
      (auto simp: finalizes_def checks_def deprovisions_def deprovisioner_pod_def volume_reconciler_def)
qed (use assms(2) in \<open>auto dest!: run_trace_eq simp: creates_nothing\<close>)

section \<open>A manager with one provisioner\<close>

definition example_manager :: "unit manager" where
  "example_manager = \<lparr>mg_registry = [(''p.example'', Some example_provisioner)], mg_cluster = ()\<rparr>"

lemma example_manager_reconciler: "claim_reconciler ''mgr'' (mg_registry example_manager) = example_pvc_reconciler"
  by (auto simp: claim_reconciler_def example_pvc_reconciler_def example_manager_def Get_def)

lemma example_manager_reach: "manager_reach plain_ext c ''mgr'' example_manager"
  unfolding example_manager_def
proof (rule manager_reach.started)
  show "LoadProvisioners plain_ext (listing_client [example_provisioner]) ''mgr'' (start ()) =
      (Ret (Inr [(''p.example'', Some example_provisioner)]), \<lparr>world = (), trace = [ListSP ''mgr'']\<rparr>)"
    by (simp add: LoadProvisioners_def listing_client_def bind_def call_def ret_def start_def newProvisioners_def
        Put_def example_valid example_name)
qed

lemma example_manager_step:
  "manager_step plain_ext (example_pvc_client p) ''mgr'' example_manager
     (run_trace (pvc_Reconcile plain_ext (example_pvc_client p) example_pvc_reconciler \<lparr>nn_Name = ''claim'', nn_Namespace = ''ns''\<rparr>) ())
     (example_manager\<lparr>mg_cluster := ()\<rparr>)"
proof -
  let ?run = "pvc_Reconcile plain_ext (example_pvc_client p) example_pvc_reconciler \<lparr>nn_Name = ''claim'', nn_Namespace = ''ns''\<rparr>"
  obtain o1 s where r: "?run (start ()) = (o1, s)" by fastforce
  with manager_step.claim [of plain_ext "example_pvc_client p" "''mgr''" example_manager, unfolded example_manager_reconciler]
  show ?thesis by (auto simp: run_trace_def)
qed

theorem manager_creates_volumes_witness:
  "\<exists>t m' v e. manager_step plain_ext (example_pvc_client (None, example_pod)) ''mgr'' example_manager t m' \<and>
     OnPV (DoCreate v e) \<in> set t \<and> (\<exists>spec. validateProvisioner plain_ext spec = None \<and>
       Get (mg_registry example_manager) (GetProvisionerName spec) = Some spec)"
proof -
  obtain v e where v: "OnPV (DoCreate v e) \<in> set (run_trace (pvc_Reconcile plain_ext (example_pvc_client (None, example_pod))
     example_pvc_reconciler \<lparr>nn_Name = ''claim'', nn_Namespace = ''ns''\<rparr>) ())"
    using example_creates_volume by blast
  from manager_creates_volumes [OF example_manager_reach example_manager_step v] v example_manager_step show ?thesis
    by metis
qed

theorem manager_pods_confined_witness:
  "\<exists>t m' p e. manager_step plain_ext (example_pvc_client (Some not_found, zero_pod)) ''mgr'' example_manager t m' \<and>
     OnPod (DoCreate p e) \<in> set t \<and> m_Namespace (pod_meta p) = ''mgr''"
proof -
  obtain p e where p: "OnPod (DoCreate p e) \<in> set (run_trace (pvc_Reconcile plain_ext
     (example_pvc_client (Some not_found, zero_pod)) example_pvc_reconciler \<lparr>nn_Name = ''claim'', nn_Namespace = ''ns''\<rparr>) ())"
    using example_creates_pod by blast
  from manager_pods_confined [OF example_manager_step p] p example_manager_step show ?thesis by blast
qed

section \<open>From the pod controller to the claim controller\<close>

text \<open>
  C27. The two controllers meet on the annotation: a claim that the pod controller has marked is, once it is
  being deleted, freed of the protection finalizer by the next reconciliation of the claim, which sends
  nothing else; without the mark the claim controller leaves a protected claim alone.
\<close>
theorem marked_claim_is_released:
  assumes "m_DeletionTimestamp (pvc_meta claim) \<noteq> None" "finalizerPVCProtection \<in> set (m_Finalizers (pvc_meta claim))"
    and get: "rc_get (cl_pvc c) req zero_pvc w = ((None, claim'), w')" and "claim' = claim \<or> claim' = disclaimed claim"
  shows "unprotected (disclaimed claim) \<and>
    (if unprotected claim'
     then \<exists>e. run_trace (pvc_Reconcile x c r req) w = [OnPVC (DoGet req None claim'),
         OnPVC (DoStatusUpdate (pvc_with claim' (filter (\<lambda>f. f \<noteq> finalizerPVCProtection) (m_Finalizers (pvc_meta claim)))) e)] \<and>
       run_result (pvc_Reconcile x c r req) w = Ret e
     else run_trace (pvc_Reconcile x c r req) w = [OnPVC (DoGet req None claim')] \<and>
       run_result (pvc_Reconcile x c r req) w = Ret None)"
proof -
  have m: "m_DeletionTimestamp (pvc_meta claim') \<noteq> None" "m_Finalizers (pvc_meta claim') = m_Finalizers (pvc_meta claim)"
    using assms(1,4) by (auto simp: disclaimed_def)
  have u: "unprotected (disclaimed claim)"
    by (simp add: unprotected_def disclaimed_def mget_mput)
  obtain e y w2 where s: "rc_status_update (cl_pvc c)
      (pvc_with claim' (filter (\<lambda>f. f \<noteq> finalizerPVCProtection) (m_Finalizers (pvc_meta claim)))) w' = ((e, y), w2)"
    by (metis prod.exhaust)
  show ?thesis
    using assms(2) m u get s
    by (auto simp: run_trace_def run_result_def pvc_Reconcile_def pvc_reconcile_deleted_def pvc_update_finalizers_def
        unprotected_def k_defs bind_def call_def ret_def start_def string_list_eqs Let_def)
qed

theorem marked_claim_is_released_witness:
  "let claim = pvc_with (example_claim (Some 1)) [finalizerPVCProtection, finalizer];
       c = answering_client (None, disclaimed claim) (None, zero_pv) (None, zero_pod) (None, zero_sc)
   in \<exists>e. OnPVC (DoStatusUpdate (pvc_with (disclaimed claim) [finalizer]) e)
        \<in> set (run_trace (pvc_Reconcile plain_ext c example_pvc_reconciler \<lparr>nn_Name = ''claim'', nn_Namespace = ''ns''\<rparr>) ())"
proof -
  let ?claim = "pvc_with (example_claim (Some 1)) [finalizerPVCProtection, finalizer]"
  let ?c = "answering_client (None, disclaimed ?claim) (None, zero_pv) (None, zero_pod) (None, zero_sc)"
  have "rc_get (cl_pvc ?c) \<lparr>nn_Name = ''claim'', nn_Namespace = ''ns''\<rparr> zero_pvc () = ((None, disclaimed ?claim), ())"
    by (simp add: answering_def)
  from marked_claim_is_released [OF _ _ this, of ?claim plain_ext example_pvc_reconciler] show ?thesis
    by (auto simp: Let_def pvc_with_def example_claim_simps)
qed

end
