(* ===== verification/CacheController.thy ===== *)
theory CacheController
  imports Jobs UtilConditions
begin

text \<open>
  \<^verbatim>\<open>internal/controllers/cache_controller.go\<close>: the finalizer of a \<open>Cache\<close> and the pod that frees its
  storage.  All functions of the reconciler, and the closure that makes the pod, work on one \<open>Cache\<close>
  they hold a pointer to.  That object is a variable next to the world: \<open>get_local\<close> reads it, \<open>set_local\<close>
  writes it, \<open>local_client\<close> is the client of the program seen from there and \<open>with_local\<close> runs a program
  with the variable in scope.  \<open>cache_clock\<close> holds the clock readings of one reconciliation.
\<close>

section \<open>A variable shared by reference\<close>

definition beside :: "('w \<Rightarrow> 'r \<times> 'w) \<Rightarrow> 'w \<times> 'h \<Rightarrow> 'r \<times> ('w \<times> 'h)" where
  "beside f = (\<lambda>(w, h). case f w of (r, w') \<Rightarrow> (r, (w', h)))"

definition local_resource :: "('k, 'w) resource \<Rightarrow> ('k, 'w \<times> 'h) resource" where
  "local_resource r =
     \<lparr>rc_get = (\<lambda>n x. beside (rc_get r n x)), rc_create = (\<lambda>x. beside (rc_create r x)),
      rc_update = (\<lambda>x. beside (rc_update r x)), rc_status_update = (\<lambda>x. beside (rc_status_update r x)),
      rc_delete = (\<lambda>x. beside (rc_delete r x))\<rparr>"

definition local_client :: "'w client \<Rightarrow> ('w \<times> 'h) client" where
  "local_client c =
     \<lparr>cl_pvc = local_resource (cl_pvc c), cl_pv = local_resource (cl_pv c), cl_pod = local_resource (cl_pod c),
      cl_sc = local_resource (cl_sc c), cl_cache = local_resource (cl_cache c), cl_sp = local_resource (cl_sp c),
      cl_sp_list = (\<lambda>ns. beside (cl_sp_list c ns))\<rparr>"

definition get_local :: "('w \<times> 'h, 'e, 'h) go" where
  "get_local s = (Ret (snd (world s)), s)"

definition set_local :: "'h \<Rightarrow> ('w \<times> 'h, 'e, unit) go" where
  "set_local v s = (Ret (), s\<lparr>world := (fst (world s), v)\<rparr>)"

definition with_local :: "'h \<Rightarrow> ('w \<times> 'h, 'e, 'a) go \<Rightarrow> ('w, 'e, 'a) go" where
  "with_local v m s =
     (case m \<lparr>world = (world s, v), trace = trace s\<rparr> of
        (r, s') \<Rightarrow> (r, \<lparr>world = fst (world s'), trace = trace s'\<rparr>))"

section \<open>The reconciler\<close>

definition annCacheName :: string where
  "annCacheName = ''k8storagex.mgoltzsche.github.com/cache-name''"

definition annCacheNamespace :: string where
  "annCacheNamespace = ''k8storagex.mgoltzsche.github.com/cache-namespace''"

record cache_reconciler =
  hr_ManagerNamespace :: string
  hr_ServiceAccountName :: string

record cache_clock =
  ck_lock :: time
  ck_condition :: time
  ck_reset :: time
  ck_cleared :: time

type_synonym ('w, 'a) cache_prog = "('w \<times> cache, 'a) prog"

definition imageUntagPodName :: "cache \<Rightarrow> string" where
  "imageUntagPodName ca = m_Name (ca_meta ca)"

definition set_cache_condition :: "time \<Rightarrow> cache \<Rightarrow> condition \<Rightarrow> cache \<times> bool" where
  "set_cache_condition now ca newCond =
     (case SetCondition now (cst_Conditions (ca_status ca)) newCond of
        (cs, changed) \<Rightarrow> (ca\<lparr>ca_status := (ca_status ca)\<lparr>cst_Conditions := cs\<rparr>\<rparr>, changed))"

definition setPodsClearedCondition :: "time \<Rightarrow> cache \<Rightarrow> string \<Rightarrow> string \<Rightarrow> string \<Rightarrow> cache \<times> bool" where
  "setPodsClearedCondition now ca status reason message =
     set_cache_condition now ca
       \<lparr>c_Type = ConditionPodsCleared, c_Status = status, c_ObservedGeneration = m_Generation (ca_meta ca),
        c_LastTransitionTime = 0, c_Reason = reason, c_Message = message\<rparr>"

text \<open>\<^verbatim>\<open>r.Client.Status().Update(ctx, cache)\<close>: the response is written to the object.\<close>
definition update_cache_status :: "'w client \<Rightarrow> ('w, go_error option) cache_prog" where
  "update_cache_status c =
     bind get_local (\<lambda>ca.
     bind (k_status_update (cl_cache (local_client c)) OnCache ca) (\<lambda>(err, ca').
     bind (set_local ca') (\<lambda>_. ret err)))"

definition deletePod :: "'w client \<Rightarrow> cache_reconciler \<Rightarrow> string \<Rightarrow> ('w, go_error option) cache_prog" where
  "deletePod c r name =
     bind (k_get (cl_pod (local_client c)) OnPod \<lparr>nn_Name = name, nn_Namespace = hr_ManagerNamespace r\<rparr> zero_pod) (\<lambda>(err, pod).
     case err of
       Some e \<Rightarrow> if IsNotFound e then ret None else ret (Some e)
     | None \<Rightarrow>
         bind (k_delete (cl_pod (local_client c)) OnPod pod) (\<lambda>err.
         ret (case err of None \<Rightarrow> Some (Errorf ''pod deletion pending'' []) | Some e \<Rightarrow> Some e)))"

fun delete_pods_loop :: "'w client \<Rightarrow> cache_reconciler \<Rightarrow> string list \<Rightarrow> go_error option \<Rightarrow>
    ('w, go_error option) cache_prog" where
  "delete_pods_loop c r [] err = ret err"
| "delete_pods_loop c r (pod # podNames) err =
     bind (deletePod c r pod) (\<lambda>e.
     delete_pods_loop c r podNames (if e \<noteq> None \<and> err = None then e else err))"

text \<open>The condition that \<open>deletePods\<close> leaves, from the first error.\<close>
definition cleared_condition :: "time \<Rightarrow> cache \<Rightarrow> go_error option \<Rightarrow> cache \<times> bool" where
  "cleared_condition now ca err =
     (case err of
        Some e \<Rightarrow> setPodsClearedCondition now ca ConditionFalse ''PodDeletionFailed'' (error_string e)
      | None \<Rightarrow> setPodsClearedCondition now ca ConditionTrue ''Completed'' ''all pods removed'')"

definition pods_cleared :: "cache \<Rightarrow> bool" where
  "pods_cleared ca \<longleftrightarrow>
     (case GetCondition (cst_Conditions (ca_status ca)) ConditionPodsCleared of
        None \<Rightarrow> False | Some cond \<Rightarrow> c_Status cond = ConditionTrue)"

definition deletePods :: "'w client \<Rightarrow> cache_reconciler \<Rightarrow> time \<Rightarrow> string list \<Rightarrow> ('w, go_error option) cache_prog" where
  "deletePods c r now podNames =
     bind get_local (\<lambda>ca.
     if pods_cleared ca then ret None
     else
       bind (delete_pods_loop c r podNames None) (\<lambda>err.
       case cleared_condition now ca err of
         (ca', changed) \<Rightarrow>
           bind (set_local ca') (\<lambda>_.
           if changed then
             bind (update_cache_status c) (\<lambda>e. ret (if e \<noteq> None \<and> err = None then e else err))
           else ret err)))"

text \<open>The pod that is to free the storage.\<close>
definition untag_pod :: "cache_reconciler \<Rightarrow> cache \<Rightarrow> pod" where
  "untag_pod r ca =
     zero_pod\<lparr>pod_meta := zero_meta\<lparr>m_Annotations := Some [annCacheName \<mapsto> m_Name (ca_meta ca),
         annCacheNamespace \<mapsto> m_Namespace (ca_meta ca)]\<rparr>,
       pod_spec := zero_podspec\<lparr>p_ServiceAccountName := hr_ServiceAccountName r,
         p_RestartPolicy := RestartPolicyNever,
         p_Containers := [\<lparr>k_Name = ''image-untagger'', k_Image = ''TODO'', k_Command = None,
           k_Args = [''untag image within registry''], k_Env = [], k_VolumeMounts = []\<rparr>]\<rparr>\<rparr>"

text \<open>The closure passed to \<^verbatim>\<open>ReconcilePod\<close>: it locks the cache before the pod is created.\<close>
definition lock_and_create :: "'w client \<Rightarrow> cache_reconciler \<Rightarrow> cache_clock \<Rightarrow> ('w, go_error + pod) cache_prog" where
  "lock_and_create c r ck =
     bind get_local (\<lambda>ca.
     let pod = untag_pod r ca
     in case setPodsClearedCondition (ck_lock ck) ca ConditionFalse ''PodDeletionPending'' ''new reset pod will be removed on success'' of
          (ca', changed) \<Rightarrow>
            bind (set_local ca') (\<lambda>_.
            if cst_Phase (ca_status ca') \<noteq> CachePhaseReject \<or> changed then
              bind (set_local (ca'\<lparr>ca_status := (ca_status ca')\<lparr>cst_CacheGeneration := cst_CacheGeneration (ca_status ca') + 1,
                  cst_Phase := CachePhaseReject\<rparr>\<rparr>)) (\<lambda>_.
              bind (update_cache_status c) (\<lambda>err.
              case err of
                Some e \<Rightarrow> ret (Inl e)
              | None \<Rightarrow>
                  bind get_local (\<lambda>ca.
                  bind (k_get (cl_cache (local_client c)) OnCache
                      \<lparr>nn_Name = m_Name (ca_meta ca), nn_Namespace = m_Namespace (ca_meta ca)\<rparr> ca) (\<lambda>(err, ca').
                  bind (set_local ca') (\<lambda>_.
                  ret (case err of Some e \<Rightarrow> Inl e | None \<Rightarrow> Inr pod))))))
            else ret (Inr pod)))"

definition reset_condition :: "cache \<Rightarrow> go_error option \<Rightarrow> condition" where
  "reset_condition ca err =
     (case err of
        Some e \<Rightarrow> \<lparr>c_Type = ConditionStorageReset, c_Status = ConditionFalse,
          c_ObservedGeneration = m_Generation (ca_meta ca), c_LastTransitionTime = 0,
          c_Reason = ''PendingImageDeletion'', c_Message = error_string e\<rparr>
      | None \<Rightarrow> \<lparr>c_Type = ConditionStorageReset, c_Status = ConditionTrue,
          c_ObservedGeneration = m_Generation (ca_meta ca), c_LastTransitionTime = 0,
          c_Reason = ''Success'', c_Message = ''Cache image has been untagged''\<rparr>)"

text \<open>What \<open>freeStorage\<close> makes of the result of \<^verbatim>\<open>ReconcilePod\<close>.\<close>
definition report_reset :: "'w client \<Rightarrow> cache_reconciler \<Rightarrow> cache_clock \<Rightarrow> string \<Rightarrow> bool \<Rightarrow> go_error option \<Rightarrow>
    ('w, go_error option) cache_prog" where
  "report_reset c r ck podName done err =
     bind get_local (\<lambda>ca.
     case set_cache_condition (ck_condition ck) ca (reset_condition ca err) of
       (ca', changed) \<Rightarrow>
         (case err of
            Some e0 \<Rightarrow>
              bind (set_local ca') (\<lambda>_.
              bind (if changed then update_cache_status c else ret None) (\<lambda>e.
              case e of
                Some e \<Rightarrow> ret (Some e)
              | None \<Rightarrow> if done then ret None else ret (Some e0)))
          | None \<Rightarrow>
              bind (set_local (ca'\<lparr>ca_status := (ca_status ca')\<lparr>cst_Phase := CachePhaseReady,
                  cst_LastReset := Some \<lparr>rs_CacheGeneration = m_Generation (ca_meta ca'), rs_ResetTime = ck_reset ck\<rparr>\<rparr>\<rparr>)) (\<lambda>_.
              bind (update_cache_status c) (\<lambda>err.
              case err of
                Some e \<Rightarrow> ret (Some e)
              | None \<Rightarrow> deletePods c r (ck_cleared ck) [podName]))))"

definition freeStorage :: "'w client \<Rightarrow> cache_reconciler \<Rightarrow> cache_clock \<Rightarrow> ('w, go_error option) cache_prog" where
  "freeStorage c r ck =
     bind get_local (\<lambda>ca.
     let podName = imageUntagPodName ca
     in if (case cst_LastReset (ca_status ca) of
              None \<Rightarrow> False | Some lr \<Rightarrow> rs_CacheGeneration lr = cst_CacheGeneration (ca_status ca))
        then deletePods c r (ck_cleared ck) [podName]
        else
          bind (ReconcilePod (local_client c) \<lparr>nn_Name = podName, nn_Namespace = hr_ManagerNamespace r\<rparr>
            (lock_and_create c r ck)) (\<lambda>(done, _, err).
          report_reset c r ck podName done err))"

definition finalize :: "'w client \<Rightarrow> cache_reconciler \<Rightarrow> cache_clock \<Rightarrow> ('w, go_error option) cache_prog" where
  "finalize c r ck =
     bind (freeStorage c r ck) (\<lambda>err.
     case err of
       Some e \<Rightarrow> ret (Some e)
     | None \<Rightarrow>
         bind get_local (\<lambda>ca.
         case RemoveString (m_Finalizers (ca_meta ca)) CacheFinalizer of
           (fs, removed) \<Rightarrow>
             bind (set_local (ca\<lparr>ca_meta := (ca_meta ca)\<lparr>m_Finalizers := fs\<rparr>\<rparr>)) (\<lambda>_.
             if removed then update_cache_status c else ret None)))"

definition cache_Reconcile :: "'w client \<Rightarrow> cache_reconciler \<Rightarrow> cache_clock \<Rightarrow> nsname \<Rightarrow> ('w, go_error option) prog" where
  "cache_Reconcile c r ck req =
     bind (k_get (cl_cache c) OnCache req zero_cache) (\<lambda>(err, ca).
     case err of
       Some e \<Rightarrow> if IsNotFound e then ret None else ret (Some e)
     | None \<Rightarrow>
         if m_DeletionTimestamp (ca_meta ca) \<noteq> None then with_local ca (finalize c r ck)
         else
           (case AddString (m_Finalizers (ca_meta ca)) CacheFinalizer of
              (fs, added) \<Rightarrow>
                if added then
                  bind (k_update (cl_cache c) OnCache (ca\<lparr>ca_meta := (ca_meta ca)\<lparr>m_Finalizers := fs\<rparr>\<rparr>)) (\<lambda>(err, _).
                  ret err)
                else ret None))"

section \<open>Claims about every possible trace\<close>

lemma tspec_get_local [tspec_intros]: "(\<And>v. tspec (f v) P) \<Longrightarrow> tspec (bind get_local f) P"
  unfolding tspec_def by (simp add: bind_def get_local_def)

lemma tspec_set_local [tspec_intros]: "tspec (f ()) P \<Longrightarrow> tspec (bind (set_local v) f) P"
  unfolding tspec_def
proof (intro allI, goal_cases)
  case (1 s)
  then show ?case by (auto simp: bind_def set_local_def dest: spec [of _ "s\<lparr>world := (fst (world s), v)\<rparr>"])
qed

text \<open>The status that is written is the object's.\<close>
lemma tspec_set_update:
  assumes "\<And>e. tspec (f e) (\<lambda>r u. P r (OnCache (DoStatusUpdate v e) # u))"
  shows "tspec (bind (set_local v) (\<lambda>_. bind (update_cache_status c) f)) P"
  unfolding tspec_def
proof
  fix s :: "('a \<times> cache, entry) sys"
  obtain e ca' w' where u: "rc_status_update (cl_cache c) v (fst (world s)) = ((e, ca'), w')"
    by (metis prod.exhaust)
  define s1 where "s1 = s\<lparr>world := (w', ca'), trace := trace s @ [OnCache (DoStatusUpdate v e)]\<rparr>"
  have "bind (set_local v) (\<lambda>_. bind (update_cache_status c) f) s = f e s1"
    using u
    by (cases s) (simp add: bind_def set_local_def update_cache_status_def get_local_def k_status_update_def call_def
        ret_def local_client_def local_resource_def beside_def s1_def)
  moreover obtain ext where "trace (snd (f e s1)) = trace s1 @ ext"
      "P (fst (f e s1)) (OnCache (DoStatusUpdate v e) # ext)"
    using assms [of e] unfolding tspec_def by blast
  ultimately show "\<exists>ext. trace (snd (bind (set_local v) (\<lambda>_. bind (update_cache_status c) f) s)) = trace s @ ext \<and>
      P (fst (bind (set_local v) (\<lambda>_. bind (update_cache_status c) f) s)) ext"
    by (auto simp: s1_def)
qed

lemma tspec_with_local: "tspec m P \<Longrightarrow> tspec (with_local v m) P"
  unfolding tspec_def
proof (intro allI, goal_cases)
  case (1 s)
  then show ?case
    by (auto simp: with_local_def split: prod.splits dest: spec [of _ "\<lparr>world = (world s, v), trace = trace s\<rparr>"])
qed

text \<open>A claim that depends on the variable's first value.\<close>
lemma tspec_with_local_get:
  assumes "tspec (f v) P" shows "tspec (with_local v (bind get_local f)) P"
proof -
  have "with_local v (bind get_local f) = with_local v (f v)"
    by (rule ext) (simp add: with_local_def bind_def get_local_def)
  then show ?thesis using tspec_with_local [OF assms] by simp
qed

section \<open>The pods\<close>

text \<open>The pod was seen to be gone.\<close>
definition seen_gone :: "cache_reconciler \<Rightarrow> entry list \<Rightarrow> string \<Rightarrow> bool" where
  "seen_gone r t name \<longleftrightarrow>
     (\<exists>e p. IsNotFound e \<and> OnPod (DoGet \<lparr>nn_Name = name, nn_Namespace = hr_ManagerNamespace r\<rparr> (Some e) p) \<in> set t)"

lemma deletePod_trace:
  "tspec (deletePod c r name)
     (\<lambda>res t. (\<forall>v. OnCache v \<notin> set t) \<and> res \<noteq> Panic \<and> (res = Ret None \<longrightarrow> seen_gone r t name))"
  unfolding deletePod_def by (intro tspec_intros) (auto simp: seen_gone_def split: option.splits)

lemma seen_gone_append [simp]: "seen_gone r (t @ u) n \<longleftrightarrow> seen_gone r t n \<or> seen_gone r u n"
  by (auto simp: seen_gone_def)

lemma delete_pods_loop_trace:
  "tspec (delete_pods_loop c r names err)
     (\<lambda>res t. (\<forall>v. OnCache v \<notin> set t) \<and> res \<noteq> Panic \<and>
        (res = Ret None \<longrightarrow> err = None \<and> (\<forall>n \<in> set names. seen_gone r t n)))"
proof (induction names arbitrary: err)
  case (Cons n names)
  show ?case
    unfolding delete_pods_loop.simps
    by (rule tspec_bind [OF deletePod_trace]) (auto intro!: tspec_mono [OF Cons] split: if_splits)
qed (auto intro!: tspec_intros)

lemma set_cache_condition_same:
  "set_cache_condition now ca n = (ca', changed) \<Longrightarrow>
     \<exists>c. GetCondition (cst_Conditions (ca_status ca')) (c_Type n) = Some c \<and> c_Status c = c_Status n"
  using GetCondition_SetCondition_same [of now "cst_Conditions (ca_status ca)" n]
  by (auto simp: set_cache_condition_def split: prod.splits)

lemma cleared_condition_status:
  assumes "cleared_condition now ca err = (ca', changed)"
  shows "pods_cleared ca' \<longleftrightarrow> err = None"
proof -
  obtain n where "set_cache_condition now ca n = (ca', changed)" "c_Type n = ConditionPodsCleared"
      "c_Status n = (if err = None then ConditionTrue else ConditionFalse)"
    using assms by (auto simp: cleared_condition_def setPodsClearedCondition_def split: option.splits)
  then show ?thesis
    using set_cache_condition_same [of now ca n ca' changed] by (auto simp: pods_cleared_def split: if_splits)
qed

text \<open>
  The condition \<open>PodsCleared\<close> is truthful: \<open>deletePods\<close> writes it as true only after the API server has
  answered for every one of the pods that it does not exist; it succeeds only then, or if the condition
  was true before, in which case it asks nothing.
\<close>
theorem pods_cleared_truthful:
  "let t = run_trace (with_local ca (deletePods c r now names)) w;
       res = run_result (with_local ca (deletePods c r now names)) w
   in (pods_cleared ca \<longrightarrow> t = [] \<and> res = Ret None) \<and>
      (\<not> pods_cleared ca \<and> res = Ret None \<longrightarrow> (\<forall>n \<in> set names. seen_gone r t n)) \<and>
      (\<forall>x e. OnCache (DoStatusUpdate x e) \<in> set t \<and> pods_cleared x \<longrightarrow> (\<forall>n \<in> set names. seen_gone r t n))"
proof -
  have "tspec (with_local ca (deletePods c r now names)) (\<lambda>res t.
      (pods_cleared ca \<longrightarrow> t = [] \<and> res = Ret None) \<and>
      (\<not> pods_cleared ca \<and> res = Ret None \<longrightarrow> (\<forall>n \<in> set names. seen_gone r t n)) \<and>
      (\<forall>x e. OnCache (DoStatusUpdate x e) \<in> set t \<and> pods_cleared x \<longrightarrow> (\<forall>n \<in> set names. seen_gone r t n)))"
    unfolding deletePods_def
  proof (rule tspec_with_local_get, goal_cases)
    case 1
    show ?case
    proof (cases "pods_cleared ca")
      case True
      then show ?thesis by (auto intro: tspec_ret)
    next
      case False
      have "tspec (case cleared_condition now ca err of (ca', changed) \<Rightarrow>
           bind (set_local ca') (\<lambda>_.
           if changed then
             bind (update_cache_status c) (\<lambda>e. ret (if e \<noteq> None \<and> err = None then e else err))
           else ret err))
         (\<lambda>res u. (res = Ret None \<longrightarrow> err = None) \<and> (\<forall>x e. OnCache (DoStatusUpdate x e) \<in> set u \<and> pods_cleared x \<longrightarrow> err = None))"
        for err
      proof (cases "cleared_condition now ca err")
        case (Pair ca' changed)
        with cleared_condition_status [OF Pair] show ?thesis
          by (cases changed)
            (simp_all only: Pair prod.case if_True if_False, rule tspec_set_update, auto intro!: tspec_set_local tspec_ret)
      qed
      note rest = this
      show ?thesis
        using False
        by (simp, intro tspec_bind [OF delete_pods_loop_trace]) (auto intro!: tspec_mono [OF rest])
    qed
  qed
  from tspec_run [OF this, of w] show ?thesis by (simp add: Let_def)
qed

section \<open>The finalizer\<close>

definition no_cache_update :: "entry list \<Rightarrow> bool" where
  "no_cache_update t \<longleftrightarrow> (\<forall>x e. OnCache (DoUpdate x e) \<notin> set t)"

lemma no_cache_update_simps [simp]:
  "no_cache_update []"
  "no_cache_update (x # t) \<longleftrightarrow> (\<forall>ca e. x \<noteq> OnCache (DoUpdate ca e)) \<and> no_cache_update t"
  "no_cache_update (t @ u) \<longleftrightarrow> no_cache_update t \<and> no_cache_update u"
  by (auto simp: no_cache_update_def)

lemma update_cache_status_trace: "tspec (update_cache_status c) (\<lambda>r t. no_cache_update t)"
  unfolding update_cache_status_def by (intro tspec_intros) auto

lemma deletePods_no_update: "tspec (deletePods c r now names) (\<lambda>res t. no_cache_update t)"
  unfolding deletePods_def
  by (intro tspec_intros tspec_bind [OF delete_pods_loop_trace] tspec_bind [OF update_cache_status_trace])
    (auto simp: no_cache_update_def)

lemma lock_and_create_no_update: "tspec (lock_and_create c r ck) (\<lambda>res t. no_cache_update t)"
  unfolding lock_and_create_def Let_def
  by (intro tspec_intros tspec_bind [OF update_cache_status_trace]) auto

lemma ReconcilePod_no_update:
  assumes "tspec create (\<lambda>res t. no_cache_update t)"
  shows "tspec (ReconcilePod c n create) (\<lambda>res t. no_cache_update t)"
  by (rule tspec_mono [OF ReconcilePod_run [OF assms]])
    (auto elim!: pod_run.cases pod_stopped.cases pod_seen.cases)

lemma report_reset_no_update: "tspec (report_reset c r ck n done err) (\<lambda>res t. no_cache_update t)"
proof -
  have upd: "tspec (if b then update_cache_status c else ret None) (\<lambda>r t. no_cache_update t)" for b
    by (auto intro!: update_cache_status_trace tspec_ret)
  show ?thesis
    unfolding report_reset_def
    by (intro tspec_intros tspec_bind [OF update_cache_status_trace] tspec_bind [OF upd]
        tspec_mono [OF deletePods_no_update]) auto
qed

lemma finalize_no_update: "tspec (finalize c r ck) (\<lambda>res t. no_cache_update t)"
proof -
  have "tspec (freeStorage c r ck) (\<lambda>res t. no_cache_update t)"
    unfolding freeStorage_def Let_def
    by (intro tspec_intros deletePods_no_update tspec_bind [OF ReconcilePod_no_update [OF lock_and_create_no_update]]
        tspec_mono [OF report_reset_no_update]) auto
  then show ?thesis
    unfolding finalize_def
    by (rule tspec_bind) (auto intro!: tspec_intros tspec_mono [OF update_cache_status_trace])
qed

text \<open>
  The cache controller adds its finalizer to every cache that is not being deleted and lacks it, in
  the only update of the object it ever sends.  In particular no update takes the finalizer away again:
  its removal is only ever sent to the status subresource, which ignores changes of the metadata.
\<close>
theorem cache_finalizer_only_added:
  assumes "OnCache (DoUpdate x e) \<in> set (run_trace (cache_Reconcile c r ck req) w)"
  shows "\<exists>ca. OnCache (DoGet req None ca) \<in> set (run_trace (cache_Reconcile c r ck req) w) \<and>
    m_DeletionTimestamp (ca_meta ca) = None \<and> CacheFinalizer \<notin> set (m_Finalizers (ca_meta ca)) \<and>
    x = ca\<lparr>ca_meta := (ca_meta ca)\<lparr>m_Finalizers := m_Finalizers (ca_meta ca) @ [CacheFinalizer]\<rparr>\<rparr>"
proof -
  let ?P = "\<lambda>t. \<forall>x e. OnCache (DoUpdate x e) \<in> set t \<longrightarrow> (\<exists>ca. OnCache (DoGet req None ca) \<in> set t \<and>
      m_DeletionTimestamp (ca_meta ca) = None \<and> CacheFinalizer \<notin> set (m_Finalizers (ca_meta ca)) \<and>
      x = ca\<lparr>ca_meta := (ca_meta ca)\<lparr>m_Finalizers := m_Finalizers (ca_meta ca) @ [CacheFinalizer]\<rparr>\<rparr>)"
  have "tspec (cache_Reconcile c r ck req) (\<lambda>res t. ?P t)"
    unfolding cache_Reconcile_def
    by (intro tspec_intros tspec_mono [OF tspec_with_local [OF finalize_no_update]])
      (auto simp: no_cache_update_def AddString_eq split: if_splits)
  from tspec_run [OF this, of w] assms show ?thesis by blast
qed

section \<open>An example\<close>

text \<open>A client that holds one cache; pods are never found and every write succeeds.\<close>
definition cache_only :: "cache \<Rightarrow> unit client" where
  "cache_only ca = (answering_client (None, zero_pvc) (None, zero_pv) (Some (Api NotFound ''no pod''), zero_pod)
     (None, zero_sc))\<lparr>cl_cache := answering (None, ca) None\<rparr>"

definition example_cache :: "time option \<Rightarrow> string list \<Rightarrow> cache" where
  "example_cache del fs = zero_cache\<lparr>ca_meta := zero_meta\<lparr>m_Name := ''c'', m_Namespace := ''ns'',
     m_DeletionTimestamp := del, m_Finalizers := fs\<rparr>\<rparr>"

definition manager_hr :: cache_reconciler where
  "manager_hr = \<lparr>hr_ManagerNamespace = ''sys'', hr_ServiceAccountName = ''sa''\<rparr>"

definition clock0 :: cache_clock where
  "clock0 = \<lparr>ck_lock = 1, ck_condition = 2, ck_reset = 3, ck_cleared = 4\<rparr>"

theorem pods_cleared_truthful_witness:
  "\<not> pods_cleared (example_cache None []) \<and>
   run_result (with_local (example_cache None []) (deletePods (cache_only zero_cache) manager_hr 4 [''c''])) () = Ret None \<and>
   seen_gone manager_hr (run_trace (with_local (example_cache None []) (deletePods (cache_only zero_cache) manager_hr 4 [''c''])) ()) ''c''"
proof -
  have "\<not> pods_cleared (example_cache None []) \<and>
     run_result (with_local (example_cache None []) (deletePods (cache_only zero_cache) manager_hr 4 [''c''])) () = Ret None"
    by code_simp
  with pods_cleared_truthful [of "example_cache None []" "cache_only zero_cache" manager_hr 4 "[''c'']" "()"]
  show ?thesis by (simp add: Let_def)
qed

theorem cache_finalizer_only_added_witness:
  "\<exists>x e ca. OnCache (DoUpdate x e) \<in>
     set (run_trace (cache_Reconcile (cache_only (example_cache None [])) manager_hr clock0 \<lparr>nn_Name = ''c'', nn_Namespace = ''ns''\<rparr>) ()) \<and>
     x = ca\<lparr>ca_meta := (ca_meta ca)\<lparr>m_Finalizers := m_Finalizers (ca_meta ca) @ [CacheFinalizer]\<rparr>\<rparr>"
proof -
  let ?t = "run_trace (cache_Reconcile (cache_only (example_cache None [])) manager_hr clock0 \<lparr>nn_Name = ''c'', nn_Namespace = ''ns''\<rparr>) ()"
  have "\<exists>x e. OnCache (DoUpdate x e) \<in> set ?t"
    by (simp add: run_exec cache_Reconcile_def cache_only_def exec_simps example_cache_def zero_cache_def zero_meta_def
        AddString_eq)
  then show ?thesis by (metis cache_finalizer_only_added)
qed

fun reports_reset :: "entry \<Rightarrow> bool" where
  "reports_reset (OnCache (DoStatusUpdate ca _)) =
     (case GetCondition (cst_Conditions (ca_status ca)) ConditionStorageReset of
        None \<Rightarrow> False | Some c \<Rightarrow> c_Status c = ConditionTrue)"
| "reports_reset _ = False"

fun sees_pod :: "entry \<Rightarrow> bool" where
  "sees_pod (OnPod (DoGet _ None _)) = True"
| "sees_pod _ = False"

text \<open>
  The storage is reported to be reset, in the reconciliation that has just created the pod: the result \<open>done\<close>
  of \<^verbatim>\<open>ReconcilePod\<close> is not looked at if there is no error.  No pod was seen, let alone one that succeeded.
\<close>
lemma reset_reported_without_pod:
  "let t = run_trace (cache_Reconcile (cache_only (example_cache (Some 7) [CacheFinalizer])) manager_hr clock0
       \<lparr>nn_Name = ''c'', nn_Namespace = ''ns''\<rparr>) ()
   in list_ex reports_reset t \<and> \<not> list_ex sees_pod t"
  by code_simp

end
