(* ===== verification/CacheSync.thy ===== *)
theory CacheSync
  imports KubeClient GoStd
begin

text \<open>
  \<^verbatim>\<open>internal/ksync/sync.go\<close>: the record of mounted cache volumes in the status of a \<open>Cache\<close> resource.

  A pointer into a slice is an index.  The clock is read at several places; \<open>readings\<close> holds what it
  shows at each of them during one attempt of an update, nothing is assumed about the values.
  \<^verbatim>\<open>retry.RetryOnConflict\<close> (client-go) is a parameter that is given the closure as a function of the
  number of the attempt and of the variables it captures (\<open>captured\<close>); where its behaviour matters
  the hypothesis is \<open>retries_on_conflict\<close>.
\<close>

record readings =
  t_node :: time
  t_created :: time
  t_check :: "nat \<Rightarrow> nat \<Rightarrow> time"
  t_happened :: time
  t_commit :: time

record captured =
  cap_image :: string
  cap_commit :: bool

definition commitTimeout :: time where
  "commitTimeout = 15 * 60 * 10 ^ 9"

section \<open>The nodes of a cache\<close>

fun node_index :: "string \<Rightarrow> node_status list \<Rightarrow> nat option" where
  "node_index nodeName [] = None"
| "node_index nodeName (n # ns) =
     (if ns_Name n = nodeName then Some 0 else map_option Suc (node_index nodeName ns))"

definition update_node :: "nat \<Rightarrow> (node_status \<Rightarrow> node_status) \<Rightarrow> cache_status \<Rightarrow> cache_status" where
  "update_node i f cs = cs\<lparr>cst_Nodes := (cst_Nodes cs)[i := f (cst_Nodes cs ! i)]\<rparr>"

definition new_node :: "string \<Rightarrow> time \<Rightarrow> node_status" where
  "new_node nodeName now = \<lparr>ns_Name = nodeName, ns_CacheGeneration = 0, ns_LastUsed = now, ns_LastImageID = [],
     ns_Volumes = [], ns_LastError = None\<rparr>"

text \<open>The index of the node, and the status with its entry made or refreshed.\<close>
definition upsertNode :: "time \<Rightarrow> cache_status \<Rightarrow> string \<Rightarrow> nat \<times> cache_status" where
  "upsertNode now cs nodeName =
     (case node_index nodeName (cst_Nodes cs) of
        Some i \<Rightarrow> (i, update_node i (\<lambda>n. n\<lparr>ns_LastUsed := now\<rparr>) cs)
      | None \<Rightarrow> (length (cst_Nodes cs), cs\<lparr>cst_Nodes := cst_Nodes cs @ [new_node nodeName now]\<rparr>))"

definition addVolume :: "readings \<Rightarrow> cache \<Rightarrow> string \<Rightarrow> string \<Rightarrow> bool \<Rightarrow> cache \<times> go_error option" where
  "addVolume rd c nodeName volName commit =
     (case upsertNode (t_node rd) (ca_status c) nodeName of
        (i, cs) \<Rightarrow>
          if list_ex (\<lambda>v. vs_Name v = volName) (ns_Volumes (cst_Nodes cs ! i)) then
            (c\<lparr>ca_status := cs\<rparr>,
             Some (Errorf ''volume %q on node %q already exists'' [AStr volName, AStr nodeName]))
          else
            let commit = (commit \<and> \<not> ca_ReadOnly c);
                cs = (if commit then cs\<lparr>cst_CacheGeneration := cst_CacheGeneration cs + 1\<rparr> else cs);
                v = \<lparr>vs_Name = volName, vs_CacheGeneration = cst_CacheGeneration cs, vs_Created = t_created rd,
                     vs_Committable = commit, vs_CommitStartTime = None\<rparr>
            in (c\<lparr>ca_status := update_node i (\<lambda>n. n\<lparr>ns_Volumes := ns_Volumes n @ [v]\<rparr>) cs\<rparr>, None))"

text \<open>
  The loop of \<^verbatim>\<open>removeVolume\<close>: the volumes kept, whether the pointer to the loop variable's generation
  has been taken, and the generation in the loop variable, which every iteration overwrites.
\<close>
fun remove_loop :: "string \<Rightarrow> volume_status list \<Rightarrow> volume_status list \<times> bool \<times> int64 \<Rightarrow>
    volume_status list \<times> bool \<times> int64" where
  "remove_loop volName [] s = s"
| "remove_loop volName (v # vs) (vols, taken, gen) =
     remove_loop volName vs
       (if vs_Name v \<noteq> volName then (vols @ [v], True, vs_CacheGeneration v)
        else (vols, taken, vs_CacheGeneration v))"

definition removeVolume :: "time \<Rightarrow> cache_status \<Rightarrow> string \<Rightarrow> string \<Rightarrow> nat \<times> int64 option \<times> cache_status" where
  "removeVolume now cs nodeName volName =
     (case upsertNode now cs nodeName of
        (i, cs) \<Rightarrow>
          (case remove_loop volName (ns_Volumes (cst_Nodes cs ! i)) ([], False, 0) of
             (vols, taken, gen) \<Rightarrow>
               (i, if taken then Some gen else None, update_node i (\<lambda>n. n\<lparr>ns_Volumes := vols\<rparr>) cs)))"

fun volume_index :: "string \<Rightarrow> volume_status list \<Rightarrow> nat option" where
  "volume_index volumeName [] = None"
| "volume_index volumeName (v # vs) =
     (if vs_Name v = volumeName then Some 0 else map_option Suc (volume_index volumeName vs))"

text \<open>The volume as a pair of indices.\<close>
definition findVolume :: "cache \<Rightarrow> string \<Rightarrow> string \<Rightarrow> go_error + nat \<times> nat" where
  "findVolume c nodeName volumeName =
     (let err = Errorf ''node %q not found in %T %s/%s'' [AStr nodeName, AStr ''v1alpha1.Cache'',
            AStr (m_Namespace (ca_meta c)), AStr (m_Name (ca_meta c))]
      in case node_index nodeName (cst_Nodes (ca_status c)) of
           None \<Rightarrow> Inl err
         | Some i \<Rightarrow>
             (case volume_index volumeName (ns_Volumes (cst_Nodes (ca_status c) ! i)) of
                None \<Rightarrow> Inl err
              | Some j \<Rightarrow> Inr (i, j)))"

section \<open>Commits in progress\<close>

text \<open>The condition of the inner loop of \<^verbatim>\<open>commitInProgress\<close>.\<close>
definition not_committing :: "time \<Rightarrow> volume_status \<Rightarrow> bool" where
  "not_committing now v =
     (case vs_CommitStartTime v of None \<Rightarrow> True | Some t \<Rightarrow> t + commitTimeout < now)"

fun scan_volumes :: "(nat \<Rightarrow> time) \<Rightarrow> nat \<Rightarrow> volume_status list \<Rightarrow> nat option" where
  "scan_volumes now j [] = None"
| "scan_volumes now j (v # vs) = (if not_committing (now j) v then Some j else scan_volumes now (Suc j) vs)"

fun scan_nodes :: "(nat \<Rightarrow> nat \<Rightarrow> time) \<Rightarrow> nat \<Rightarrow> node_status list \<Rightarrow> (nat \<times> nat) option" where
  "scan_nodes now i [] = None"
| "scan_nodes now i (n # ns) =
     (case scan_volumes (now i) 0 (ns_Volumes n) of
        Some j \<Rightarrow> Some (i, j)
      | None \<Rightarrow> scan_nodes now (Suc i) ns)"

definition commitInProgress :: "readings \<Rightarrow> cache \<Rightarrow> bool \<times> cache" where
  "commitInProgress rd c =
     (case scan_nodes (t_check rd) 0 (cst_Nodes (ca_status c)) of
        None \<Rightarrow> (False, c)
      | Some (i, j) \<Rightarrow>
          (let n = cst_Nodes (ca_status c) ! i; v = ns_Volumes n ! j
           in if vs_CommitStartTime v \<noteq> None then
                let err = \<lparr>ve_VolumeName = vs_Name v, ve_CacheGeneration = Some (vs_CacheGeneration v),
                           ve_Error = ''commit timed out'', ve_Happened = t_happened rd\<rparr>;
                    cs = update_node i (\<lambda>n. n\<lparr>ns_LastError := Some err,
                           ns_Volumes := (ns_Volumes n)[j := v\<lparr>vs_CommitStartTime := None\<rparr>]\<rparr>) (ca_status c)
                in (case removeVolume (t_node rd) cs (ns_Name n) (vs_Name v) of
                      (_, _, cs) \<Rightarrow> (True, c\<lparr>ca_status := cs\<rparr>))
              else (True, c)))"

section \<open>The modifications\<close>

text \<open>The closures of the three operations.  Each also updates the variables it captures.\<close>

definition register_volume :: "string \<Rightarrow> string \<Rightarrow> string \<Rightarrow> bool \<Rightarrow> readings \<Rightarrow> cache \<Rightarrow> captured \<Rightarrow> cache \<times> captured" where
  "register_volume nodeName volumeName defaultImage commit rd c x =
     (let image = cst_Image (ca_status c);
          empty = (image = []);
          image = (if empty then defaultImage else image);
          cs = (if empty then (ca_status c)\<lparr>cst_Image := defaultImage\<rparr> else ca_status c);
          cs = cs\<lparr>cst_Used := cst_Used cs + 1\<rparr>
      in (fst (addVolume rd (c\<lparr>ca_status := cs\<rparr>) nodeName volumeName commit), x\<lparr>cap_image := image\<rparr>))"

definition prepare_commit :: "string \<Rightarrow> string \<Rightarrow> readings \<Rightarrow> cache \<Rightarrow> captured \<Rightarrow> cache \<times> captured" where
  "prepare_commit nodeName volumeName rd c x =
     (if ca_ReadOnly c \<or> cst_Phase (ca_status c) = CachePhaseReject then (c, x\<lparr>cap_commit := False\<rparr>)
      else case findVolume c nodeName volumeName of
        Inl _ \<Rightarrow> (c, x\<lparr>cap_commit := False\<rparr>)
      | Inr (i, j) \<Rightarrow>
          if vs_Committable (ns_Volumes (cst_Nodes (ca_status c) ! i) ! j) then
            (case commitInProgress rd c of
               (True, c) \<Rightarrow> (c, x\<lparr>cap_commit := False\<rparr>)
             | (False, c) \<Rightarrow>
                 (c\<lparr>ca_status := update_node i (\<lambda>n. n\<lparr>ns_Volumes := (ns_Volumes n)
                      [j := (ns_Volumes n ! j)\<lparr>vs_CommitStartTime := Some (t_commit rd)\<rparr>]\<rparr>) (ca_status c)\<rparr>,
                  x\<lparr>cap_commit := True\<rparr>))
          else (c, x\<lparr>cap_commit := False\<rparr>))"

definition unregister_volume :: "string \<Rightarrow> string \<Rightarrow> go_error option \<Rightarrow> readings \<Rightarrow> cache \<Rightarrow> captured \<Rightarrow> cache \<times> captured" where
  "unregister_volume nodeName volumeName commitErr rd c x =
     (case removeVolume (t_node rd) (ca_status c) nodeName volumeName of
        (i, cacheGeneration, cs) \<Rightarrow>
          (c\<lparr>ca_status := update_node i (\<lambda>n. n\<lparr>ns_LastError :=
               (case commitErr of
                  Some e \<Rightarrow> Some \<lparr>ve_VolumeName = volumeName, ve_CacheGeneration = cacheGeneration,
                    ve_Error = error_string e, ve_Happened = t_happened rd\<rparr>
                | None \<Rightarrow> None)\<rparr>) cs\<rparr>, x))"

section \<open>The updater\<close>

record backoff =
  bo_Duration :: time
  bo_Factor :: nat
  bo_Steps :: nat

definition sync_backoff :: backoff where
  "sync_backoff = \<lparr>bo_Duration = 10 ^ 9, bo_Factor = 1, bo_Steps = 10\<rparr>"

type_synonym 'w retry =
  "backoff \<Rightarrow> (nat \<Rightarrow> captured \<Rightarrow> ('w, go_error option \<times> captured) prog) \<Rightarrow>
     captured \<Rightarrow> ('w, go_error option \<times> captured) prog"

text \<open>The closure given to \<^verbatim>\<open>RetryOnConflict\<close>: one attempt.\<close>
definition update_attempt :: "'w client \<Rightarrow> nsname \<Rightarrow> bool \<Rightarrow> (cache \<Rightarrow> captured \<Rightarrow> cache \<times> captured) \<Rightarrow>
    captured \<Rightarrow> ('w, go_error option \<times> captured) prog" where
  "update_attempt c name create modify x =
     bind (k_get (cl_cache c) OnCache name zero_cache) (\<lambda>(err, cache).
     bindR
       (case err of
          None \<Rightarrow> ret (Inr cache)
        | Some e \<Rightarrow>
            if \<not> IsNotFound e \<or> \<not> create then ret (Inl (Some e, x))
            else
              bind (k_create (cl_cache c) OnCache (cache\<lparr>ca_meta :=
                  (ca_meta cache)\<lparr>m_Name := nn_Name name, m_Namespace := nn_Namespace name\<rparr>\<rparr>)) (\<lambda>(err, cache).
              if err \<noteq> None \<and> \<not> IsAlreadyExists (the err) then ret (Inl (err, x))
              else
                bind (k_get (cl_cache c) OnCache name cache) (\<lambda>(err, cache).
                case err of Some e \<Rightarrow> ret (Inl (Some e, x)) | None \<Rightarrow> ret (Inr cache))))
       (\<lambda>cache.
          case modify cache x of
            (cache, x) \<Rightarrow>
              bind (k_status_update (cl_cache c) OnCache cache) (\<lambda>(err, _). ret (err, x))))"

definition updateCache :: "'w retry \<Rightarrow> 'w client \<Rightarrow> (nat \<Rightarrow> readings) \<Rightarrow> nsname \<Rightarrow> bool \<Rightarrow>
    (readings \<Rightarrow> cache \<Rightarrow> captured \<Rightarrow> cache \<times> captured) \<Rightarrow> captured \<Rightarrow>
    ('w, go_error option \<times> captured) prog" where
  "updateCache retry c clock name create modify =
     retry sync_backoff (\<lambda>k. update_attempt c name create (modify (clock k)))"

definition no_capture :: captured where
  "no_capture = \<lparr>cap_image = [], cap_commit = False\<rparr>"

definition RegisterCacheVolume :: "'w retry \<Rightarrow> 'w client \<Rightarrow> (nat \<Rightarrow> readings) \<Rightarrow> nsname \<Rightarrow> string \<Rightarrow> string \<Rightarrow>
    string \<Rightarrow> bool \<Rightarrow> ('w, string \<times> go_error option) prog" where
  "RegisterCacheVolume retry c clock cacheName nodeName volumeName defaultImage commit =
     bind (updateCache retry c clock cacheName True
             (register_volume nodeName volumeName defaultImage commit) no_capture)
       (\<lambda>(err, x). ret (cap_image x, wrap ''register volume in cluster'' [] err))"

definition PrepareCommit :: "'w retry \<Rightarrow> 'w client \<Rightarrow> (nat \<Rightarrow> readings) \<Rightarrow> nsname \<Rightarrow> string \<Rightarrow> string \<Rightarrow>
    ('w, bool \<times> go_error option) prog" where
  "PrepareCommit retry c clock cacheName nodeName volumeName =
     bind (updateCache retry c clock cacheName False (prepare_commit nodeName volumeName) no_capture)
       (\<lambda>(err, x).
          if err \<noteq> None \<and> IsNotFound (the err) then ret (False, None)
          else ret (cap_commit x, wrap ''prepare cache commit'' [] err))"

definition UnregisterCacheVolume :: "'w retry \<Rightarrow> 'w client \<Rightarrow> (nat \<Rightarrow> readings) \<Rightarrow> nsname \<Rightarrow> string \<Rightarrow> string \<Rightarrow>
    go_error option \<Rightarrow> ('w, go_error option) prog" where
  "UnregisterCacheVolume retry c clock cacheName nodeName volumeName commitErr =
     bind (updateCache retry c clock cacheName False
             (unregister_volume nodeName volumeName commitErr) no_capture)
       (\<lambda>(err, _).
          ret (wrap ''unregister volume %q from cluster'' [AStr volumeName]
                 (if err \<noteq> None \<and> IsNotFound (the err) then None else err)))"

section \<open>The volumes of a node\<close>

text \<open>The abstraction: for every node the volumes its entry lists.\<close>
definition volumes_of :: "cache_status \<Rightarrow> string \<Rightarrow> volume_status list" where
  "volumes_of cs nodeName =
     (case node_index nodeName (cst_Nodes cs) of None \<Rightarrow> [] | Some i \<Rightarrow> ns_Volumes (cst_Nodes cs ! i))"

definition node_names :: "cache_status \<Rightarrow> string list" where
  "node_names cs = map ns_Name (cst_Nodes cs)"

lemma volumes_of_cong:
  "cst_Nodes cs = cst_Nodes cs' \<Longrightarrow> volumes_of cs = volumes_of cs'"
  "cst_Nodes cs = cst_Nodes cs' \<Longrightarrow> node_names cs = node_names cs'"
  by (auto simp: volumes_of_def node_names_def fun_eq_iff split: option.split)

lemma node_index_None: "node_index x ns = None \<longleftrightarrow> x \<notin> ns_Name ` set ns"
  by (induction ns) auto

lemma node_index_Some:
  "node_index x ns = Some i \<Longrightarrow> i < length ns \<and> ns_Name (ns ! i) = x"
  by (induction ns arbitrary: i) (auto split: if_splits)

lemma node_index_update:
  "i < length ns \<Longrightarrow> ns_Name n = ns_Name (ns ! i) \<Longrightarrow> node_index x (ns[i := n]) = node_index x ns"
  by (induction ns arbitrary: i) (auto split: nat.splits)

lemma node_index_append:
  "node_index x (ns @ [n]) =
     (case node_index x ns of Some i \<Rightarrow> Some i | None \<Rightarrow> if ns_Name n = x then Some (length ns) else None)"
  by (induction ns) (auto split: option.splits)

lemma remove_loop_eq:
  "remove_loop x vs (a, t, g) =
     (a @ filter (\<lambda>v. vs_Name v \<noteq> x) vs, t \<or> (\<exists>v\<in>set vs. vs_Name v \<noteq> x),
      if vs = [] then g else vs_CacheGeneration (last vs))"
  by (induction vs arbitrary: a t g) auto

lemma update_node_simps [simp]:
  "length (cst_Nodes (update_node i f cs)) = length (cst_Nodes cs)"
  "i < length (cst_Nodes cs) \<Longrightarrow> cst_Nodes (update_node i f cs) ! i = f (cst_Nodes cs ! i)"
  "(update_node i f cs)\<lparr>cst_Nodes := ns\<rparr> = cs\<lparr>cst_Nodes := ns\<rparr>"
  by (simp_all add: update_node_def)

lemma update_node_names:
  assumes "i < length (cst_Nodes cs)" "\<And>n. ns_Name (f n) = ns_Name n"
  shows "node_names (update_node i f cs) = node_names cs"
    and "node_index x (cst_Nodes (update_node i f cs)) = node_index x (cst_Nodes cs)"
proof -
  have "(map ns_Name (cst_Nodes cs))[i := ns_Name (cst_Nodes cs ! i)] = map ns_Name (cst_Nodes cs)"
    using assms(1) by (metis length_map list_update_id nth_map)
  then show "node_names (update_node i f cs) = node_names cs"
    using assms by (simp add: node_names_def update_node_def map_update)
qed (use assms in \<open>simp add: update_node_def node_index_update\<close>)

lemma volumes_of_new_node:
  "volumes_of (cs\<lparr>cst_Nodes := cst_Nodes cs @ [new_node x now]\<rparr>) y = volumes_of cs y"
  by (cases "node_index y (cst_Nodes cs)")
     (auto simp: volumes_of_def node_index_append nth_append new_node_def dest: node_index_Some)

lemma volumes_of_LastUsed:
  "i < length (cst_Nodes cs) \<Longrightarrow>
   volumes_of (update_node i (\<lambda>n. n\<lparr>ns_LastUsed := now\<rparr>) cs) y = volumes_of cs y"
  by (auto simp: volumes_of_def update_node_def node_index_update nth_list_update split: option.splits)

text \<open>What every change of a node's entry that follows an \<open>upsertNode\<close> relies on.\<close>
lemma upsertNode_spec:
  assumes "upsertNode now cs x = (i, cs')"
  shows "i < length (cst_Nodes cs') \<and> ns_Name (cst_Nodes cs' ! i) = x
    \<and> node_index x (cst_Nodes cs') = Some i \<and> volumes_of cs' = volumes_of cs
    \<and> ns_Volumes (cst_Nodes cs' ! i) = volumes_of cs x
    \<and> node_names cs' = node_names cs @ (if x \<in> set (node_names cs) then [] else [x])
    \<and> cs'\<lparr>cst_Nodes := []\<rparr> = cs\<lparr>cst_Nodes := []\<rparr>"
proof (cases "node_index x (cst_Nodes cs)")
  case None
  then have "x \<notin> set (node_names cs)" using node_index_None [of x "cst_Nodes cs"] by (simp add: node_names_def)
  moreover from None have "volumes_of cs x = []" by (simp add: volumes_of_def)
  moreover have "ns_Name (new_node x now) = x" "ns_Volumes (new_node x now) = []" by (simp_all add: new_node_def)
  ultimately show ?thesis using assms None
    by (auto simp: upsertNode_def volumes_of_new_node fun_eq_iff node_index_append node_names_def)
next
  case (Some k)
  then have k: "k < length (cst_Nodes cs)" "ns_Name (cst_Nodes cs ! k) = x" using node_index_Some by auto
  then have "x \<in> set (node_names cs)" by (force simp: node_names_def)
  moreover have "volumes_of cs x = ns_Volumes (cst_Nodes cs ! k)" by (simp add: volumes_of_def Some)
  ultimately show ?thesis using assms Some k
    by (auto simp: upsertNode_def volumes_of_LastUsed fun_eq_iff update_node_names)
qed

lemma volumes_of_update_node:
  assumes "i < length (cst_Nodes cs)" "node_index x (cst_Nodes cs) = Some i" "\<And>n. ns_Name (f n) = ns_Name n"
  shows "volumes_of (update_node i f cs) y = (if y = x then ns_Volumes (f (cst_Nodes cs ! i)) else volumes_of cs y)"
proof -
  have "ns_Name (cst_Nodes cs ! i) = x" using assms(2) node_index_Some by blast
  then show ?thesis using assms
    by (auto simp: volumes_of_def update_node_def node_index_update nth_list_update
        split: option.splits dest: node_index_Some)
qed

lemma upserted_update:
  assumes "upsertNode now cs x = (i, cs')" "\<And>n. ns_Name (f n) = ns_Name n"
  shows "volumes_of (update_node i f (cs'\<lparr>cst_CacheGeneration := g\<rparr>)) =
      (volumes_of cs)(x := ns_Volumes (f (cst_Nodes cs' ! i)))"
    and "node_names (update_node i f (cs'\<lparr>cst_CacheGeneration := g\<rparr>)) =
      node_names cs @ (if x \<in> set (node_names cs) then [] else [x])"
proof -
  have names: "node_names (cs'\<lparr>cst_CacheGeneration := g\<rparr>) = node_names cs'" for g by (simp add: node_names_def)
  have vols: "volumes_of (cs'\<lparr>cst_CacheGeneration := g\<rparr>) = volumes_of cs'" for g
    by (rule volumes_of_cong) simp
  show "volumes_of (update_node i f (cs'\<lparr>cst_CacheGeneration := g\<rparr>)) =
      (volumes_of cs)(x := ns_Volumes (f (cst_Nodes cs' ! i)))"
    using upsertNode_spec [OF assms(1)] assms(2)
    by (simp add: fun_eq_iff volumes_of_update_node [where x = x] vols)
  show "node_names (update_node i f (cs'\<lparr>cst_CacheGeneration := g\<rparr>)) =
      node_names cs @ (if x \<in> set (node_names cs) then [] else [x])"
    using upsertNode_spec [OF assms(1)] assms(2) by (simp add: update_node_names names)
qed

lemmas upserted_update_plain = upserted_update [where g = "cst_CacheGeneration cs'" and cs' = cs' for cs', simplified]

text \<open>The entry a registration makes, and the generation it gives the cache.\<close>

definition registered_generation :: "bool \<Rightarrow> cache \<Rightarrow> int64" where
  "registered_generation commit c = (if commit \<and> \<not> ca_ReadOnly c then cst_CacheGeneration (ca_status c) + 1
     else cst_CacheGeneration (ca_status c))"

definition registered :: "string \<Rightarrow> bool \<Rightarrow> readings \<Rightarrow> cache \<Rightarrow> volume_status" where
  "registered volName commit rd c = \<lparr>vs_Name = volName, vs_CacheGeneration = registered_generation commit c,
     vs_Created = t_created rd, vs_Committable = (commit \<and> \<not> ca_ReadOnly c), vs_CommitStartTime = None\<rparr>"

definition listed :: "cache \<Rightarrow> string \<Rightarrow> string \<Rightarrow> bool" where
  "listed c nodeName volName \<longleftrightarrow> volName \<in> vs_Name ` set (volumes_of (ca_status c) nodeName)"

lemma addVolume_spec:
  assumes "addVolume rd c x v commit = (c', err)"
  shows "ca_meta c' = ca_meta c" "ca_ReadOnly c' = ca_ReadOnly c"
    and "err = None \<longleftrightarrow> \<not> listed c x v"
    and "volumes_of (ca_status c') = (if listed c x v then volumes_of (ca_status c)
      else (volumes_of (ca_status c))(x := volumes_of (ca_status c) x @ [registered v commit rd c]))"
    and "node_names (ca_status c') = node_names (ca_status c)
      @ (if x \<in> set (node_names (ca_status c)) then [] else [x])"
    and "(ca_status c')\<lparr>cst_Nodes := []\<rparr> = (ca_status c)\<lparr>cst_Nodes := [],
      cst_CacheGeneration := (if listed c x v then cst_CacheGeneration (ca_status c)
        else registered_generation commit c)\<rparr>"
proof -
  obtain i cs where u: "upsertNode (t_node rd) (ca_status c) x = (i, cs)" by fastforce
  have s: "ns_Volumes (cst_Nodes cs ! i) = volumes_of (ca_status c) x" "volumes_of cs = volumes_of (ca_status c)"
      "node_names cs = node_names (ca_status c) @ (if x \<in> set (node_names (ca_status c)) then [] else [x])"
      "cs\<lparr>cst_Nodes := []\<rparr> = (ca_status c)\<lparr>cst_Nodes := []\<rparr>"
    using upsertNode_spec [OF u] by auto
  then have g: "cst_CacheGeneration cs = cst_CacheGeneration (ca_status c)"
    by (metis cache_status.select_convs(2) cache_status.surjective cache_status.update_convs(8))
  then have g': "cs\<lparr>cst_CacheGeneration := cst_CacheGeneration (ca_status c)\<rparr> = cs" by (cases cs) simp
  have e: "list_ex (\<lambda>w. vs_Name w = v) (ns_Volumes (cst_Nodes cs ! i)) \<longleftrightarrow> listed c x v"
    by (auto simp: listed_def s list_ex_iff)
  note d = assms [unfolded addVolume_def u prod.case e Let_def]
  show "ca_meta c' = ca_meta c" "ca_ReadOnly c' = ca_ReadOnly c" "err = None \<longleftrightarrow> \<not> listed c x v"
    using d by (auto split: if_splits)
  have n: "c' = c\<lparr>ca_status := update_node i (\<lambda>n. n\<lparr>ns_Volumes := ns_Volumes n @ [registered v commit rd c]\<rparr>)
      (cs\<lparr>cst_CacheGeneration := registered_generation commit c\<rparr>)\<rparr>" if "\<not> listed c x v"
    using d that by (auto simp: registered_def registered_generation_def g g' split: if_splits)
  show "volumes_of (ca_status c') = (if listed c x v then volumes_of (ca_status c)
      else (volumes_of (ca_status c))(x := volumes_of (ca_status c) x @ [registered v commit rd c]))"
    using d s n by (auto simp: upserted_update [OF u] split: if_splits)
  show "node_names (ca_status c') = node_names (ca_status c)
      @ (if x \<in> set (node_names (ca_status c)) then [] else [x])"
    using d s n by (auto simp: upserted_update [OF u] split: if_splits)
  show "(ca_status c')\<lparr>cst_Nodes := []\<rparr> = (ca_status c)\<lparr>cst_Nodes := [],
      cst_CacheGeneration := (if listed c x v then cst_CacheGeneration (ca_status c)
        else registered_generation commit c)\<rparr>"
    using d s(4) g n by (cases "ca_status c", cases cs) (auto split: if_splits)
qed

lemma removeVolume_spec:
  assumes "removeVolume now cs x v = (i, gen, cs')"
  shows "volumes_of cs' = (volumes_of cs)(x := filter (\<lambda>w. vs_Name w \<noteq> v) (volumes_of cs x))"
    and "node_names cs' = node_names cs @ (if x \<in> set (node_names cs) then [] else [x])"
    and "cs'\<lparr>cst_Nodes := []\<rparr> = cs\<lparr>cst_Nodes := []\<rparr>"
    and "i < length (cst_Nodes cs')" "node_index x (cst_Nodes cs') = Some i"
    and "gen = (if \<exists>w\<in>set (volumes_of cs x). vs_Name w \<noteq> v
      then Some (vs_CacheGeneration (last (volumes_of cs x))) else None)"
proof -
  obtain j cs1 where u: "upsertNode now cs x = (j, cs1)" by fastforce
  note s = upsertNode_spec [OF u]
  have d: "i = j" "cs' = update_node i (\<lambda>n. n\<lparr>ns_Volumes := filter (\<lambda>w. vs_Name w \<noteq> v) (volumes_of cs x)\<rparr>) cs1"
    "gen = (if \<exists>w\<in>set (volumes_of cs x). vs_Name w \<noteq> v then Some (vs_CacheGeneration (last (volumes_of cs x))) else None)"
    using assms s by (auto simp: removeVolume_def u remove_loop_eq split: if_splits)
  then show "volumes_of cs' = (volumes_of cs)(x := filter (\<lambda>w. vs_Name w \<noteq> v) (volumes_of cs x))"
    "node_names cs' = node_names cs @ (if x \<in> set (node_names cs) then [] else [x])"
    using upserted_update_plain [OF u, where f = "\<lambda>n. n\<lparr>ns_Volumes := filter (\<lambda>w. vs_Name w \<noteq> v) (volumes_of cs x)\<rparr>"]
    by simp_all
  show "cs'\<lparr>cst_Nodes := []\<rparr> = cs\<lparr>cst_Nodes := []\<rparr>" "i < length (cst_Nodes cs')"
    "node_index x (cst_Nodes cs') = Some i"
    "gen = (if \<exists>w\<in>set (volumes_of cs x). vs_Name w \<noteq> v then Some (vs_CacheGeneration (last (volumes_of cs x))) else None)"
    using s d by (simp_all add: update_node_names)
qed

section \<open>What the modifications do\<close>

lemma registered_cong:
  "cst_CacheGeneration (ca_status c) = cst_CacheGeneration (ca_status c') \<Longrightarrow> ca_ReadOnly c = ca_ReadOnly c' \<Longrightarrow>
   registered v commit rd c = registered v commit rd c'"
  by (simp add: registered_def registered_generation_def)

lemma register_volume_spec:
  fixes c :: cache
  defines "cs \<equiv> ca_status c"
  assumes "register_volume x v img commit rd c s = (c', s')"
  shows "ca_meta c' = ca_meta c" "ca_ReadOnly c' = ca_ReadOnly c"
    and "cap_image s' = (if cst_Image cs = [] then img else cst_Image cs)"
    and "cst_Image (ca_status c') = cap_image s'"
    and "cst_Used (ca_status c') = cst_Used cs + 1"
    and "cst_CacheGeneration (ca_status c') =
      (if listed c x v then cst_CacheGeneration cs else registered_generation commit c)"
    and "volumes_of (ca_status c') = (if listed c x v then volumes_of cs
      else (volumes_of cs)(x := volumes_of cs x @ [registered v commit rd c]))"
    and "node_names (ca_status c') = node_names cs @ (if x \<in> set (node_names cs) then [] else [x])"
proof -
  define cs1 where "cs1 = cs\<lparr>cst_Image := (if cst_Image cs = [] then img else cst_Image cs), cst_Used := cst_Used cs + 1\<rparr>"
  define d where "d = c\<lparr>ca_status := cs1\<rparr>"
  have same: "cst_Nodes cs1 = cst_Nodes cs" "cst_CacheGeneration cs1 = cst_CacheGeneration cs"
    by (simp_all add: cs1_def)
  then have sv: "volumes_of cs1 = volumes_of cs" "node_names cs1 = node_names cs"
    by (auto intro: volumes_of_cong)
  have l: "listed d x v = listed c x v" by (simp add: listed_def d_def sv cs_def)
  have r: "registered v commit rd d = registered v commit rd c"
    "registered_generation commit d = registered_generation commit c"
    by (simp_all add: d_def same cs_def registered_def registered_generation_def)
  have "register_volume x v img commit rd c s = (fst (addVolume rd d x v commit),
      s\<lparr>cap_image := (if cst_Image cs = [] then img else cst_Image cs)\<rparr>)"
    by (cases "cst_Image cs = []") (simp_all add: register_volume_def Let_def d_def cs1_def cs_def)
  with assms(2) obtain err where a: "addVolume rd d x v commit = (c', err)"
    and s': "s' = s\<lparr>cap_image := (if cst_Image cs = [] then img else cst_Image cs)\<rparr>"
    by (cases "addVolume rd d x v commit") auto
  note sp = addVolume_spec [OF a, unfolded l r]
  have fields: "cst_Image (ca_status c') = cst_Image cs1" "cst_Used (ca_status c') = cst_Used cs1"
    "cst_CacheGeneration (ca_status c') =
      (if listed c x v then cst_CacheGeneration cs else registered_generation commit c)"
    using arg_cong [OF sp(6), of cst_Image] arg_cong [OF sp(6), of cst_Used]
      arg_cong [OF sp(6), of cst_CacheGeneration]
    by (simp_all add: d_def same)
  show "ca_meta c' = ca_meta c" "ca_ReadOnly c' = ca_ReadOnly c" using sp(1,2) by (simp_all add: d_def)
  show "cap_image s' = (if cst_Image cs = [] then img else cst_Image cs)"
    "cst_Image (ca_status c') = cap_image s'" "cst_Used (ca_status c') = cst_Used cs + 1"
    using fields s' by (simp_all add: cs1_def)
  show "cst_CacheGeneration (ca_status c') =
      (if listed c x v then cst_CacheGeneration cs else registered_generation commit c)" by (rule fields)
  show "volumes_of (ca_status c') = (if listed c x v then volumes_of cs
      else (volumes_of cs)(x := volumes_of cs x @ [registered v commit rd c]))"
    "node_names (ca_status c') = node_names cs @ (if x \<in> set (node_names cs) then [] else [x])"
    using sp(4,5) by (simp_all add: d_def sv)
qed

lemma unregister_volume_spec:
  assumes "unregister_volume x v commitErr rd c s = (c', s')"
  shows "ca_meta c' = ca_meta c" "ca_ReadOnly c' = ca_ReadOnly c" "s' = s"
    and "volumes_of (ca_status c') = (volumes_of (ca_status c))(x :=
      filter (\<lambda>w. vs_Name w \<noteq> v) (volumes_of (ca_status c) x))"
    and "node_names (ca_status c') = node_names (ca_status c)
      @ (if x \<in> set (node_names (ca_status c)) then [] else [x])"
    and "(ca_status c')\<lparr>cst_Nodes := []\<rparr> = (ca_status c)\<lparr>cst_Nodes := []\<rparr>"
proof -
  obtain i gen cs where r: "removeVolume (t_node rd) (ca_status c) x v = (i, gen, cs)" by (metis prod.exhaust)
  note sp = removeVolume_spec [OF r]
  obtain f where d: "c' = c\<lparr>ca_status := update_node i f cs\<rparr>" "s' = s"
    and f: "\<And>n. ns_Name (f n) = ns_Name n" "\<And>n. ns_Volumes (f n) = ns_Volumes n"
    using assms by (auto simp: unregister_volume_def r split: option.splits)
  have "volumes_of cs x = ns_Volumes (cst_Nodes cs ! i)" using sp(5) by (simp add: volumes_of_def)
  then have "volumes_of (update_node i f cs) = volumes_of cs"
    using sp(4,5) f by (simp add: fun_eq_iff volumes_of_update_node [where x = x])
  then show "volumes_of (ca_status c') = (volumes_of (ca_status c))(x :=
      filter (\<lambda>w. vs_Name w \<noteq> v) (volumes_of (ca_status c) x))"
    using sp(1) d by simp
  show "node_names (ca_status c') = node_names (ca_status c)
      @ (if x \<in> set (node_names (ca_status c)) then [] else [x])"
    using sp(2,4) d f by (simp add: update_node_names)
  show "ca_meta c' = ca_meta c" "ca_ReadOnly c' = ca_ReadOnly c" "s' = s"
    "(ca_status c')\<lparr>cst_Nodes := []\<rparr> = (ca_status c)\<lparr>cst_Nodes := []\<rparr>"
    using d sp(3) by simp_all
qed

text \<open>
  The error an unregistration records.  Its generation is that of the node's last volume, and it has
  none if the volume is the only one: the pointer is taken of the loop variable, and only for the
  volumes that stay.
\<close>
lemma unregister_volume_error:
  assumes "unregister_volume x v (Some e) rd c s = (c', s')"
  shows "\<exists>n\<in>set (cst_Nodes (ca_status c')). ns_Name n = x \<and> ns_LastError n = Some \<lparr>ve_VolumeName = v,
      ve_CacheGeneration = (if \<exists>w\<in>set (volumes_of (ca_status c) x). vs_Name w \<noteq> v
        then Some (vs_CacheGeneration (last (volumes_of (ca_status c) x))) else None),
      ve_Error = error_string e, ve_Happened = t_happened rd\<rparr>"
proof -
  obtain i gen cs where r: "removeVolume (t_node rd) (ca_status c) x v = (i, gen, cs)" by (metis prod.exhaust)
  note sp = removeVolume_spec [OF r]
  define f where "f = (\<lambda>n :: node_status. n\<lparr>ns_LastError := Some \<lparr>ve_VolumeName = v, ve_CacheGeneration = gen,
      ve_Error = error_string e, ve_Happened = t_happened rd\<rparr>\<rparr>)"
  have "c' = c\<lparr>ca_status := update_node i f cs\<rparr>"
    using assms by (simp add: unregister_volume_def r f_def)
  moreover have "ns_Name (cst_Nodes cs ! i) = x" using sp(5) node_index_Some by blast
  ultimately show ?thesis using sp(4,6) nth_mem [of i "cst_Nodes (update_node i f cs)"]
    by (intro bexI [of _ "f (cst_Nodes cs ! i)"]) (simp_all add: f_def)
qed

lemma prepare_commit_meta: "ca_meta (fst (prepare_commit x v rd c s)) = ca_meta c"
  by (auto simp: prepare_commit_def commitInProgress_def Let_def split: sum.splits option.splits prod.splits bool.splits)

section \<open>When a commit is granted\<close>

lemma scan_volumes_None: "scan_volumes now k vs = None \<longleftrightarrow> (\<forall>j < length vs. \<not> not_committing (now (k + j)) (vs ! j))"
  by (induction vs arbitrary: k) (auto simp: All_less_Suc2)

lemma scan_volumes_Some: "scan_volumes now k vs = Some j \<Longrightarrow> k \<le> j \<and> j - k < length vs \<and> not_committing (now j) (vs ! (j - k))"
  by (induction vs arbitrary: k) (fastforce split: if_splits simp: Suc_diff_le nth_Cons')+

lemma scan_nodes_None:
  "scan_nodes now k ns = None \<longleftrightarrow>
     (\<forall>i < length ns. \<forall>j < length (ns_Volumes (ns ! i)). \<not> not_committing (now (k + i) j) (ns_Volumes (ns ! i) ! j))"
proof (induction ns arbitrary: k)
  case (Cons n ns)
  show ?case
    using Cons.IH [of "Suc k"] scan_volumes_None [of "now k" 0 "ns_Volumes n"]
    by (cases "scan_volumes (now k) 0 (ns_Volumes n)") (auto simp: All_less_Suc2)
qed simp

lemma scan_nodes_Some:
  "scan_nodes now k ns = Some (i, j) \<Longrightarrow> k \<le> i \<and> i - k < length ns \<and> j < length (ns_Volumes (ns ! (i - k)))
     \<and> not_committing (now i j) (ns_Volumes (ns ! (i - k)) ! j)"
proof (induction ns arbitrary: k)
  case (Cons n ns)
  show ?case
  proof (cases "scan_volumes (now k) 0 (ns_Volumes n)")
    case None
    with Cons.prems have "scan_nodes now (Suc k) ns = Some (i, j)" by simp
    from Cons.IH [OF this] show ?thesis by (auto simp: nth_Cons' Suc_diff_le)
  next
    case (Some j')
    with Cons.prems scan_volumes_Some [OF Some] show ?thesis by auto
  qed
qed simp

text \<open>A volume on which a commit is running, as \<^verbatim>\<open>commitInProgress\<close> sees it.\<close>
definition committing :: "readings \<Rightarrow> cache \<Rightarrow> nat \<Rightarrow> nat \<Rightarrow> bool" where
  "committing rd c i j \<longleftrightarrow>
     \<not> not_committing (t_check rd i j) (ns_Volumes (cst_Nodes (ca_status c) ! i) ! j)"

lemma prepare_commit_granted:
  "cap_commit (snd (prepare_commit x v rd c s)) \<longleftrightarrow>
     \<not> ca_ReadOnly c \<and> cst_Phase (ca_status c) \<noteq> CachePhaseReject
   \<and> (\<exists>i j. findVolume c x v = Inr (i, j) \<and> vs_Committable (ns_Volumes (cst_Nodes (ca_status c) ! i) ! j))
   \<and> (\<forall>i < length (cst_Nodes (ca_status c)). \<forall>j < length (ns_Volumes (cst_Nodes (ca_status c) ! i)).
        committing rd c i j)"
proof -
  let ?all = "\<forall>i < length (cst_Nodes (ca_status c)). \<forall>j < length (ns_Volumes (cst_Nodes (ca_status c) ! i)).
    committing rd c i j"
  have "fst (commitInProgress rd c) \<longleftrightarrow> scan_nodes (t_check rd) 0 (cst_Nodes (ca_status c)) \<noteq> None"
    by (auto simp: commitInProgress_def Let_def split: option.splits prod.splits)
  then have "fst (commitInProgress rd c) \<longleftrightarrow> \<not> ?all" by (simp add: scan_nodes_None committing_def)
  then obtain b d where "commitInProgress rd c = (b, d)" "?all \<longleftrightarrow> \<not> b" by (cases "commitInProgress rd c") simp
  then show ?thesis
    by (cases b) (auto simp: prepare_commit_def split: sum.splits)
qed

lemma findVolume_Inr:
  "findVolume c x v = Inr (i, j) \<Longrightarrow> i < length (cst_Nodes (ca_status c))
     \<and> j < length (ns_Volumes (cst_Nodes (ca_status c) ! i))
     \<and> vs_Name (ns_Volumes (cst_Nodes (ca_status c) ! i) ! j) = v
     \<and> ns_Volumes (cst_Nodes (ca_status c) ! i) = volumes_of (ca_status c) x"
proof -
  have vi: "volume_index v vs = Some j \<Longrightarrow> j < length vs \<and> vs_Name (vs ! j) = v" for vs j
    by (induction vs arbitrary: j) (auto split: if_splits)
  show "findVolume c x v = Inr (i, j) \<Longrightarrow> ?thesis"
    by (auto simp: findVolume_def Let_def volumes_of_def split: option.splits dest: node_index_Some vi)
qed

section \<open>Operations in any order\<close>

text \<open>The nodes are distinct, and so are the volumes of a node; no commit has been started.\<close>
definition sync_inv :: "cache \<Rightarrow> bool" where
  "sync_inv c \<longleftrightarrow> distinct (node_names (ca_status c))
     \<and> (\<forall>x. distinct (map vs_Name (volumes_of (ca_status c) x)))
     \<and> (\<forall>x. \<forall>v \<in> set (volumes_of (ca_status c) x). vs_CommitStartTime v = None)"

lemma volumes_of_node:
  assumes "distinct (node_names cs)" "i < length (cst_Nodes cs)"
  shows "ns_Volumes (cst_Nodes cs ! i) = volumes_of cs (ns_Name (cst_Nodes cs ! i))"
proof -
  have "ns_Name (cst_Nodes cs ! i) \<in> ns_Name ` set (cst_Nodes cs)" using assms(2) by simp
  then obtain k where k: "node_index (ns_Name (cst_Nodes cs ! i)) (cst_Nodes cs) = Some k"
    using node_index_None by fastforce
  with node_index_Some [OF k] assms have "k = i"
    by (metis length_map node_names_def nth_eq_iff_index_eq nth_map)
  with k show ?thesis by (simp add: volumes_of_def)
qed

lemma prepare_commit_inv:
  assumes "sync_inv c"
  shows "prepare_commit x v rd c s = (c, s\<lparr>cap_commit := False\<rparr>)"
proof -
  have none: "vs_CommitStartTime (ns_Volumes (cst_Nodes (ca_status c) ! i) ! j) = None"
    if "i < length (cst_Nodes (ca_status c))" "j < length (ns_Volumes (cst_Nodes (ca_status c) ! i))" for i j
    using assms volumes_of_node [OF _ that(1)] nth_mem [OF that(2)] unfolding sync_inv_def by metis
  have keep: "snd (commitInProgress rd c) = c"
    using none scan_nodes_Some [of "t_check rd" 0 "cst_Nodes (ca_status c)"]
    by (fastforce simp: commitInProgress_def Let_def split: option.splits prod.splits)
  have "\<not> cap_commit (snd (prepare_commit x v rd c s))"
    using none by (auto simp: prepare_commit_granted committing_def not_committing_def dest!: findVolume_Inr)
  with keep show ?thesis
    by (cases "commitInProgress rd c") (auto simp: prepare_commit_def split: sum.splits if_splits bool.splits)
qed

text \<open>
  The contract of the updater, seen from the nodes: a table of the volumes mounted on each node, with
  operations that come in any order and with any parameters.
\<close>

datatype ('p, 'q, 'r) mount_op = Register 'p string string | Unregister 'q string string | Prepare 'r string string

fun op_step :: "('p \<Rightarrow> string \<Rightarrow> string \<Rightarrow> 's \<Rightarrow> 's) \<Rightarrow> ('q \<Rightarrow> string \<Rightarrow> string \<Rightarrow> 's \<Rightarrow> 's) \<Rightarrow>
    ('r \<Rightarrow> string \<Rightarrow> string \<Rightarrow> 's \<Rightarrow> 's) \<Rightarrow> ('p, 'q, 'r) mount_op \<Rightarrow> 's \<Rightarrow> 's" where
  "op_step reg unreg prep (Register p x v) = reg p x v"
| "op_step reg unreg prep (Unregister q x v) = unreg q x v"
| "op_step reg unreg prep (Prepare r x v) = prep r x v"

text \<open>The same operations on a plain set of mounts.\<close>
fun set_step :: "('p, 'q, 'r) mount_op \<Rightarrow> (string \<times> string) set \<Rightarrow> (string \<times> string) set" where
  "set_step (Register p x v) M = insert (x, v) M"
| "set_step (Unregister q x v) M = M - {(x, v)}"
| "set_step (Prepare r x v) M = M"

locale mount_table =
  fixes vols :: "'s \<Rightarrow> string \<Rightarrow> string list"
    and inv :: "'s \<Rightarrow> bool"
    and reg :: "'p \<Rightarrow> string \<Rightarrow> string \<Rightarrow> 's \<Rightarrow> 's"
    and unreg :: "'q \<Rightarrow> string \<Rightarrow> string \<Rightarrow> 's \<Rightarrow> 's"
    and prep :: "'r \<Rightarrow> string \<Rightarrow> string \<Rightarrow> 's \<Rightarrow> 's"
  assumes inv_reg: "inv s \<Longrightarrow> inv (reg p x v s)"
    and inv_unreg: "inv s \<Longrightarrow> inv (unreg q x v s)"
    and inv_distinct: "inv s \<Longrightarrow> distinct (vols s x)"
    and vols_reg: "inv s \<Longrightarrow>
      vols (reg p x v s) = (vols s)(x := if v \<in> set (vols s x) then vols s x else vols s x @ [v])"
    and vols_unreg: "inv s \<Longrightarrow> vols (unreg q x v s) = (vols s)(x := filter (\<lambda>u. u \<noteq> v) (vols s x))"
    and prep_id: "inv s \<Longrightarrow> prep r x v s = s"
begin

lemma inv_step: "inv s \<Longrightarrow> inv (op_step reg unreg prep p s)"
  by (cases p) (simp_all add: inv_reg inv_unreg prep_id)

lemma inv_steps: "inv s \<Longrightarrow> inv (fold (op_step reg unreg prep) ops s)"
  by (induction ops arbitrary: s) (simp_all add: inv_step)

lemma mounts_step:
  "inv s \<Longrightarrow> {(x, v). v \<in> set (vols (op_step reg unreg prep p s) x)} = set_step p {(x, v). v \<in> set (vols s x)}"
  by (cases p) (auto simp: vols_reg vols_unreg prep_id split: if_splits)

lemma mounts_steps:
  "inv s \<Longrightarrow> {(x, v). v \<in> set (vols (fold (op_step reg unreg prep) ops s) x)}
     = fold set_step ops {(x, v). v \<in> set (vols s x)}"
proof (induction ops arbitrary: s)
  case (Cons p ops)
  then show ?case using Cons.IH [OF inv_step [OF Cons.prems]] by (simp only: fold.simps comp_apply mounts_step)
qed simp

lemma unreg_reg: "inv s \<Longrightarrow> v \<notin> set (vols s x) \<Longrightarrow> vols (unreg q x v (reg p x v s)) = vols s"
  by (rule ext) (simp add: vols_unreg vols_reg inv_reg filter_id_conv, metis)

end

definition sync_register :: "string \<times> bool \<times> readings \<Rightarrow> string \<Rightarrow> string \<Rightarrow> cache \<Rightarrow> cache" where
  "sync_register p x v c = (case p of (img, commit, rd) \<Rightarrow> fst (register_volume x v img commit rd c no_capture))"

definition sync_unregister :: "go_error option \<times> readings \<Rightarrow> string \<Rightarrow> string \<Rightarrow> cache \<Rightarrow> cache" where
  "sync_unregister p x v c = (case p of (err, rd) \<Rightarrow> fst (unregister_volume x v err rd c no_capture))"

definition sync_prepare :: "readings \<Rightarrow> string \<Rightarrow> string \<Rightarrow> cache \<Rightarrow> cache" where
  "sync_prepare rd x v c = fst (prepare_commit x v rd c no_capture)"

definition volume_names :: "cache \<Rightarrow> string \<Rightarrow> string list" where
  "volume_names c x = map vs_Name (volumes_of (ca_status c) x)"

lemma listed_names: "listed c x v \<longleftrightarrow> v \<in> set (volume_names c x)"
  by (simp add: listed_def volume_names_def)

lemma sync_register_run:
  obtains s' where "register_volume x v img commit rd c no_capture = (sync_register (img, commit, rd) x v c, s')"
  by (cases "register_volume x v img commit rd c no_capture") (simp add: sync_register_def)

lemma sync_unregister_run:
  obtains s' where "unregister_volume x v err rd c no_capture = (sync_unregister (err, rd) x v c, s')"
  by (cases "unregister_volume x v err rd c no_capture") (simp add: sync_unregister_def)

lemma sync_inv_register:
  assumes "sync_inv c"
  shows "sync_inv (sync_register (img, commit, rd) x v c)"
proof -
  obtain s' where r: "register_volume x v img commit rd c no_capture = (sync_register (img, commit, rd) x v c, s')"
    by (rule sync_register_run)
  show ?thesis using assms register_volume_spec(7,8) [OF r]
    by (auto simp: sync_inv_def listed_def registered_def)
qed

lemma sync_inv_unregister:
  assumes "sync_inv c"
  shows "sync_inv (sync_unregister (err, rd) x v c)"
proof -
  obtain s' where r: "unregister_volume x v err rd c no_capture = (sync_unregister (err, rd) x v c, s')"
    by (rule sync_unregister_run)
  have "distinct (map vs_Name (filter P vs))" if "distinct (map vs_Name vs)" for P and vs :: "volume_status list"
    using that by (induction vs) auto
  with assms show ?thesis using unregister_volume_spec(4,5) [OF r] by (auto simp: sync_inv_def)
qed

lemma volume_names_register:
  "volume_names (sync_register (img, commit, rd) x v c) =
     (volume_names c)(x := if v \<in> set (volume_names c x) then volume_names c x else volume_names c x @ [v])"
proof -
  obtain s' where r: "register_volume x v img commit rd c no_capture = (sync_register (img, commit, rd) x v c, s')"
    by (rule sync_register_run)
  show ?thesis using register_volume_spec(7) [OF r]
    by (simp add: fun_eq_iff volume_names_def listed_names registered_def)
qed

lemma volume_names_unregister:
  "volume_names (sync_unregister (err, rd) x v c) = (volume_names c)(x := filter (\<lambda>u. u \<noteq> v) (volume_names c x))"
proof -
  obtain s' where r: "unregister_volume x v err rd c no_capture = (sync_unregister (err, rd) x v c, s')"
    by (rule sync_unregister_run)
  show ?thesis using unregister_volume_spec(4) [OF r]
    by (simp add: fun_eq_iff volume_names_def filter_map comp_def)
qed

interpretation sync: mount_table volume_names sync_inv sync_register sync_unregister sync_prepare
proof (unfold_locales, goal_cases)
  case (1 s p x v)
  then show ?case by (cases p) (simp add: sync_inv_register)
next
  case (2 s q x v)
  then show ?case by (cases q) (simp add: sync_inv_unregister)
next
  case (3 s x)
  then show ?case by (simp add: sync_inv_def volume_names_def)
next
  case (4 s p x v)
  then show ?case by (cases p) (simp add: volume_names_register)
next
  case (5 s q x v)
  then show ?case by (cases q) (simp add: volume_names_unregister)
next
  case (6 s r x v)
  then show ?case by (simp add: sync_prepare_def prepare_commit_inv)
qed

section \<open>Properties of the operations\<close>

text \<open>The status a new cache has.\<close>
definition fresh_cache :: "cache \<Rightarrow> bool" where
  "fresh_cache c \<longleftrightarrow> ca_status c = zero_cache_status"

lemma fresh_volumes: "fresh_cache c \<Longrightarrow> volumes_of (ca_status c) x = []"
  by (simp add: fresh_cache_def volumes_of_def zero_cache_status_def)

lemma fresh_inv: "fresh_cache c \<Longrightarrow> sync_inv c"
  by (simp add: sync_inv_def fresh_volumes) (simp add: fresh_cache_def node_names_def zero_cache_status_def)

abbreviation sync_step :: "(string \<times> bool \<times> readings, go_error option \<times> readings, readings) mount_op \<Rightarrow> cache \<Rightarrow> cache" where
  "sync_step \<equiv> op_step sync_register sync_unregister sync_prepare"

text \<open>
  C8. The status of a cache as a table of mounts: after any sequence of registrations, commit
  preparations and unregistrations by any nodes, with any parameters and clocks, a volume is listed for
  a node exactly if its last operation was a registration; every node has one entry and every volume
  is listed once.
\<close>
theorem cache_tracks_mounts:
  assumes "fresh_cache c"
  shows "{(x, v). v \<in> set (volume_names (fold sync_step ops c) x)} = fold set_step ops {}
    \<and> (\<forall>x. distinct (volume_names (fold sync_step ops c) x))
    \<and> distinct (node_names (ca_status (fold sync_step ops c)))"
proof -
  have "sync_inv (fold sync_step ops c)" by (rule sync.inv_steps [OF fresh_inv [OF assms]])
  moreover have "{(x, v). v \<in> set (volume_names c x)} = {}"
    using assms by (simp add: volume_names_def fresh_volumes)
  ultimately show ?thesis
    using sync.mounts_steps [OF fresh_inv [OF assms], of ops] sync.inv_distinct by (simp add: sync_inv_def)
qed

definition rd0 :: readings where
  "rd0 = \<lparr>t_node = 0, t_created = 0, t_check = \<lambda>_ _. 0, t_happened = 0, t_commit = 0\<rparr>"

theorem cache_tracks_mounts_witness:
  "fresh_cache zero_cache
   \<and> {(x, v). v \<in> set (volume_names (fold sync_step [Register (''img'', True, rd0) ''n1'' ''v1'',
       Register (''img'', True, rd0) ''n2'' ''v2'', Prepare rd0 ''n1'' ''v1'', Unregister (None, rd0) ''n1'' ''v1'']
       zero_cache) x)} = {(''n2'', ''v2'')}"
  using cache_tracks_mounts [of zero_cache "[Register (''img'', True, rd0) ''n1'' ''v1'',
       Register (''img'', True, rd0) ''n2'' ''v2'', Prepare rd0 ''n1'' ''v1'', Unregister (None, rd0) ''n1'' ''v1'']"]
  by (simp add: fresh_cache_def zero_cache_def insert_Diff_if)

text \<open>
  C36. A commit is granted exactly if the cache accepts it, the volume may be committed, and a commit
  is already running, and not timed out, on every volume of the cache, the volume itself included.
  As no other operation starts a commit, none is ever granted: preparing a commit after any sequence
  of operations on a new cache refuses it and leaves the cache as it is.
\<close>
theorem commit_never_granted:
  assumes "fresh_cache c"
  shows "prepare_commit x v rd (fold sync_step ops c) s = (fold sync_step ops c, s\<lparr>cap_commit := False\<rparr>)
    \<and> (cap_commit (snd (prepare_commit x v rd d s)) \<longleftrightarrow>
        \<not> ca_ReadOnly d \<and> cst_Phase (ca_status d) \<noteq> CachePhaseReject
      \<and> (\<exists>i j. findVolume d x v = Inr (i, j) \<and> vs_Committable (ns_Volumes (cst_Nodes (ca_status d) ! i) ! j))
      \<and> (\<forall>i < length (cst_Nodes (ca_status d)). \<forall>j < length (ns_Volumes (cst_Nodes (ca_status d) ! i)).
           committing rd d i j))"
  using sync.inv_steps [OF fresh_inv [OF assms]] by (simp only: prepare_commit_inv prepare_commit_granted simp_thms)

theorem commit_never_granted_witness:
  "fresh_cache zero_cache
   \<and> \<not> cap_commit (snd (prepare_commit ''n'' ''v'' rd0 (fold sync_step [Register (''img'', True, rd0) ''n'' ''v''] zero_cache)
        no_capture))"
  using commit_never_granted [of zero_cache "''n''" "''v''" rd0 "[Register (''img'', True, rd0) ''n'' ''v'']" no_capture]
  by (simp add: fresh_cache_def zero_cache_def)

lemma generation_step:
  assumes "unat (cst_CacheGeneration (ca_status c)) \<le> k" "Suc k < 2 ^ 64"
    and "\<forall>x. \<forall>v\<in>set (volumes_of (ca_status c) x). vs_CacheGeneration v \<le> cst_CacheGeneration (ca_status c)"
    and "sync_inv c" and c': "c' = sync_step p c"
  shows "unat (cst_CacheGeneration (ca_status c')) \<le> Suc k
    \<and> (\<forall>x. \<forall>v\<in>set (volumes_of (ca_status c') x). vs_CacheGeneration v \<le> cst_CacheGeneration (ca_status c'))"
proof (cases p)
  case (Register q x v)
  obtain img commit rd where q: "q = (img, commit, rd)" by (cases q)
  obtain s' where r: "register_volume x v img commit rd c no_capture = (c', s')"
    using sync_register_run c' by (metis Register op_step.simps(1) q)
  note sp = register_volume_spec(6,7) [OF r]
  let ?g = "cst_CacheGeneration (ca_status c)"
  have "unat ?g + 1 < 2 ^ 64" using assms(1,2) by simp
  then have inc: "unat (?g + 1) = unat ?g + 1" by (simp add: unat_word_ariths unat_arith_simps)
  then have up: "?g \<le> ?g + 1" by (simp add: word_le_nat_alt)
  then show ?thesis using assms(1,3) inc
    by (auto simp: sp registered_def registered_generation_def intro: order_trans)
next
  case (Unregister q x v)
  obtain err rd where q: "q = (err, rd)" by (cases q)
  obtain s' where r: "unregister_volume x v err rd c no_capture = (c', s')"
    using sync_unregister_run c' by (metis Unregister op_step.simps(2) q)
  have "cst_CacheGeneration (ca_status c') = cst_CacheGeneration (ca_status c)"
    using arg_cong [OF unregister_volume_spec(6) [OF r], of cst_CacheGeneration] by simp
  then show ?thesis using assms(1,3) by (auto simp: unregister_volume_spec(4) [OF r])
next
  case (Prepare rd x v)
  then show ?thesis using assms by (simp add: sync.prep_id)
qed

text \<open>
  C35. The 64-bit generation counter does not wrap around in fewer than \<open>2\<^sup>6\<^sup>3\<close> operations: it is not
  negative, at most the number of operations, and no volume carries a generation newer than the
  cache's.
\<close>
theorem generations_bounded:
  assumes "fresh_cache c" and "length ops < 2 ^ 63"
  shows "let d = fold sync_step ops c; g = cst_CacheGeneration (ca_status d)
    in 0 \<le> sint g \<and> sint g \<le> int (length ops)
     \<and> (\<forall>x. \<forall>v\<in>set (volumes_of (ca_status d) x). sint (vs_CacheGeneration v) \<le> sint g)"
proof -
  let ?g = "\<lambda>d. cst_CacheGeneration (ca_status d)"
  let ?d = "fold sync_step ops c"
  have "unat (?g ?d) \<le> length ops \<and> (\<forall>x. \<forall>v\<in>set (volumes_of (ca_status ?d) x). vs_CacheGeneration v \<le> ?g ?d)"
    using assms(2)
  proof (induction ops rule: rev_induct)
    case Nil
    then show ?case using assms(1) by (simp add: fresh_volumes) (simp add: fresh_cache_def zero_cache_status_def)
  next
    case (snoc p ops)
    from snoc.prems have "length ops < 2 ^ 63" and k: "Suc (length ops) < 2 ^ 64" by simp_all
    with snoc.IH have IH: "unat (?g (fold sync_step ops c)) \<le> length ops"
        "\<forall>x. \<forall>v\<in>set (volumes_of (ca_status (fold sync_step ops c)) x). vs_CacheGeneration v \<le> ?g (fold sync_step ops c)"
      by simp_all
    have e: "fold sync_step (ops @ [p]) c = sync_step p (fold sync_step ops c)" by simp
    from generation_step [OF IH(1) k IH(2) sync.inv_steps [OF fresh_inv [OF assms(1)]] e]
    show ?case unfolding length_append_singleton .
  qed
  then have U: "unat (?g ?d) \<le> length ops"
    and V: "\<And>x v. v \<in> set (volumes_of (ca_status ?d) x) \<Longrightarrow> unat (vs_CacheGeneration v) \<le> unat (?g ?d)"
    by (simp_all only: word_le_nat_alt)
  have s: "sint g = int (unat g)" if "unat g \<le> unat (?g ?d)" for g :: int64
  proof -
    have "unat g < 2 ^ 63" by (rule le_less_trans [OF le_trans [OF that U] assms(2)])
    then have hi: "uint g < 2 ^ 63" by transfer auto
    have lo: "- (2 ^ 63) \<le> uint g" by (rule order_trans [OF _ uint_ge_0]) simp
    from signed_take_bit_int_eq_self [OF lo hi] show ?thesis by (simp add: sint_uint)
  qed
  show ?thesis unfolding Let_def
  proof (intro conjI allI ballI)
    show "0 \<le> sint (?g ?d)" "sint (?g ?d) \<le> int (length ops)"
      unfolding s [OF order_refl] using U by (simp_all only: of_nat_le_iff of_nat_0_le_iff)
    fix x v
    assume "v \<in> set (volumes_of (ca_status ?d) x)"
    from V [OF this] show "sint (vs_CacheGeneration v) \<le> sint (?g ?d)"
      unfolding s [OF order_refl] s [OF V [OF \<open>v \<in> _\<close>]] by (simp only: of_nat_le_iff)
  qed
qed

theorem generations_bounded_witness:
  "fresh_cache zero_cache
   \<and> sint (cst_CacheGeneration (ca_status (fold sync_step [Register (''img'', True, rd0) ''n'' ''v''] zero_cache))) \<le> 1"
proof
  show f: "fresh_cache zero_cache" by (simp add: fresh_cache_def zero_cache_def)
  show "sint (cst_CacheGeneration (ca_status (fold sync_step [Register (''img'', True, rd0) ''n'' ''v''] zero_cache))) \<le> 1"
    using generations_bounded [OF f, of "[Register (''img'', True, rd0) ''n'' ''v'']"]
    by (simp only: Let_def list.size One_nat_def [symmetric] add_0 of_nat_1 one_less_numeral_iff) simp
qed

end
