(* ===== verification/CacheUpdates.thy ===== *)
theory CacheUpdates
  imports CacheSync
begin

text \<open>
  Updates of a cache under concurrency.  The API server keeps one history of versions per cache; what
  the code relies on is stated as two hypotheses: \<open>retries_on_conflict\<close> (client-go repeats the closure
  while it fails with a conflict, up to the number of steps) and \<open>optimistic\<close> (the server only stores
  an update that is based on the latest version, and versions are never used twice).  Other clients may
  add versions at any time between and during the calls.
\<close>

fun attempts :: "nat \<Rightarrow> (nat \<Rightarrow> captured \<Rightarrow> ('w, go_error option \<times> captured) prog) \<Rightarrow> nat \<Rightarrow> captured \<Rightarrow>
    ('w, go_error option \<times> captured) prog" where
  "attempts 0 fn k x = ret (None, x)"
| "attempts (Suc n) fn k x =
     bind (fn k x) (\<lambda>(err, x').
     case err of
       None \<Rightarrow> ret (None, x')
     | Some e \<Rightarrow> if IsConflict e \<and> n > 0 then attempts n fn (Suc k) x' else ret (Some e, x'))"

definition retries_on_conflict :: "'w retry \<Rightarrow> bool" where
  "retries_on_conflict retry \<longleftrightarrow>
     (\<forall>b fn x. 0 < bo_Steps b \<longrightarrow> retry b fn x = attempts (bo_Steps b) fn 0 x)"

definition version :: "cache \<Rightarrow> string" where
  "version c = m_ResourceVersion (ca_meta c)"

definition named :: "nsname \<Rightarrow> cache \<Rightarrow> bool" where
  "named n c \<longleftrightarrow> m_Name (ca_meta c) = nn_Name n \<and> m_Namespace (ca_meta c) = nn_Namespace n"

text \<open>\<open>hist w\<close> is the list of the versions of the cache \<open>n\<close> that were ever stored, the latest last.\<close>
definition optimistic :: "'w client \<Rightarrow> nsname \<Rightarrow> ('w \<Rightarrow> cache list) \<Rightarrow> bool" where
  "optimistic c n hist \<longleftrightarrow>
     (\<forall>w. distinct (map version (hist w)))
   \<and> (\<forall>x w e y w'. rc_get (cl_cache c) n x w = ((e, y), w') \<longrightarrow>
        prefix (hist w) (hist w') \<and> (e = None \<longrightarrow> y \<in> set (hist w') \<and> named n y))
   \<and> (\<forall>x w r w'. rc_create (cl_cache c) x w = (r, w') \<longrightarrow> prefix (hist w) (hist w'))
   \<and> (\<forall>y w e z w'. rc_status_update (cl_cache c) y w = ((e, z), w') \<longrightarrow>
        prefix (hist w) (hist w')
      \<and> (e = None \<and> named n y \<longrightarrow>
           (\<exists>h v. prefix (hist w) h \<and> h \<noteq> [] \<and> version (last h) = version y
              \<and> prefix (h @ [v]) (hist w') \<and> ca_status v = ca_status y)))"

text \<open>
  The history from \<open>w\<close> to \<open>w'\<close> has a step made by \<open>f\<close> with result \<open>x\<close>: some version is immediately
  followed by what \<open>f\<close> makes of it.
\<close>
definition atomic_step :: "('w \<Rightarrow> cache list) \<Rightarrow> 'w \<Rightarrow> 'w \<Rightarrow> (cache \<Rightarrow> cache \<times> 'x) \<Rightarrow> 'x \<Rightarrow> bool" where
  "atomic_step hist w w' f x \<longleftrightarrow>
     (\<exists>h v. h \<noteq> [] \<and> prefix (hist w) h \<and> prefix (h @ [v]) (hist w')
        \<and> ca_status v = ca_status (fst (f (last h))) \<and> x = snd (f (last h)))"

lemma atomic_step_mono:
  "atomic_step hist w1 w' f x \<Longrightarrow> prefix (hist w) (hist w1) \<Longrightarrow> prefix (hist w') (hist w2) \<Longrightarrow>
   atomic_step hist w w2 f x"
  unfolding atomic_step_def by (elim exE conjE) (blast intro: prefix_order.trans)

lemma butlast_last_two: "h \<noteq> [] \<Longrightarrow> butlast h @ [last h, v] = h @ [v]"
  by (induction h) auto

text \<open>The version read is the latest one when the update is accepted.\<close>
lemma version_last:
  assumes "y \<in> set g" "prefix g h" "h \<noteq> []" "version (last h) = version y" "distinct (map version h)"
  shows "last h = y"
proof -
  have "y \<in> set h" using assms(1,2) set_mono_prefix by blast
  moreover have "last h \<in> set h" using assms(3) by simp
  ultimately show ?thesis using assms(4,5) by (metis distinct_map inj_onD)
qed

text \<open>An update of a version that was read before: the history grows, and if it is accepted by what \<open>modify\<close> makes of that version.\<close>
lemma accepted_update:
  assumes opt: "optimistic c n hist" and meta: "\<And>cache x. ca_meta (fst (modify cache x)) = ca_meta cache"
    and u: "rc_status_update (cl_cache c) (fst (modify y x)) w = ((e, z), w')"
    and y: "y \<in> set (hist w)" "named n y"
  shows "prefix (hist w) (hist w')"
    and "e = None \<Longrightarrow> atomic_step hist w w' (\<lambda>d. modify d x) (snd (modify y x))"
proof -
  note opt' = opt [unfolded optimistic_def]
  from opt' u show "prefix (hist w) (hist w')" by blast
  assume "e = None"
  moreover have "named n (fst (modify y x))" using y(2) by (simp add: named_def meta)
  ultimately obtain h v where h: "prefix (hist w) h" "h \<noteq> []" "version (last h) = version y"
      "prefix (h @ [v]) (hist w')" "ca_status v = ca_status (fst (modify y x))"
    using opt' u meta unfolding version_def by metis
  have "distinct (map version (hist w'))" using opt' by blast
  then have "distinct (map version h)"
    using h(4) by (metis append_assoc distinct_append map_append prefix_def)
  with version_last [OF y(1) h(1,2,3)] have "last h = y" by blast
  with h show "atomic_step hist w w' (\<lambda>d. modify d x) (snd (modify y x))" unfolding atomic_step_def by blast
qed

text \<open>One attempt: it extends the history, and on success with one atomic step.\<close>
lemma wp_update_attempt:
  assumes opt: "optimistic c n hist"
    and meta: "\<And>cache x. ca_meta (fst (modify cache x)) = ca_meta cache"
  shows "wp (update_attempt c n create modify x)
    (\<lambda>(err, x') s'. prefix (hist (world s)) (hist (world s')) \<and>
       (err = None \<longrightarrow> atomic_step hist (world s) (world s') (\<lambda>d. modify d x) x'))
    (\<lambda>_. False) s"
proof -
  note opt' = opt [unfolded optimistic_def]
  from opt' have get: "rc_get (cl_cache c) n x w = ((e, y), w') \<Longrightarrow>
      prefix (hist w) (hist w') \<and> (e = None \<longrightarrow> y \<in> set (hist w') \<and> named n y)" for x w e y w' by blast
  from opt' have create: "rc_create (cl_cache c) x w = (r, w') \<Longrightarrow> prefix (hist w) (hist w')" for x w r w' by blast
  have tail: "prefix (hist (world s)) (hist w') \<and>
       (e = None \<longrightarrow> atomic_step hist (world s) w' (\<lambda>d. modify d x) x')"
    if "modify y x = (cache, x')" "rc_status_update (cl_cache c) cache w = ((e, z), w')"
      "y \<in> set (hist w)" "named n y" "prefix (hist (world s)) (hist w)" for y cache x' w e z w'
  proof -
    have u: "rc_status_update (cl_cache c) (fst (modify y x)) w = ((e, z), w')" using that(1,2) by simp
    note acc = accepted_update [where modify = modify and y = y and x = x, OF opt meta u that(3,4)]
    show ?thesis
      using prefix_order.trans [OF that(5) acc(1)] atomic_step_mono [OF acc(2) that(5) prefix_order.refl] that(1) by simp
  qed
  obtain e1 y1 w1 where g1: "rc_get (cl_cache c) n zero_cache (world s) = ((e1, y1), w1)" by (metis prod.exhaust)
  show ?thesis
  proof (cases e1)
    case None
    with get [OF g1] show ?thesis
      unfolding update_attempt_def bindR_def
      by (clarsimp simp: wp_simps g1 split: prod.splits) (drule (4) tail, simp)
  next
    case (Some e)
    define y2 where "y2 = y1\<lparr>ca_meta := (ca_meta y1)\<lparr>m_Name := nn_Name n, m_Namespace := nn_Namespace n\<rparr>\<rparr>"
    obtain e2 y3 w2 where c2: "rc_create (cl_cache c) y2 w1 = ((e2, y3), w2)" by (metis prod.exhaust)
    obtain e4 y4 w4 where g4: "rc_get (cl_cache c) n y3 w2 = ((e4, y4), w4)" by (metis prod.exhaust)
    have p: "prefix (hist (world s)) (hist w1)" "prefix (hist (world s)) (hist w2)" "prefix (hist (world s)) (hist w4)"
      using get [OF g1] create [OF c2] get [OF g4] by (auto intro: prefix_order.trans)
    show ?thesis
    proof (cases e4)
      case None
      then show ?thesis unfolding update_attempt_def bindR_def using Some p get [OF g4]
        by (clarsimp simp: wp_simps g1 y2_def [symmetric] c2 g4 split: prod.splits) (drule (4) tail, auto)
    next
      case e4: (Some _)
      then show ?thesis unfolding update_attempt_def bindR_def using Some p
        by (auto simp: wp_simps g1 y2_def [symmetric] c2 g4)
    qed
  qed
qed

lemma wp_attempts:
  assumes "optimistic c n hist" and "\<And>rd cache x. ca_meta (fst (modify rd cache x)) = ca_meta cache" and "0 < m"
  shows "wp (attempts m (\<lambda>k. update_attempt c n create (modify (clock k))) k x)
    (\<lambda>(err, x') s'. prefix (hist (world s)) (hist (world s')) \<and>
       (err = None \<longrightarrow> (\<exists>k x0. atomic_step hist (world s) (world s') (\<lambda>d. modify (clock k) d x0) x')))
    (\<lambda>_. False) s"
  using assms(3)
proof (induction m arbitrary: k x s)
  case (Suc m)
  show ?case unfolding attempts.simps wp_bind
  proof (rule wp_mono [OF wp_update_attempt [OF assms(1)]], goal_cases)
    case (1 cache x)
    show ?case by (rule assms(2))
  next
    case (2 r s')
    obtain err x' where r: "r = (err, x')" by (cases r)
    show ?case
    proof (cases "\<exists>e. err = Some e \<and> IsConflict e \<and> m > 0")
      case True
      then obtain e where e: "err = Some e" "IsConflict e" "m > 0" by blast
      from Suc.IH [OF e(3), of "Suc k" x' s'] show ?thesis
        using 2 r e by (auto simp: wp_simps intro: prefix_order.trans atomic_step_mono elim!: wp_mono)
    next
      case False
      with 2 r show ?thesis by (auto simp: wp_simps split: option.splits)
    qed
  qed simp
qed simp

lemma updateCache_attempts:
  "retries_on_conflict retry \<Longrightarrow>
   updateCache retry c clock n create modify x =
     attempts 10 (\<lambda>k. update_attempt c n create (modify (clock k))) 0 x"
  by (simp add: updateCache_def retries_on_conflict_def sync_backoff_def)

lemma modify_meta:
  "ca_meta (fst (register_volume node vol img commit rd d x)) = ca_meta d"
  "ca_meta (fst (unregister_volume node vol err rd d x)) = ca_meta d"
  using register_volume_spec(1) unregister_volume_spec(1) by (metis prod.collapse)+

text \<open>Every error an update returns is the answer of some call.\<close>
fun answers :: "go_error \<Rightarrow> entry \<Rightarrow> bool" where
  "answers e (OnCache (DoGet _ (Some e') _)) = (e' = e)"
| "answers e (OnCache (DoCreate _ (Some e'))) = (e' = e)"
| "answers e (OnCache (DoStatusUpdate _ (Some e'))) = (e' = e)"
| "answers e _ = False"

lemma update_attempt_errors:
  "tspec (update_attempt c n create modify x) (\<lambda>o1 t. \<exists>err x'. o1 = Ret (err, x') \<and> (\<forall>e. err = Some e \<longrightarrow> list_ex (answers e) t))"
  unfolding update_attempt_def bindR_def
  by (intro tspec_intros) (auto simp: bind_assoc split: option.splits prod.splits intro!: tspec_intros)

lemma attempts_errors:
  assumes "\<And>k x. tspec (fn k x) (\<lambda>o1 t. \<exists>err x'. o1 = Ret (err, x') \<and> (\<forall>e. err = Some e \<longrightarrow> list_ex (answers e) t))"
  shows "tspec (attempts m fn k x) (\<lambda>o1 t. \<exists>err x'. o1 = Ret (err, x') \<and> (\<forall>e. err = Some e \<longrightarrow> list_ex (answers e) t))"
proof (induction m arbitrary: k x)
  case 0
  show ?case by (auto intro: tspec_ret)
next
  case (Suc m)
  show ?case unfolding attempts.simps
  proof (rule tspec_bind [OF assms], goal_cases)
    case (1 r t)
    then obtain err x' where r: "r = (err, x')" "\<forall>e. err = Some e \<longrightarrow> list_ex (answers e) t" by blast
    show ?case
    proof (cases "\<exists>e. err = Some e \<and> IsConflict e \<and> m > 0")
      case True
      with r show ?thesis by (auto intro!: tspec_mono [OF Suc.IH])
    next
      case False
      with r show ?thesis by (auto intro!: tspec_intros split: option.splits)
    qed
  qed simp
qed

text \<open>An update as a whole: what holds if it returns no error, and where its errors come from.\<close>
lemma updateCache_run:
  assumes "retries_on_conflict retry" "optimistic c n hist"
    and "\<And>rd cache x. ca_meta (fst (modify rd cache x)) = ca_meta cache"
  obtains err x' s' where "updateCache retry c clock n create modify x s = (Ret (err, x'), s')"
    and "prefix (hist (world s)) (hist (world s'))"
    and "err = None \<Longrightarrow> \<exists>k x0. atomic_step hist (world s) (world s') (\<lambda>d. modify (clock k) d x0) x'"
    and "\<And>e. err = Some e \<Longrightarrow> list_ex (answers e) (trace s')"
proof -
  let ?m = "updateCache retry c clock n create modify x"
  have w: "wp ?m (\<lambda>(err, x') s'. prefix (hist (world s)) (hist (world s')) \<and>
       (err = None \<longrightarrow> (\<exists>k x0. atomic_step hist (world s) (world s') (\<lambda>d. modify (clock k) d x0) x')))
    (\<lambda>_. False) s"
    unfolding updateCache_attempts [OF assms(1)] by (rule wp_attempts [OF assms(2,3)]) simp
  have t: "tspec ?m (\<lambda>o1 t. \<exists>err x'. o1 = Ret (err, x') \<and> (\<forall>e. err = Some e \<longrightarrow> list_ex (answers e) t))"
    unfolding updateCache_attempts [OF assms(1)] by (rule attempts_errors) (rule update_attempt_errors)
  obtain o1 s' where r: "?m s = (o1, s')" by fastforce
  from t r obtain err x' u where "o1 = Ret (err, x')" "trace s' = trace s @ u" "\<forall>e. err = Some e \<longrightarrow> list_ex (answers e) u"
    unfolding tspec_def by (metis fst_conv snd_conv)
  with w r that [of err x' s'] show thesis by (auto simp: wp_def)
qed

section \<open>Properties\<close>

text \<open>
  C14. Registering a volume is atomic in spite of concurrent updates: if it reports no error, then one
  version of the cache in the history is directly followed by a version in which the volume is listed
  for the node, all other volumes are listed as before, the use counter is one higher and the image is
  the one that is reported.
\<close>
theorem RegisterCacheVolume_atomic:
  assumes "retries_on_conflict retry" "optimistic c n hist"
    and "RegisterCacheVolume retry c clock n node vol img commit (start w) = (Ret (got, None), s')"
  shows "\<exists>h d v. prefix (hist w) (h @ [d]) \<and> prefix (h @ [d, v]) (hist (world s'))
    \<and> listed v node vol \<and> (\<forall>x u. (x, u) \<noteq> (node, vol) \<longrightarrow> listed v x u = listed d x u)
    \<and> cst_Used (ca_status v) = cst_Used (ca_status d) + 1
    \<and> cst_Image (ca_status v) = got
    \<and> got = (if cst_Image (ca_status d) = [] then img else cst_Image (ca_status d))"
proof (rule updateCache_run [OF assms(1,2) modify_meta(1) [where node = node and vol = vol and img = img
      and commit = commit], where clock = clock and create = True and x = no_capture and s = "start w"])
  fix err x s1
  assume u: "updateCache retry c clock n True (register_volume node vol img commit) no_capture (start w) = (Ret (err, x), s1)"
    and "err = None \<Longrightarrow>
      \<exists>k x0. atomic_step hist (world (start w)) (world s1) (\<lambda>d. register_volume node vol img commit (clock k) d x0) x"
  then have at: "err = None \<Longrightarrow> \<exists>k x0. atomic_step hist w (world s1) (\<lambda>d. register_volume node vol img commit (clock k) d x0) x"
    by simp
  from u assms(3) have "err = None" "got = cap_image x" "s1 = s'"
    by (auto simp: RegisterCacheVolume_def bind_def ret_def)
  with at obtain k x0 h v where h: "h \<noteq> []" "prefix (hist w) h" "prefix (h @ [v]) (hist (world s'))"
      "ca_status v = ca_status (fst (register_volume node vol img commit (clock k) (last h) x0))"
      "x = snd (register_volume node vol img commit (clock k) (last h) x0)"
    unfolding atomic_step_def by blast
  obtain d' where r: "register_volume node vol img commit (clock k) (last h) x0 = (d', x)"
    and v: "ca_status v = ca_status d'"
    using h(4,5) by (cases "register_volume node vol img commit (clock k) (last h) x0") simp
  note sp = register_volume_spec [OF r, folded v]
  have "listed v node vol" "\<forall>x u. (x, u) \<noteq> (node, vol) \<longrightarrow> listed v x u = listed (last h) x u"
    using sp(7) by (auto simp: listed_def registered_def split: if_splits)
  moreover have "prefix (hist w) (butlast h @ [last h])" "prefix (butlast h @ [last h, v]) (hist (world s'))"
    using h(1-3) by (simp_all add: butlast_last_two)
  ultimately show ?thesis using sp(3,4,5) \<open>got = cap_image x\<close> by blast
qed

text \<open>
  C15. Unregistering a volume is atomic, too: if it reports no error, then either the API server has
  answered that the cache does not exist, or one version of the cache is directly followed by a
  version in which the volume is not listed for the node and all other volumes are listed as before.
  If it reports an error, then the API server has answered with it, and it was not that the cache does
  not exist.
\<close>
theorem UnregisterCacheVolume_atomic:
  assumes "retries_on_conflict retry" "optimistic c n hist"
  shows "\<exists>r s'. UnregisterCacheVolume retry c clock n node vol commitErr (start w) = (Ret r, s')
    \<and> (case r of
         None \<Rightarrow> (\<exists>e. IsNotFound e \<and> list_ex (answers e) (trace s'))
           \<or> (\<exists>h d v. prefix (hist w) (h @ [d]) \<and> prefix (h @ [d, v]) (hist (world s'))
              \<and> \<not> listed v node vol \<and> (\<forall>x u. (x, u) \<noteq> (node, vol) \<longrightarrow> listed v x u = listed d x u))
       | Some e' \<Rightarrow> (\<exists>e. \<not> IsNotFound e \<and> list_ex (answers e) (trace s')
           \<and> e' = Wrapped ''unregister volume %q from cluster'' [AStr vol] e))"
proof (rule updateCache_run [OF assms modify_meta(2) [where node = node and vol = vol and err = commitErr],
      where clock = clock and create = False and x = no_capture and s = "start w"])
  let ?f = "unregister_volume node vol commitErr"
  fix err x s1
  assume u: "updateCache retry c clock n False ?f no_capture (start w) = (Ret (err, x), s1)"
    and "err = None \<Longrightarrow> \<exists>k x0. atomic_step hist (world (start w)) (world s1) (\<lambda>d. ?f (clock k) d x0) x"
    and e: "\<And>e. err = Some e \<Longrightarrow> list_ex (answers e) (trace s1)"
  then have at: "err = None \<Longrightarrow> \<exists>k x0. atomic_step hist w (world s1) (\<lambda>d. ?f (clock k) d x0) x" by simp
  from u have run: "UnregisterCacheVolume retry c clock n node vol commitErr (start w) =
      (Ret (wrap ''unregister volume %q from cluster'' [AStr vol]
         (if err \<noteq> None \<and> IsNotFound (the err) then None else err)), s1)"
    by (simp add: UnregisterCacheVolume_def bind_def ret_def)
  show ?thesis
  proof (cases err)
    case (Some e1)
    with e run show ?thesis by auto
  next
    case None
    with at obtain k x0 h v where h: "h \<noteq> []" "prefix (hist w) h" "prefix (h @ [v]) (hist (world s1))"
        "ca_status v = ca_status (fst (?f (clock k) (last h) x0))"
      unfolding atomic_step_def by blast
    obtain d' y where r: "?f (clock k) (last h) x0 = (d', y)" and v: "ca_status v = ca_status d'"
      using h(4) by (cases "?f (clock k) (last h) x0") simp
    have "\<not> listed v node vol" "\<forall>x u. (x, u) \<noteq> (node, vol) \<longrightarrow> listed v x u = listed (last h) x u"
      using unregister_volume_spec(4) [OF r, folded v] by (auto simp: listed_def split: if_splits)
    moreover have "prefix (hist w) (butlast h @ [last h])" "prefix (butlast h @ [last h, v]) (hist (world s1))"
      using h(1-3) by (simp_all add: butlast_last_two)
    ultimately have ex: "\<exists>h d v. prefix (hist w) (h @ [d]) \<and> prefix (h @ [d, v]) (hist (world s1))
        \<and> \<not> listed v node vol \<and> (\<forall>x u. (x, u) \<noteq> (node, vol) \<longrightarrow> listed v x u = listed d x u)"
      by blast
    show ?thesis by (rule exI [of _ None], rule exI [of _ s1]) (use run None ex in simp)
  qed
qed

section \<open>Updates succeed in spite of conflicts\<close>

text \<open>
  A server that answers: reads of an existing cache succeed with a version that was the latest at some
  time during the call, and an update is only refused with a conflict, and only if it was not based on
  a version that was the latest during the call.
\<close>
definition available :: "'w client \<Rightarrow> nsname \<Rightarrow> ('w \<Rightarrow> cache list) \<Rightarrow> bool" where
  "available c n hist \<longleftrightarrow>
     (\<forall>x w e y w'. hist w \<noteq> [] \<longrightarrow> rc_get (cl_cache c) n x w = ((e, y), w') \<longrightarrow>
        e = None \<and> (\<exists>h. prefix (hist w) h \<and> prefix h (hist w') \<and> y = last h))
   \<and> (\<forall>y w e z w'. hist w \<noteq> [] \<longrightarrow> rc_status_update (cl_cache c) y w = ((Some e, z), w') \<longrightarrow>
        IsConflict e \<and> (\<exists>h. prefix (hist w) h \<and> prefix h (hist w') \<and> version (last h) \<noteq> version y))"

lemma wp_attempt_available:
  assumes "available c n hist" and opt: "optimistic c n hist"
    and meta: "\<And>cache x. ca_meta (fst (modify cache x)) = ca_meta cache" and "hist (world s) \<noteq> []"
  shows "wp (update_attempt c n create modify x)
    (\<lambda>(err, x') s'. hist (world s') \<noteq> [] \<and>
       (\<forall>e. err = Some e \<longrightarrow> IsConflict e \<and> length (hist (world s)) < length (hist (world s'))))
    (\<lambda>_. False) s"
proof -
  obtain e1 y w1 where g: "rc_get (cl_cache c) n zero_cache (world s) = ((e1, y), w1)" by (metis prod.exhaust)
  with assms(1,4) obtain h where "e1 = None" and h: "prefix (hist (world s)) h" "prefix h (hist w1)" "y = last h"
    unfolding available_def by metis
  obtain e z w2 where u: "rc_status_update (cl_cache c) (fst (modify y x)) w1 = ((e, z), w2)" by (metis prod.exhaust)
  have "prefix (hist w1) (hist w2)" using opt u unfolding optimistic_def by blast
  moreover have ne1: "hist w1 \<noteq> []" using h(1,2) assms(4) by auto
  ultimately have "prefix (hist (world s)) (hist w2)" using h by (metis prefix_order.trans)
  then have ne: "hist w2 \<noteq> []" using assms(4) by auto
  have "IsConflict e' \<and> length (hist (world s)) < length (hist w2)" if "e = Some e'" for e'
  proof -
    from u that assms(1) ne1 obtain h2 where "IsConflict e'" and h2: "prefix (hist w1) h2" "prefix h2 (hist w2)"
        "version (last h2) \<noteq> version (fst (modify y x))"
      unfolding available_def by metis
    then have "h2 \<noteq> h" using h(3) by (auto simp: version_def meta)
    moreover have "prefix h h2" using h(2) h2(1) by (metis prefix_order.trans)
    ultimately have "length h < length h2" by (metis prefix_length_less prefix_order.le_less strict_prefixI)
    with prefix_length_le [OF h(1)] prefix_length_le [OF h2(2)] \<open>IsConflict e'\<close> show ?thesis by simp
  qed
  with ne show ?thesis using \<open>e1 = None\<close> u
    unfolding update_attempt_def bindR_def by (auto simp: wp_simps g split_def)
qed

lemma wp_attempts_available:
  assumes "available c n hist" "optimistic c n hist"
    and "\<And>rd cache x. ca_meta (fst (modify rd cache x)) = ca_meta cache" and "hist (world s) \<noteq> []"
  shows "wp (attempts m (\<lambda>k. update_attempt c n create (modify (clock k))) k x)
    (\<lambda>(err, x') s'. err \<noteq> None \<longrightarrow> length (hist (world s)) + m \<le> length (hist (world s')))
    (\<lambda>_. False) s"
  using assms(4)
proof (induction m arbitrary: k x s)
  case 0
  show ?case by (simp add: wp_simps)
next
  case (Suc m)
  show ?case unfolding attempts.simps wp_bind
  proof (rule wp_mono [OF wp_attempt_available [OF assms(1,2) _ Suc.prems]], goal_cases)
    case (1 cache x)
    show ?case by (rule assms(3))
  next
    case (2 r s')
    obtain err x' where r: "r = (err, x')" by (cases r)
    show ?case
    proof (cases "\<exists>e. err = Some e \<and> m > 0")
      case True
      with 2 r obtain e where e: "err = Some e" "IsConflict e" "m > 0"
          "length (hist (world s)) < length (hist (world s'))" "hist (world s') \<noteq> []"
        by auto
      have "wp (attempts m (\<lambda>k. update_attempt c n create (modify (clock k))) (Suc k) x')
          (\<lambda>(err, x') s2. err \<noteq> None \<longrightarrow> length (hist (world s)) + Suc m \<le> length (hist (world s2))) (\<lambda>_. False) s'"
        by (rule wp_mono [OF Suc.IH [OF e(5)]]) (use e(4) in auto)
      with e r show ?thesis by simp
    next
      case False
      with 2 r show ?thesis by (auto simp: wp_simps split: option.splits)
    qed
  qed simp
qed

lemma updateCache_available:
  assumes "retries_on_conflict retry" "optimistic c n hist" "available c n hist"
    and "\<And>rd cache x. ca_meta (fst (modify rd cache x)) = ca_meta cache"
    and "hist (world s) \<noteq> []"
  obtains err x' s' where "updateCache retry c clock n create modify x s = (Ret (err, x'), s')"
    and "err = None \<or> length (hist (world s)) + 10 \<le> length (hist (world s'))"
proof -
  from wp_attempts_available [OF assms(3,2) _ assms(5), of modify 10 create clock 0 x] assms(4)
  have "wp (updateCache retry c clock n create modify x)
    (\<lambda>(err, x') s'. err \<noteq> None \<longrightarrow> length (hist (world s)) + 10 \<le> length (hist (world s'))) (\<lambda>_. False) s"
    unfolding updateCache_attempts [OF assms(1)] by simp
  then show thesis using that by (auto simp: wp_def split: prod.splits outcome.splits)
qed

text \<open>
  C16. An update of an existing cache succeeds in spite of concurrent updates, unless at least ten
  versions of the cache were stored by others while it was going on.
\<close>
theorem updateCache_succeeds:
  assumes "retries_on_conflict retry" "optimistic c n hist" "available c n hist"
    and "\<And>rd cache x. ca_meta (fst (modify rd cache x)) = ca_meta cache"
    and "hist w \<noteq> []"
  shows "\<exists>err x' s'. updateCache retry c clock n create modify x (start w) = (Ret (err, x'), s')
    \<and> (err = None \<or> length (hist w) + 10 \<le> length (hist (world s')))"
proof -
  have "hist (world (start w)) \<noteq> []" using assms(5) by simp
  from updateCache_available [OF assms(1-3) _ this, where modify = modify and clock = clock and create = create and x = x]
    assms(4)
  show ?thesis by (metis start_simps(2))
qed

section \<open>A server with a single cache\<close>

text \<open>
  The world is the list of what was stored; a version is the position, an update that is not based on
  the latest version conflicts.
\<close>

definition numbered :: "nsname \<Rightarrow> nat \<Rightarrow> cache \<Rightarrow> cache" where
  "numbered n k c = c\<lparr>ca_meta := (ca_meta c)\<lparr>m_Name := nn_Name n, m_Namespace := nn_Namespace n,
     m_ResourceVersion := replicate k CHR ''i''\<rparr>\<rparr>"

definition stored :: "nsname \<Rightarrow> cache list \<Rightarrow> cache list" where
  "stored n w = map (\<lambda>k. numbered n k (w ! k)) [0..<length w]"

definition single_cache :: "nsname \<Rightarrow> (cache, cache list) resource" where
  "single_cache n = \<lparr>
     rc_get = \<lambda>n' x w. if w \<noteq> [] then ((None, last (stored n w)), w) else ((Some (Api NotFound []), x), w),
     rc_create = \<lambda>x w. if w \<noteq> [] then ((Some (Api AlreadyExists []), x), w) else ((None, x), [x]),
     rc_update = \<lambda>x w. ((None, x), w),
     rc_status_update = \<lambda>x w. if w \<noteq> [] \<and> version (last (stored n w)) = version x then ((None, x), w @ [x])
        else ((Some (Api Conflict []), x), w),
     rc_delete = \<lambda>x w. (None, w)\<rparr>"

definition empty_resource :: "('k, 'w) resource" where
  "empty_resource = \<lparr>rc_get = \<lambda>n x w. ((Some (Api NotFound []), x), w), rc_create = \<lambda>x w. ((None, x), w),
     rc_update = \<lambda>x w. ((None, x), w), rc_status_update = \<lambda>x w. ((None, x), w), rc_delete = \<lambda>x w. (None, w)\<rparr>"

definition cache_client :: "nsname \<Rightarrow> cache list client" where
  "cache_client n = \<lparr>cl_pvc = empty_resource, cl_pv = empty_resource, cl_pod = empty_resource, cl_sc = empty_resource,
     cl_cache = single_cache n, cl_sp = empty_resource, cl_sp_list = \<lambda>_ w. (Inr [], w)\<rparr>"

definition the_cache :: nsname where
  "the_cache = \<lparr>nn_Name = ''cache'', nn_Namespace = ''ns''\<rparr>"

definition retry_steps :: "'w retry" where
  "retry_steps b fn x = attempts (bo_Steps b) fn 0 x"

lemma retry_steps: "retries_on_conflict retry_steps"
  by (simp add: retries_on_conflict_def retry_steps_def)

lemma stored_Nil [simp]: "stored n [] = []" "(stored n w = []) = (w = [])"
  by (simp_all add: stored_def)

lemma stored_snoc: "stored n (w @ [x]) = stored n w @ [numbered n (length w) x]"
  by (auto simp: stored_def nth_append)

lemma stored_distinct: "distinct (map version (stored n w))"
proof -
  have "map version (stored n w) = map (\<lambda>k. replicate k CHR ''i'') [0..<length w]"
    by (simp add: stored_def version_def numbered_def comp_def)
  moreover have "inj (\<lambda>k. replicate k CHR ''i'')" by (rule injI) (metis length_replicate)
  ultimately show ?thesis by (auto simp: distinct_map intro: inj_on_subset)
qed

lemma stored_last: "w \<noteq> [] \<Longrightarrow> last (stored n w) \<in> set (stored n w) \<and> named n (last (stored n w))"
  by (auto simp: stored_def named_def numbered_def last_map)

lemma single_cache_optimistic: "optimistic (cache_client n) n (stored n)"
  unfolding optimistic_def
  by (auto simp: stored_distinct cache_client_def single_cache_def stored_last stored_snoc numbered_def
      split: if_splits intro!: exI [of _ "stored n w" for w])

lemma single_cache_run:
  assumes "w \<noteq> []" and "\<And>rd cache x. ca_meta (fst (modify rd cache x)) = ca_meta cache"
  shows "\<exists>s'. updateCache retry_steps (cache_client n) clock n create modify x (start w) =
    (Ret (None, snd (modify (clock 0) (last (stored n w)) x)), s') \<and> length (world s') = Suc (length w)"
proof -
  have ten: "(10::nat) = Suc 9" by simp
  show ?thesis
    unfolding updateCache_attempts [OF retry_steps] ten attempts.simps using assms
    by (simp add: update_attempt_def bindR_def bind_def k_defs call_def ret_def
        cache_client_def single_cache_def version_def start_def split_def)
qed

theorem RegisterCacheVolume_atomic_witness:
  "\<exists>s' h d v. RegisterCacheVolume retry_steps (cache_client the_cache) (\<lambda>_. rd0) the_cache ''node'' ''vol'' ''img'' True (start [zero_cache])
      = (Ret (''img'', None), s')
    \<and> prefix (h @ [d, v]) (stored the_cache (world s')) \<and> listed v ''node'' ''vol''"
proof -
  have "last (stored the_cache [zero_cache]) = numbered the_cache 0 zero_cache" by (simp add: stored_def)
  moreover have "cap_image (snd (register_volume ''node'' ''vol'' ''img'' True rd0 (numbered the_cache 0 zero_cache) no_capture)) = ''img''"
    by (simp add: register_volume_def numbered_def zero_cache_def zero_cache_status_def Let_def)
  ultimately obtain s' where run: "RegisterCacheVolume retry_steps (cache_client the_cache) (\<lambda>_. rd0) the_cache ''node'' ''vol'' ''img'' True
      (start [zero_cache]) = (Ret (''img'', None), s')"
    using single_cache_run [where w = "[zero_cache]" and modify = "register_volume ''node'' ''vol'' ''img'' True"
        and clock = "\<lambda>_. rd0" and create = True and n = the_cache and x = no_capture]
    by (fastforce simp: RegisterCacheVolume_def bind_def ret_def modify_meta)
  from RegisterCacheVolume_atomic [OF retry_steps single_cache_optimistic run] run show ?thesis by blast
qed

theorem UnregisterCacheVolume_atomic_witness:
  "\<exists>s'. UnregisterCacheVolume retry_steps (cache_client the_cache) (\<lambda>_. rd0) the_cache ''node'' ''vol'' None (start [zero_cache])
      = (Ret None, s')
    \<and> ((\<exists>e. IsNotFound e \<and> list_ex (answers e) (trace s'))
      \<or> (\<exists>h d v. prefix (h @ [d, v]) (stored the_cache (world s')) \<and> \<not> listed v ''node'' ''vol''))"
proof -
  obtain s' where run: "UnregisterCacheVolume retry_steps (cache_client the_cache) (\<lambda>_. rd0) the_cache ''node'' ''vol'' None
      (start [zero_cache]) = (Ret None, s')"
    using single_cache_run [where w = "[zero_cache]" and modify = "unregister_volume ''node'' ''vol'' None"
        and clock = "\<lambda>_. rd0" and create = False and n = the_cache and x = no_capture]
    by (fastforce simp: UnregisterCacheVolume_def bind_def ret_def modify_meta)
  from UnregisterCacheVolume_atomic [OF retry_steps single_cache_optimistic, where clock = "\<lambda>_. rd0" and n = the_cache
      and node = "''node''" and vol = "''vol''" and commitErr = None and w = "[zero_cache]", unfolded run]
  have "(\<exists>e. IsNotFound e \<and> list_ex (answers e) (trace s'))
      \<or> (\<exists>h d v. prefix (stored the_cache [zero_cache]) (h @ [d]) \<and> prefix (h @ [d, v]) (stored the_cache (world s'))
         \<and> \<not> listed v ''node'' ''vol''
         \<and> (\<forall>x u. (x, u) \<noteq> (''node'', ''vol'') \<longrightarrow> listed v x u = listed d x u))"
    unfolding prod.inject outcome.inject by (elim exE conjE) (hypsubst, simp only: option.case)
  with run show ?thesis by (intro exI [of _ s']) fast
qed

lemma single_cache_available: "available (cache_client n) n (stored n)"
  unfolding available_def
  by (auto simp: cache_client_def single_cache_def split: if_splits)

theorem updateCache_succeeds_witness:
  "\<exists>err x' s'. updateCache retry_steps (cache_client the_cache) (\<lambda>_. rd0) the_cache True
      (register_volume ''node'' ''vol'' ''img'' True) no_capture (start [zero_cache]) = (Ret (err, x'), s')
    \<and> (err = None \<or> 11 \<le> length (world s'))"
proof -
  have len: "length (stored the_cache w) = length w" for w by (simp add: stored_def)
  have "stored the_cache [zero_cache] \<noteq> []" by simp
  from updateCache_succeeds [OF retry_steps single_cache_optimistic single_cache_available _ this,
      where modify = "register_volume ''node'' ''vol'' ''img'' True"
        and clock = "\<lambda>_. rd0" and create = True and x = no_capture]
  show ?thesis using modify_meta(1) by (simp add: len)
qed

end
