(* ===== verification/LayerfsStore.thy ===== *)
theory LayerfsStore
  imports GoStd
begin

text \<open>
  \<^verbatim>\<open>internal/layerfs/store.go\<close>, \<^verbatim>\<open>mount.go\<close> and \<^verbatim>\<open>push.go\<close>: mounting a container image as a directory and
  committing the directory to a new image.

  Buildah, containers/storage, containers/image and the system calls are the parameter \<open>storage\<close>: one
  function per call, from the arguments and the world to the response and the new world.  An image
  reference is of an arbitrary type \<open>'r\<close>.  Every call whose effect matters is recorded in the trace
  with its response.  \<open>deferred m f g\<close> is a function body \<open>m\<close> with a deferred function: \<open>f\<close> on return,
  where it may change the result, \<open>g\<close> when the body panics.
\<close>

section \<open>The world outside\<close>

record mount_options =
  mo_Image :: string
  mo_ContainerName :: string
  mo_ExtMountDir :: string
  mo_Commit :: bool
  mo_CacheName :: string
  mo_CacheNamespace :: string

record builder =
  b_ContainerID :: string
  b_FromImageID :: string
  b_MountLabel :: string
  b_Args :: gomap

datatype pull_policy = PullNever | PullAlways

text \<open>The result of \<^verbatim>\<open>os.Remove\<close>, with what \<^verbatim>\<open>os.IsNotExist\<close> says of the error.\<close>
datatype rm_result = Removed | NotExist go_error | NotRemoved go_error

record container_info =
  ci_LayerID :: string
  ci_ImageID :: string

record ('r, 'w) storage =
  st_ParseImageName :: "string \<Rightarrow> 'w \<Rightarrow> (go_error + 'r) \<times> 'w"
  st_ParseStoreReference :: "string \<Rightarrow> 'w \<Rightarrow> (go_error + 'r) \<times> 'w"
  st_DockerReference :: "'r \<Rightarrow> string option"
  st_NewBuilder :: "string \<Rightarrow> string \<Rightarrow> pull_policy \<Rightarrow> 'w \<Rightarrow> (go_error + builder) \<times> 'w"
  st_OpenBuilder :: "string \<Rightarrow> 'w \<Rightarrow> (go_error + builder) \<times> 'w"
  st_OpenBuilderByPath :: "string \<Rightarrow> 'w \<Rightarrow> (go_error + builder) \<times> 'w"
  st_MountBuilder :: "builder \<Rightarrow> 'w \<Rightarrow> (go_error + string) \<times> 'w"
  st_SaveBuilder :: "builder \<Rightarrow> 'w \<Rightarrow> go_error option \<times> 'w"
  st_UnmountBuilder :: "builder \<Rightarrow> 'w \<Rightarrow> go_error option \<times> 'w"
  st_DeleteBuilder :: "builder \<Rightarrow> 'w \<Rightarrow> go_error option \<times> 'w"
  st_CommitBuilder :: "builder \<Rightarrow> 'r \<Rightarrow> 'w \<Rightarrow> (go_error + string \<times> string) \<times> 'w"
  st_Container :: "string \<Rightarrow> 'w \<Rightarrow> (go_error + container_info) \<times> 'w"
  st_Changes :: "string \<Rightarrow> 'w \<Rightarrow> (go_error + string list) \<times> 'w"
  st_NewPolicyContext :: "'w \<Rightarrow> go_error option \<times> 'w"
  st_NewStoreReference :: "string option \<Rightarrow> string \<Rightarrow> 'w \<Rightarrow> (go_error + 'r) \<times> 'w"
  st_CopyImage :: "'r \<Rightarrow> 'r \<Rightarrow> 'w \<Rightarrow> go_error option \<times> 'w"
  st_Mkdir :: "string \<Rightarrow> 'w \<Rightarrow> go_error option \<times> 'w"
  st_Remove :: "string \<Rightarrow> 'w \<Rightarrow> rm_result \<times> 'w"
  st_Mount :: "string \<Rightarrow> string \<Rightarrow> 'w \<Rightarrow> go_error option \<times> 'w"
  st_Unmount :: "string \<Rightarrow> 'w \<Rightarrow> go_error option \<times> 'w"
  st_Cancelled :: "'w \<Rightarrow> bool \<times> 'w"

datatype 'r local_entry =
    EParse string "go_error + 'r"
  | EMkdir string "go_error option"
  | ERemove string rm_result
  | EMount string string "go_error option"
  | EUnmount string "go_error option"
  | ENewBuilder string string pull_policy "go_error + builder"
  | EOpenBuilder string "go_error + builder"
  | EOpenBuilderByPath string "go_error + builder"
  | EMountBuilder builder "go_error + string"
  | ESaveBuilder builder "go_error option"
  | EUnmountBuilder builder "go_error option"
  | EDeleteBuilder builder "go_error option"
  | EContainer string "go_error + container_info"
  | EChanges string "go_error + string list"
  | ECommitBuilder builder 'r "go_error + string \<times> string"
  | EPolicyContext "go_error option"
  | EStoreReference "string option" string "go_error + 'r"
  | ECopyImage 'r 'r "go_error option"
  | ECancelled bool

type_synonym ('r, 'w, 'a) local_prog = "('w, 'r local_entry, 'a) go"

text \<open>\<^verbatim>\<open>retry.RetryIfNecessary\<close> (containers/common), given the operation.\<close>
type_synonym ('r, 'w) local_retry = "('r, 'w, go_error option) local_prog \<Rightarrow> ('r, 'w, go_error option) local_prog"

definition deferred :: "('w, 'e, 'a) go \<Rightarrow> ('a \<Rightarrow> ('w, 'e, 'a) go) \<Rightarrow> ('w, 'e, unit) go \<Rightarrow> ('w, 'e, 'a) go" where
  "deferred m f g s = (case m s of (Ret a, s') \<Rightarrow> f a s' | (Panic, s') \<Rightarrow> (Panic, snd (g s')))"

text \<open>\<^verbatim>\<open>if e != nil && err == nil { err = e }\<close>\<close>
definition first_error :: "go_error option \<Rightarrow> go_error option \<Rightarrow> go_error option" where
  "first_error err e = (if e \<noteq> None \<and> err = None then e else err)"

lemma first_error_simps [simp]:
  "first_error None e = e" "first_error err None = err" "first_error (Some x) e = Some x"
  "first_error err e = None \<longleftrightarrow> err = None \<and> e = None"
  by (auto simp: first_error_def)

section \<open>Options\<close>

definition validate :: "mount_options \<Rightarrow> go_error option" where
  "validate o1 =
     (if mo_Image o1 = [] \<and> mo_CacheName o1 = [] then Some (Errorf ''neither cache name nor image specified'' [])
      else if mo_ExtMountDir o1 \<noteq> [] \<and> \<not> IsAbs (mo_ExtMountDir o1) then
        Some (Errorf ''non-absolute mount path %q provided'' [AStr (mo_ExtMountDir o1)])
      else None)"

definition containerName :: "mount_options \<Rightarrow> go_error + string" where
  "containerName o1 =
     (if mo_ContainerName o1 \<noteq> [] then Inr (mo_ContainerName o1)
      else if mo_ExtMountDir o1 \<noteq> [] then
        (let name = Base (mo_ExtMountDir o1)
         in if name = [] \<or> name = ''..'' \<or> name = ''.'' \<or> name = [slash] then
              Inl (Errorf ''cannot derive container name from provided mount path %q, requires sub directory''
                     [AStr (mo_ExtMountDir o1)])
            else Inr (Clean (mo_ExtMountDir o1)))
      else Inr [])"

definition localImageName :: "mount_options \<Rightarrow> string" where
  "localImageName o1 =
     Sprintf ''localhost/cache/%s/%s:latest'' [AStr (mo_CacheNamespace o1), AStr (mo_CacheName o1)]"

section \<open>Image references and mounts\<close>

definition storeImageRef :: "('r, 'w) storage \<Rightarrow> string \<Rightarrow> ('r, 'w, go_error + 'r) local_prog" where
  "storeImageRef st name = call (st_ParseStoreReference st name) (EParse name)"

definition imageRef :: "('r, 'w) storage \<Rightarrow> mount_options \<Rightarrow> ('r, 'w, go_error + 'r) local_prog" where
  "imageRef st o1 =
     (if mo_Image o1 = [] then
        if mo_CacheName o1 = [] \<or> mo_CacheNamespace o1 = [] then
          ret (Inl (Errorf ''cache name and namespace must be specified'' []))
        else storeImageRef st (localImageName o1)
      else
        bind (call (st_ParseImageName st (mo_Image o1)) (EParse (mo_Image o1))) (\<lambda>r.
        case r of
          Inl e \<Rightarrow> ret (Inl (Wrapped ''invalid image name provided'' [] e))
        | Inr imgRef \<Rightarrow> ret (Inr imgRef)))"

text \<open>\<^verbatim>\<open>ref.DockerReference().String()\<close>: the reference is nil for some transports.\<close>
definition docker_name :: "('r, 'w) storage \<Rightarrow> 'r \<Rightarrow> ('r, 'w, string) local_prog" where
  "docker_name st ref = (case st_DockerReference st ref of None \<Rightarrow> panic | Some name \<Rightarrow> ret name)"

definition mount :: "('r, 'w) storage \<Rightarrow> string \<Rightarrow> string \<Rightarrow> ('r, 'w, go_error option) local_prog" where
  "mount st srcDir destDir =
     bind (call (st_Mount st srcDir destDir) (EMount srcDir destDir)) (\<lambda>err.
     ret (wrap ''bind mount %s to %s'' [AStr srcDir, AStr destDir] err))"

definition unmount :: "('r, 'w) storage \<Rightarrow> string \<Rightarrow> ('r, 'w, go_error option) local_prog" where
  "unmount st destDir =
     bind (call (st_Unmount st destDir) (EUnmount destDir)) (\<lambda>err. ret (wrap ''unmount %s'' [AStr destDir] err))"

text \<open>The error of the unmount is only logged.\<close>
definition unmountAndDelete :: "('r, 'w) storage \<Rightarrow> string \<Rightarrow> ('r, 'w, go_error option) local_prog" where
  "unmountAndDelete st dir =
     bind (unmount st dir) (\<lambda>e.
     bind (call (st_Remove st dir) (ERemove dir)) (\<lambda>r.
     case r of NotRemoved err \<Rightarrow> ret (Some err) | _ \<Rightarrow> ret None))"

definition newBuilder :: "('r, 'w) storage \<Rightarrow> string \<Rightarrow> string \<Rightarrow> pull_policy \<Rightarrow> ('r, 'w, go_error + builder) local_prog" where
  "newBuilder st name imageName pullPolicy =
     call (st_NewBuilder st name imageName pullPolicy) (ENewBuilder name imageName pullPolicy)"

section \<open>Mount\<close>

text \<open>From the mount of the builder's container on; gives back the builder as it is then.\<close>
definition mount_builder :: "('r, 'w) storage \<Rightarrow> mount_options \<Rightarrow> builder \<Rightarrow>
    ('r, 'w, (string \<times> go_error option) \<times> builder) local_prog" where
  "mount_builder st opts b =
     bind (call (st_MountBuilder st b) (EMountBuilder b)) (\<lambda>r.
     case r of
       Inl err \<Rightarrow> ret (([], Some err), b)
     | Inr dir \<Rightarrow>
         if mo_ExtMountDir opts \<noteq> [] then
           (let b = b\<lparr>b_Args := Some [''MOUNT_DIR'' \<mapsto> mo_ExtMountDir opts]\<rparr>
            in bind (call (st_SaveBuilder st b) (ESaveBuilder b)) (\<lambda>err.
               case err of
                 Some err \<Rightarrow> ret (([], Some err), b)
               | None \<Rightarrow>
                   bind (mount st dir (mo_ExtMountDir opts)) (\<lambda>err. ret ((mo_ExtMountDir opts, err), b))))
         else ret ((dir, None), b))"

text \<open>The errors that mean that the image does not exist.\<close>
definition image_missing :: "go_error \<Rightarrow> bool" where
  "image_missing err \<longleftrightarrow> HasSuffix (error_string err) '': manifest unknown''
     \<or> HasSuffix (error_string err) '' could not be found locally''"

text \<open>The two deferred functions.\<close>

definition discard_on_error :: "('r, 'w) storage \<Rightarrow> (string \<times> go_error option) \<times> builder \<Rightarrow>
    ('r, 'w, (string \<times> go_error option) \<times> builder) local_prog" where
  "discard_on_error st r =
     (case r of ((dir, err), b) \<Rightarrow>
        if err \<noteq> None then
          bind (call (st_UnmountBuilder st b) (EUnmountBuilder b)) (\<lambda>_.
          bind (call (st_DeleteBuilder st b) (EDeleteBuilder b)) (\<lambda>_. ret r))
        else ret r)"

definition remove_on_error :: "('r, 'w) storage \<Rightarrow> mount_options \<Rightarrow> string \<times> go_error option \<Rightarrow>
    ('r, 'w, string \<times> go_error option) local_prog" where
  "remove_on_error st opts r =
     (case r of (dir, err) \<Rightarrow>
        if err \<noteq> None then
          bind (call (st_Remove st (mo_ExtMountDir opts)) (ERemove (mo_ExtMountDir opts))) (\<lambda>_. ret r)
        else ret r)"

text \<open>From the creation of the builder on.\<close>
definition mount_container :: "('r, 'w) storage \<Rightarrow> mount_options \<Rightarrow> string \<Rightarrow> string \<Rightarrow> pull_policy \<Rightarrow>
    ('r, 'w, string \<times> go_error option) local_prog" where
  "mount_container st opts name imageName pullPolicy =
     bind (newBuilder st name imageName pullPolicy) (\<lambda>r.
     bindR
       (case r of
          Inr b \<Rightarrow> ret (Inr b)
        | Inl err \<Rightarrow>
            if \<not> image_missing err \<or> imageName = ''scratch'' then ret (Inl ([], Some err))
            else
              bind (newBuilder st name ''scratch'' PullNever) (\<lambda>r.
              case r of Inl err \<Rightarrow> ret (Inl ([], Some err)) | Inr b \<Rightarrow> ret (Inr b)))
       (\<lambda>b.
          bind (deferred (mount_builder st opts b) (discard_on_error st) (ret ())) (\<lambda>(r, b). ret r)))"

text \<open>From the parsed image reference on.\<close>
definition mount_image :: "('r, 'w) storage \<Rightarrow> mount_options \<Rightarrow> string \<Rightarrow> 'r \<Rightarrow>
    ('r, 'w, string \<times> go_error option) local_prog" where
  "mount_image st opts name ref =
     bind (docker_name st ref) (\<lambda>imageName.
     let pullPolicy = (if mo_Image opts = [] then PullNever else PullAlways)
     in if mo_ExtMountDir opts \<noteq> [] then
          bind (call (st_Mkdir st (mo_ExtMountDir opts)) (EMkdir (mo_ExtMountDir opts))) (\<lambda>err.
          case err of
            Some err \<Rightarrow> ret ([], Some err)
          | None \<Rightarrow> deferred (mount_container st opts name imageName pullPolicy) (remove_on_error st opts) (ret ()))
        else mount_container st opts name imageName pullPolicy)"

definition Mount :: "('r, 'w) storage \<Rightarrow> mount_options \<Rightarrow> ('r, 'w, string \<times> go_error option) local_prog" where
  "Mount st opts =
     (case validate opts of
        Some err \<Rightarrow> ret ([], Some err)
      | None \<Rightarrow>
          (case containerName opts of
             Inl err \<Rightarrow> ret ([], Some err)
           | Inr name \<Rightarrow>
               bind (if mo_Image opts = [] then storeImageRef st (localImageName opts) else imageRef st opts) (\<lambda>r.
               case r of Inl err \<Rightarrow> ret ([], Some err) | Inr ref \<Rightarrow> mount_image st opts name ref)))"

section \<open>Unmount\<close>

text \<open>Image id, canonical reference (nil if there is no new image), whether there is a new image, error.\<close>
definition commit :: "('r, 'w) storage \<Rightarrow> builder \<Rightarrow> 'r option \<Rightarrow>
    ('r, 'w, string \<times> string option \<times> bool \<times> go_error option) local_prog" where
  "commit st b imgRef =
     bind (call (st_Container st (b_ContainerID b)) (EContainer (b_ContainerID b))) (\<lambda>r.
     case r of
       Inl err \<Rightarrow> ret ([], None, False, Some err)
     | Inr c \<Rightarrow>
         bind (call (st_Changes st (ci_LayerID c)) (EChanges (ci_LayerID c))) (\<lambda>r.
         case r of
           Inl err \<Rightarrow> ret ([], None, False, Some err)
         | Inr changes \<Rightarrow>
             (case imgRef of
                None \<Rightarrow> ret (ci_ImageID c, None, False, None)
              | Some imgRef \<Rightarrow>
                  bind (docker_name st imgRef) (\<lambda>_.
                  if changes = [] \<and> ci_ImageID c \<noteq> [] then ret (ci_ImageID c, None, False, None)
                  else
                    bind (call (st_CommitBuilder st b imgRef) (ECommitBuilder b imgRef)) (\<lambda>r.
                    case r of
                      Inl err \<Rightarrow> ret ([], None, False, Some (Wrapped ''commit'' [] err))
                    | Inr (imageID, ref) \<Rightarrow> ret (imageID, Some ref, True, None))))))"

definition pushImage :: "('r, 'w) storage \<Rightarrow> ('r, 'w) local_retry \<Rightarrow> string option \<Rightarrow> string \<Rightarrow> 'r \<Rightarrow>
    ('r, 'w, go_error option) local_prog" where
  "pushImage st retry srcImageRef srcImageID destRef =
     bind (call (st_NewPolicyContext st) EPolicyContext) (\<lambda>err.
     case err of
       Some err \<Rightarrow> panic
     | None \<Rightarrow>
         bind (call (st_NewStoreReference st srcImageRef srcImageID) (EStoreReference srcImageRef srcImageID)) (\<lambda>r.
         case r of
           Inl err \<Rightarrow> ret (Some (Wrapped ''push source'' [] err))
         | Inr srcRef \<Rightarrow> retry (call (st_CopyImage st destRef srcRef) (ECopyImage destRef srcRef))))"

definition commit_and_push :: "('r, 'w) storage \<Rightarrow> ('r, 'w) local_retry \<Rightarrow> mount_options \<Rightarrow> builder \<Rightarrow> 'r \<Rightarrow>
    'r option \<Rightarrow> ('r, 'w, string \<times> bool \<times> go_error option) local_prog" where
  "commit_and_push st retry opts b localImgRef imgRef =
     bind (commit st b (Some localImgRef)) (\<lambda>(imageID, ref, newImage, err).
     case err of
       Some err \<Rightarrow> ret ([], False, Some err)
     | None \<Rightarrow>
         if newImage \<and> mo_Image opts \<noteq> [] then
           bind (pushImage st retry ref imageID (the imgRef)) (\<lambda>err.
           case err of
             Some err \<Rightarrow> ret ([], False, Some err)
           | None \<Rightarrow> ret (imageID, newImage, None))
         else ret (imageID, newImage, None))"

text \<open>From the check of the commit option on.\<close>
definition publish :: "('r, 'w) storage \<Rightarrow> ('r, 'w) local_retry \<Rightarrow> mount_options \<Rightarrow> builder \<Rightarrow>
    ('r, 'w, string \<times> bool \<times> go_error option) local_prog" where
  "publish st retry opts b =
     bind (storeImageRef st (localImageName opts)) (\<lambda>r.
     case r of
       Inl err \<Rightarrow> ret ([], False, Some err)
     | Inr localImgRef \<Rightarrow>
         if mo_Image opts \<noteq> [] then
           bind (imageRef st opts) (\<lambda>r.
           case r of
             Inl err \<Rightarrow> ret ([], False, Some err)
           | Inr ref \<Rightarrow> commit_and_push st retry opts b localImgRef (Some ref))
         else commit_and_push st retry opts b localImgRef None)"

text \<open>The part of the body that runs with the deletion of the container deferred.\<close>
definition unmount_commit :: "('r, 'w) storage \<Rightarrow> ('r, 'w) local_retry \<Rightarrow> mount_options \<Rightarrow> builder \<Rightarrow>
    go_error option \<Rightarrow> ('r, 'w, string \<times> bool \<times> go_error option) local_prog" where
  "unmount_commit st retry opts b err =
     bind (call (st_UnmountBuilder st b) (EUnmountBuilder b)) (\<lambda>e.
     let err = first_error err e
     in if err \<noteq> None \<or> \<not> mo_Commit opts then ret ([], False, err) else publish st retry opts b)"

text \<open>The container, by its name or, if no name is given, by the path.\<close>
definition open_container :: "('r, 'w) storage \<Rightarrow> mount_options \<Rightarrow> string \<Rightarrow> ('r, 'w, go_error + builder) local_prog" where
  "open_container st opts name =
     bind (call (st_OpenBuilder st name) (EOpenBuilder name)) (\<lambda>r.
     case r of
       Inr b \<Rightarrow> ret (Inr b)
     | Inl err \<Rightarrow>
         if mo_ContainerName opts = [] then
           bind (call (st_OpenBuilderByPath st (mo_ExtMountDir opts)) (EOpenBuilderByPath (mo_ExtMountDir opts))) (\<lambda>r.
           case r of
             Inl err \<Rightarrow> ret (Inl (Wrapped ''find cache container by path %s'' [AStr (mo_ExtMountDir opts)] err))
           | Inr b \<Rightarrow> ret (Inr b))
         else ret (Inl (Wrapped ''find cache container %q'' [AStr name] err)))"

definition delete_container :: "('r, 'w) storage \<Rightarrow> builder \<Rightarrow> ('r, 'w, go_error option) local_prog" where
  "delete_container st b =
     bind (call (st_Cancelled st) ECancelled) (\<lambda>cancelled.
     if \<not> cancelled then call (st_DeleteBuilder st b) (EDeleteBuilder b) else ret None)"

definition Unmount :: "('r, 'w) storage \<Rightarrow> ('r, 'w) local_retry \<Rightarrow> mount_options \<Rightarrow>
    ('r, 'w, string \<times> bool \<times> go_error option) local_prog" where
  "Unmount st retry opts =
     (case validate opts of
        Some err \<Rightarrow> ret ([], False, Some err)
      | None \<Rightarrow>
          if mo_ContainerName opts = [] \<and> mo_ExtMountDir opts = [] then
            ret ([], False, Some (Errorf ''neither container name nor mount path provided'' []))
          else
            (case containerName opts of
               Inl err \<Rightarrow> ret ([], False, Some err)
             | Inr name \<Rightarrow>
                 bind (if mo_ExtMountDir opts \<noteq> [] then unmountAndDelete st (mo_ExtMountDir opts) else ret None) (\<lambda>_.
                 bind (open_container st opts name) (\<lambda>r.
                 case r of
                   Inl err \<Rightarrow> ret ([], False, Some err)
                 | Inr b \<Rightarrow>
                     bind (if b_Args b \<noteq> None then
                             (let dir = mget (b_Args b) ''MOUNT_DIR''
                              in if dir \<noteq> [] \<and> dir \<noteq> mo_ExtMountDir opts then unmountAndDelete st dir else ret None)
                           else ret None) (\<lambda>err.
                     deferred (unmount_commit st retry opts b err)
                       (\<lambda>(imageID, newImage, err).
                          bind (delete_container st b) (\<lambda>e.
                          ret (imageID, newImage, first_error err e)))
                       (bind (delete_container st b) (\<lambda>_. ret ())))))))"

section \<open>Runs\<close>

lemma tspec_deferred:
  assumes "tspec m R"
    and "\<And>a t. R (Ret a) t \<Longrightarrow> tspec (f a) (\<lambda>o1 u. P o1 (t @ u))"
    and "\<And>t. R Panic t \<Longrightarrow> tspec g (\<lambda>o1 u. P Panic (t @ u))"
  shows "tspec (deferred m f g) P"
  unfolding tspec_def
proof
  fix s
  obtain o1 s1 where r: "m s = (o1, s1)" by fastforce
  from assms(1) r obtain t where t: "trace s1 = trace s @ t" "R o1 t"
    by (auto simp: tspec_def dest: spec [of _ s])
  show "\<exists>ext. trace (snd (deferred m f g s)) = trace s @ ext \<and> P (fst (deferred m f g s)) ext"
  proof (cases o1)
    case (Ret a)
    from assms(2) [of a t] t(2) Ret obtain u
      where "trace (snd (f a s1)) = trace s1 @ u" "P (fst (f a s1)) (t @ u)"
      by (auto simp: tspec_def dest: spec [of _ s1])
    with r t(1) Ret show ?thesis by (auto simp: deferred_def)
  next
    case Panic
    from assms(3) [of t] t(2) Panic obtain u where "trace (snd (g s1)) = trace s1 @ u" "P Panic (t @ u)"
      by (auto simp: tspec_def dest: spec [of _ s1])
    with r t(1) Panic show ?thesis by (auto simp: deferred_def)
  qed
qed

text \<open>The container a run has created, and the entries that take things back.\<close>

definition made :: "'r local_entry list \<Rightarrow> builder \<Rightarrow> bool" where
  "made t b \<longleftrightarrow> (\<exists>name img policy. ENewBuilder name img policy (Inr b) \<in> set t)"

fun undoing :: "'r local_entry \<Rightarrow> bool" where
  "undoing (ERemove _ _) = True"
| "undoing (EUnmountBuilder _ _) = True"
| "undoing (EDeleteBuilder _ _) = True"
| "undoing _ = False"

fun creating :: "'r local_entry \<Rightarrow> bool" where
  "creating (EMkdir _ _) = True"
| "creating (ENewBuilder _ _ _ _) = True"
| "creating _ = False"

text \<open>A successful mount: the container is mounted, and bound to the given directory if there is one.\<close>
definition mounts :: "mount_options \<Rightarrow> builder \<Rightarrow> string \<Rightarrow> 'r local_entry list \<Rightarrow> bool" where
  "mounts opts b dir t \<longleftrightarrow>
     (\<exists>d. EMountBuilder b (Inr d) \<in> set t \<and>
        (if mo_ExtMountDir opts = [] then dir = d
         else dir = mo_ExtMountDir opts \<and> EMount d dir None \<in> set t
           \<and> ESaveBuilder (b\<lparr>b_Args := Some [''MOUNT_DIR'' \<mapsto> dir]\<rparr>) None \<in> set t))"

text \<open>The container has been unmounted and deleted, after everything else was done with it.\<close>
definition discarded :: "builder \<Rightarrow> 'r local_entry list \<Rightarrow> bool" where
  "discarded b t \<longleftrightarrow>
     (\<exists>b' u v e1 e2. b_ContainerID b' = b_ContainerID b \<and> t = u @ [EUnmountBuilder b' e1, EDeleteBuilder b' e2] @ v
        \<and> made u b \<and> (\<forall>x\<in>set v. \<exists>d r. x = ERemove d r))"

lemma mount_builder_run:
  "tspec (mount_builder st opts b) (\<lambda>o1 t. \<exists>dir err b'. o1 = Ret ((dir, err), b') \<and> b_ContainerID b' = b_ContainerID b
     \<and> (\<forall>x\<in>set t. \<not> undoing x \<and> \<not> creating x) \<and> (err = None \<longrightarrow> mounts opts b dir t))"
  unfolding mount_builder_def mount_def Let_def
  by (intro tspec_intros) (auto simp: mounts_def bind_assoc intro!: tspec_intros)

text \<open>The builders a mount asks for: the second one is the fallback to an empty file system.\<close>
definition builders_asked :: "string \<Rightarrow> string \<Rightarrow> pull_policy \<Rightarrow> 'r local_entry list \<Rightarrow> bool" where
  "builders_asked name img policy t \<longleftrightarrow>
     (\<exists>r u. t = ENewBuilder name img policy r # u \<and>
        (case r of
           Inr b \<Rightarrow> (\<forall>x\<in>set u. \<not> creating x)
         | Inl e \<Rightarrow> u = [] \<and> (\<not> image_missing e \<or> img = ''scratch'')
             \<or> (image_missing e \<and> img \<noteq> ''scratch''
                \<and> (\<exists>r v. u = ENewBuilder name ''scratch'' PullNever r # v \<and> (\<forall>x\<in>set v. \<not> creating x)))))"

fun on_directory :: "'r local_entry \<Rightarrow> bool" where
  "on_directory (EMkdir _ _) = True"
| "on_directory (ERemove _ _) = True"
| "on_directory _ = False"

text \<open>\<open>b\<close> is the container; \<open>t\<close> starts after its creation.\<close>
definition container_run :: "mount_options \<Rightarrow> builder \<Rightarrow> string \<times> go_error option \<Rightarrow> 'r local_entry list \<Rightarrow> bool" where
  "container_run opts b r t \<longleftrightarrow>
     (\<forall>x\<in>set t. \<not> creating x \<and> \<not> on_directory x) \<and>
     (if snd r = None then mounts opts b (fst r) t \<and> (\<forall>x\<in>set t. \<not> undoing x)
      else \<exists>b' u e1 e2. b_ContainerID b' = b_ContainerID b \<and> t = u @ [EUnmountBuilder b' e1, EDeleteBuilder b' e2])"

lemma mounts_append: "mounts opts b dir t \<Longrightarrow> mounts opts b dir (u @ t)"
  by (auto simp: mounts_def split: if_splits)

lemma not_on_directory: "\<not> undoing x \<Longrightarrow> \<not> creating x \<Longrightarrow> \<not> on_directory x"
  by (cases x) auto

lemma mount_cleanup_run:
  "tspec (bind (deferred (mount_builder st opts b) (discard_on_error st) (ret ())) (\<lambda>(r, b). ret r))
    (\<lambda>o1 t. \<exists>r. o1 = Ret r \<and> container_run opts b r t)"
proof (rule tspec_bind [where R = "\<lambda>o1 t. \<exists>r b'. o1 = Ret (r, b') \<and> container_run opts b r t"], rule tspec_deferred [OF mount_builder_run], goal_cases)
  case (1 a t)
  then obtain dir err b' where a: "a = ((dir, err), b')" "b_ContainerID b' = b_ContainerID b"
      "\<forall>x\<in>set t. \<not> undoing x \<and> \<not> creating x" "err = None \<longrightarrow> mounts opts b dir t"
    by auto
  have q: "\<forall>x\<in>set t. \<not> creating x \<and> \<not> on_directory x" using a(3) not_on_directory by blast
  show ?case
  proof (cases err)
    case None
    with a q show ?thesis by (simp add: discard_on_error_def container_run_def tspec_ret)
  next
    case (Some e)
    have "container_run opts b (dir, Some e) (t @ [EUnmountBuilder b' e1, EDeleteBuilder b' e2])" for e1 e2
      using a(2) q by (auto simp: container_run_def)
    with a(1) Some show ?thesis by (auto simp: discard_on_error_def intro!: tspec_intros)
  qed
qed (auto intro!: tspec_ret)

text \<open>What a container-level mount did, after the image reference was resolved.\<close>
definition mount_container_ok :: "mount_options \<Rightarrow> string \<Rightarrow> string \<Rightarrow> pull_policy \<Rightarrow> string \<times> go_error option \<Rightarrow>
    'r local_entry list \<Rightarrow> bool" where
  "mount_container_ok opts name img policy r t \<longleftrightarrow>
     builders_asked name img policy t \<and> (\<forall>x\<in>set t. \<not> on_directory x) \<and>
     (if snd r = None then (\<exists>b. made t b \<and> mounts opts b (fst r) t) \<and> (\<forall>x\<in>set t. \<not> undoing x)
      else (\<forall>b. made t b \<longrightarrow> discarded b t))"

lemma container_run_ok:
  assumes "container_run opts b r t" and pre: "pre = [ENewBuilder name img policy (Inr b)]
      \<or> (\<exists>e. image_missing e \<and> img \<noteq> ''scratch''
           \<and> pre = [ENewBuilder name img policy (Inl e), ENewBuilder name ''scratch'' PullNever (Inr b)])"
  shows "mount_container_ok opts name img policy r (pre @ t)"
proof -
  have c: "\<forall>x\<in>set t. \<not> creating x \<and> \<not> on_directory x" using assms(1) by (simp add: container_run_def)
  then have "made (pre @ t) b' \<longleftrightarrow> b' = b" for b'
    using pre by (fastforce simp: made_def)
  moreover have "made pre b" using pre by (auto simp: made_def)
  moreover have "builders_asked name img policy (pre @ t)" using pre c by (auto simp: builders_asked_def)
  moreover have "\<forall>x\<in>set pre. \<not> on_directory x \<and> \<not> undoing x" using pre by auto
  moreover have "discarded b (pre @ u @ [EUnmountBuilder b' e1, EDeleteBuilder b' e2])"
    if "b_ContainerID b' = b_ContainerID b" for b' u e1 e2
    unfolding discarded_def
    by (intro exI [of _ b'] exI [of _ "pre @ u"] exI [of _ "[]"] exI [of _ e1] exI [of _ e2])
       (use that \<open>made pre b\<close> in \<open>auto simp: made_def\<close>)
  ultimately show ?thesis
    using assms(1) c
    by (auto simp: mount_container_ok_def container_run_def mounts_append split: if_splits)
qed

lemma mount_container_run:
  "tspec (mount_container st opts name img policy) (\<lambda>o1 t. \<exists>r. o1 = Ret r \<and> mount_container_ok opts name img policy r t)"
proof -
  have fails: "mount_container_ok opts name img policy ([], Some e) [ENewBuilder name img policy (Inl e)]"
    if "\<not> image_missing e \<or> img = ''scratch''" for e
    using that by (auto simp: mount_container_ok_def builders_asked_def made_def)
  have fails2: "mount_container_ok opts name img policy ([], Some e')
      [ENewBuilder name img policy (Inl e), ENewBuilder name ''scratch'' PullNever (Inl e')]"
    if "image_missing e" "img \<noteq> ''scratch''" for e e'
    using that by (auto simp: mount_container_ok_def builders_asked_def made_def)
  have ok1: "mount_container_ok opts name img policy r (ENewBuilder name img policy (Inr b) # t)"
    if "container_run opts b r t" for r b t
    using container_run_ok [OF that, of "[ENewBuilder name img policy (Inr b)]"] by simp
  have ok2: "mount_container_ok opts name img policy r
      (ENewBuilder name img policy (Inl e) # ENewBuilder name ''scratch'' PullNever (Inr b) # t)"
    if "container_run opts b r t" "image_missing e" "img \<noteq> ''scratch''" for r b t e
    using container_run_ok [OF that(1), of "[ENewBuilder name img policy (Inl e), ENewBuilder name ''scratch'' PullNever (Inr b)]"]
      that(2,3) by simp
  show ?thesis
    unfolding mount_container_def newBuilder_def
  proof (rule tspec_bind_call, goal_cases)
    case (1 r)
    show ?case
    proof (cases r)
      case (Inr b)
      then show ?thesis by (simp, intro tspec_mono [OF mount_cleanup_run]) (auto intro: ok1)
    next
      case (Inl e)
      show ?thesis
      proof (cases "\<not> image_missing e \<or> img = ''scratch''")
        case True
        with Inl fails [OF True] show ?thesis by (auto intro!: tspec_ret)
      next
        case False
        have fallback: "tspec (bindR (bind (call (st_NewBuilder st name ''scratch'' PullNever) (ENewBuilder name ''scratch'' PullNever))
            (\<lambda>r. case r of Inl err \<Rightarrow> ret (Inl ([], Some err)) | Inr b \<Rightarrow> ret (Inr b))) k)
          (\<lambda>o1 t. \<exists>r. o1 = Ret r \<and> mount_container_ok opts name img policy r (ENewBuilder name img policy (Inl e) # t))"
          if k: "\<And>b. tspec (k b) (\<lambda>o1 t. \<exists>r. o1 = Ret r \<and> container_run opts b r t)" for k
          unfolding bindR_bind
        proof (rule tspec_bind_call, goal_cases)
          case (1 r)
          with False show ?case
            by (cases r) (auto intro!: tspec_ret fails2 tspec_mono [OF k] ok2)
        qed
        show ?thesis unfolding Inl sum.case if_not_P [OF False] by (rule fallback) (rule mount_cleanup_run)
      qed
    qed
  qed
qed

definition local_result :: "('r, 'w, 'a) local_prog \<Rightarrow> 'w \<Rightarrow> 'a outcome" where
  "local_result m w = fst (m (start w))"

definition local_trace :: "('r, 'w, 'a) local_prog \<Rightarrow> 'w \<Rightarrow> 'r local_entry list" where
  "local_trace m w = trace (snd (m (start w)))"

lemma tspec_local: "tspec m P \<Longrightarrow> P (local_result m w) (local_trace m w)"
  unfolding local_result_def local_trace_def by (rule tspec_start)

lemma local_exec: "local_trace m w = trace (snd (exec m (start w)))" "local_result m w = fst (exec m (start w))"
  by (simp_all add: local_trace_def local_result_def exec_def)

text \<open>A mount succeeds as a whole, or takes back what it has done.\<close>
definition all_or_nothing :: "('r, 'w) storage \<Rightarrow> mount_options \<Rightarrow> (string \<times> go_error option) outcome \<Rightarrow>
    'r local_entry list \<Rightarrow> bool" where
  "all_or_nothing st opts o1 t \<longleftrightarrow>
     (case o1 of
        Panic \<Rightarrow> (\<exists>n ref. t = [EParse n (Inr ref)] \<and> st_DockerReference st ref = None)
      | Ret (dir, err) \<Rightarrow>
          if err = None then
            (\<exists>b. made t b \<and> mounts opts b dir t) \<and> (\<forall>x\<in>set t. \<not> undoing x)
            \<and> (mo_ExtMountDir opts \<noteq> [] \<longrightarrow> EMkdir (mo_ExtMountDir opts) None \<in> set t)
          else (\<forall>b. made t b \<longrightarrow> discarded b t)
            \<and> (\<forall>d. EMkdir d None \<in> set t \<longrightarrow> (\<exists>u r. t = u @ [ERemove d r])))"

lemma made_Cons: "\<not> creating x \<or> (\<exists>d e. x = EMkdir d e) \<Longrightarrow> made (x # t) b = made t b"
  by (auto simp: made_def)

lemma made_snoc: "made (t @ [ERemove d r]) b = made t b"
  by (auto simp: made_def)

lemma discarded_Cons: "discarded b t \<Longrightarrow> discarded b (x # t)"
proof -
  assume "discarded b t"
  then obtain b' u v e1 e2 where "b_ContainerID b' = b_ContainerID b"
      "t = u @ [EUnmountBuilder b' e1, EDeleteBuilder b' e2] @ v" "made u b" "\<forall>x\<in>set v. \<exists>d r. x = ERemove d r"
    unfolding discarded_def by blast
  moreover from this(3) have "made (x # u) b" by (auto simp: made_def)
  ultimately show ?thesis unfolding discarded_def by (metis append_Cons)
qed

lemma discarded_snoc: "discarded b t \<Longrightarrow> discarded b (t @ [ERemove d r])"
proof -
  assume "discarded b t"
  then obtain b' u v e1 e2 where "b_ContainerID b' = b_ContainerID b"
      "t = u @ [EUnmountBuilder b' e1, EDeleteBuilder b' e2] @ v" "made u b" "\<forall>x\<in>set v. \<exists>d r. x = ERemove d r"
    unfolding discarded_def by blast
  then show ?thesis unfolding discarded_def
    by (intro exI [of _ b'] exI [of _ u] exI [of _ "v @ [ERemove d r]"] exI [of _ e1] exI [of _ e2]) auto
qed

text \<open>The two ways a mount continues after the image reference was parsed.\<close>

lemma mount_container_all_or_nothing:
  assumes "mount_container_ok opts name img policy r t" "mo_ExtMountDir opts = []"
  shows "all_or_nothing st opts (Ret r) (EParse n p # t)"
  using assms mounts_append [of opts _ _ t "[EParse n p]"]
  by (cases r) (auto simp: all_or_nothing_def mount_container_ok_def made_Cons intro!: discarded_Cons split: if_splits)

lemma mount_dir_all_or_nothing:
  assumes ok: "mount_container_ok opts name img policy r t" and ext: "mo_ExtMountDir opts \<noteq> []"
  shows "all_or_nothing st opts (Ret r) (EParse n p # EMkdir (mo_ExtMountDir opts) None #
    t @ (if snd r = None then [] else [ERemove (mo_ExtMountDir opts) q]))"
proof (cases "snd r")
  case None
  with ok mounts_append [of opts _ _ t "[EParse n p, EMkdir (mo_ExtMountDir opts) None]"] show ?thesis
    by (cases r) (auto simp: all_or_nothing_def mount_container_ok_def made_Cons)
next
  case (Some e)
  let ?t = "EParse n p # EMkdir (mo_ExtMountDir opts) None # t @ [ERemove (mo_ExtMountDir opts) q]"
  have "made ?t b \<Longrightarrow> discarded b ?t" for b
    using ok Some by (auto simp: mount_container_ok_def made_Cons made_snoc intro!: discarded_Cons discarded_snoc)
  moreover have "\<exists>u r. ?t = u @ [ERemove d r]" if "EMkdir d None \<in> set ?t" for d
    using that ok by (auto simp: mount_container_ok_def)
  ultimately show ?thesis using Some by (cases r) (simp add: all_or_nothing_def)
qed

lemma early_all_or_nothing:
  "\<forall>x\<in>set t. \<not> creating x \<or> (\<exists>d e. x = EMkdir d (Some e)) \<Longrightarrow> all_or_nothing st opts (Ret ([], Some e)) t"
  by (auto simp: all_or_nothing_def made_def)

lemma mount_image_run:
  "tspec (mount_image st opts name ref) (\<lambda>o1 t. all_or_nothing st opts o1 (EParse n (Inr ref) # t))"
proof (cases "st_DockerReference st ref")
  case None
  then show ?thesis by (simp add: mount_image_def docker_name_def tspec_panic all_or_nothing_def)
next
  case (Some img)
  show ?thesis
  proof (cases "mo_ExtMountDir opts = []")
    case True
    with Some show ?thesis unfolding mount_image_def docker_name_def
      by (auto simp: Let_def intro!: tspec_mono [OF mount_container_run] mount_container_all_or_nothing)
  next
    case False
    have "tspec (deferred (mount_container st opts name img policy) (remove_on_error st opts) (ret ()))
        (\<lambda>o1 u. all_or_nothing st opts o1 (EParse n (Inr ref) # EMkdir (mo_ExtMountDir opts) None # u))" for policy
    proof (rule tspec_deferred [OF mount_container_run], goal_cases)
      case (1 r t)
      then have "mount_container_ok opts name img policy r t" by simp
      note ok = mount_dir_all_or_nothing [OF this False, of st n "Inr ref"]
      show ?case
        using ok by (cases r; cases "snd r") (auto simp: remove_on_error_def intro!: tspec_intros)
    qed simp
    with Some False show ?thesis unfolding mount_image_def docker_name_def Let_def
      by (auto intro!: tspec_intros early_all_or_nothing)
  qed
qed

lemma image_ref_run:
  "tspec (if mo_Image opts = [] then storeImageRef st (localImageName opts) else imageRef st opts)
     (\<lambda>o1 t. (\<exists>e. o1 = Ret (Inl e) \<and> (\<forall>x\<in>set t. \<not> creating x)) \<or> (\<exists>n ref. o1 = Ret (Inr ref) \<and> t = [EParse n (Inr ref)]))"
  unfolding storeImageRef_def imageRef_def by (auto intro!: tspec_call tspec_intros) (metis obj_sumE)

lemma Mount_run: "tspec (Mount st opts) (all_or_nothing st opts)"
  unfolding Mount_def
proof (intro tspec_option tspec_sum, goal_cases)
  case (2 name)
  show ?case
  proof (rule tspec_bind [OF image_ref_run], goal_cases)
    case (1 r t)
    then show ?case by (auto intro!: tspec_ret early_all_or_nothing mount_image_run)
  qed simp
qed (auto intro!: tspec_ret early_all_or_nothing)

subsection \<open>Unmount\<close>

text \<open>
  What the push relies on: the operation is run once or more often, and the result is that of its last
  run.
\<close>
definition runs_operation :: "('r, 'w) local_retry \<Rightarrow> bool" where
  "runs_operation retry \<longleftrightarrow>
     (\<forall>m P. tspec m P \<longrightarrow> tspec (retry m) (\<lambda>o1 t. \<exists>ts u. t = concat ts @ u \<and> (\<forall>u\<in>set ts. \<exists>o2. P o2 u) \<and> P o1 u))"

text \<open>The calls that make and publish an image.\<close>
fun publishing :: "builder \<Rightarrow> 'r local_entry \<Rightarrow> bool" where
  "publishing b (EParse _ _) = True"
| "publishing b (EContainer n _) = (n = b_ContainerID b)"
| "publishing b (EChanges _ _) = True"
| "publishing b (ECommitBuilder b' _ _) = (b' = b)"
| "publishing b (EPolicyContext _) = True"
| "publishing b (EStoreReference _ _ _) = True"
| "publishing b (ECopyImage _ _ _) = True"
| "publishing b _ = False"

fun is_copy :: "'r local_entry \<Rightarrow> bool" where
  "is_copy (ECopyImage _ _ _) = True"
| "is_copy _ = False"

definition committed :: "builder \<Rightarrow> string \<Rightarrow> string \<Rightarrow> 'r local_entry list \<Rightarrow> bool" where
  "committed b imageID ref t \<longleftrightarrow> (\<exists>r. ECommitBuilder b r (Inr (imageID, ref)) \<in> set t)"

lemma commit_run:
  "tspec (commit st b (Some r)) (\<lambda>o1 t. (\<forall>x\<in>set t. publishing b x \<and> \<not> is_copy x) \<and>
     (case o1 of Panic \<Rightarrow> True
      | Ret (imageID, ref, newImage, err) \<Rightarrow>
          if newImage then err = None \<and> (\<exists>cref. ref = Some cref \<and> committed b imageID cref t)
          else \<forall>i c. \<not> committed b i c t))"
  unfolding commit_def docker_name_def
  by (auto simp: committed_def bind_assoc split: option.splits intro!: tspec_intros)

lemma pushImage_run:
  assumes "runs_operation retry"
  shows "tspec (pushImage st retry src i dest) (\<lambda>o1 t. (\<forall>x\<in>set t. publishing b x)
     \<and> (o1 = Ret None \<longrightarrow> (\<exists>u s. t = u @ [ECopyImage dest s None])))"
proof -
  have copy: "tspec (retry (call (st_CopyImage st dest s) (ECopyImage dest s)))
      (\<lambda>o1 t. (\<forall>x\<in>set t. publishing b x) \<and> (o1 = Ret None \<longrightarrow> (\<exists>u. t = u @ [ECopyImage dest s None])))" for s
  proof -
    have "tspec (call (st_CopyImage st dest s) (ECopyImage dest s)) (\<lambda>o1 t. \<exists>e. o1 = Ret e \<and> t = [ECopyImage dest s e])"
      by (auto intro: tspec_call)
    with assms have "tspec (retry (call (st_CopyImage st dest s) (ECopyImage dest s)))
        (\<lambda>o1 t. \<exists>ts u. t = concat ts @ u \<and> (\<forall>u\<in>set ts. \<exists>o2 e. o2 = Ret e \<and> u = [ECopyImage dest s e])
           \<and> (\<exists>e. o1 = Ret e \<and> u = [ECopyImage dest s e]))"
      unfolding runs_operation_def by blast
    then show ?thesis by (rule tspec_mono) fastforce
  qed
  show ?thesis unfolding pushImage_def
    by (intro tspec_intros) (auto intro!: tspec_mono [OF copy])
qed

text \<open>The publishing part of an unmount: its trace \<open>u\<close> and its outcome.\<close>
definition published :: "mount_options \<Rightarrow> builder \<Rightarrow> (string \<times> bool \<times> go_error option) outcome \<Rightarrow>
    'r local_entry list \<Rightarrow> bool" where
  "published opts b o1 u \<longleftrightarrow>
     (\<forall>x\<in>set u. publishing b x)
   \<and> (list_ex is_copy u \<longrightarrow> mo_Image opts \<noteq> [] \<and> (\<exists>i c. committed b i c u))
   \<and> (case o1 of
        Panic \<Rightarrow> True
      | Ret (imageID, newImage, err) \<Rightarrow>
          newImage \<longrightarrow> err = None \<and> (\<exists>c. committed b imageID c u)
            \<and> (mo_Image opts \<noteq> [] \<longrightarrow> (\<exists>v d s. u = v @ [ECopyImage d s None])))"

lemma no_copy_published:
  assumes "\<forall>x\<in>set u. publishing b x \<and> \<not> is_copy x"
  shows "published opts b (Ret (i, False, err)) u" "published opts b Panic u"
  using assms by (auto simp: published_def list_ex_iff)

lemma commit_push_run:
  assumes "runs_operation retry" and pre: "\<forall>x\<in>set pre. publishing b x \<and> \<not> is_copy x"
  shows "tspec (commit_and_push st retry opts b localRef dest) (\<lambda>o1 t. published opts b o1 (pre @ t))"
  unfolding commit_and_push_def
proof (rule tspec_bind [OF commit_run], goal_cases)
  case (1 a t)
  obtain i ref new err where a: "a = (i, ref, new, err)" by (cases a)
  with 1 have t: "\<forall>x\<in>set (pre @ t). publishing b x \<and> \<not> is_copy x"
    and n: "new \<Longrightarrow> err = None \<and> (\<exists>c. ref = Some c \<and> committed b i c t)"
    using pre by (auto split: if_splits)
  show ?case
  proof (cases "new \<and> mo_Image opts \<noteq> []")
    case True
    with n obtain c where c: "err = None" "committed b i c (pre @ t)" by (auto simp: committed_def)
    have more: "committed b i c (pre @ t @ u)" for u using c(2) by (auto simp: committed_def)
    have "tspec (bind (pushImage st retry ref i (the dest)) (\<lambda>err.
        case err of Some err \<Rightarrow> ret ([], False, Some err) | None \<Rightarrow> ret (i, new, None)))
      (\<lambda>o1 u. published opts b o1 (pre @ t @ u))"
    proof (rule tspec_bind [OF pushImage_run [OF assms(1), where b = b]], goal_cases)
      case (1 e u)
      with t have p: "\<forall>x\<in>set (pre @ t @ u). publishing b x" by auto
      have ex: "\<exists>i c. committed b i c (pre @ t @ u)" "\<exists>c. committed b i c (pre @ t @ u)" using more by blast+
      show ?case
      proof (cases e)
        case None
        with 1 obtain v s where "u = v @ [ECopyImage (the dest) s None]" by auto
        then have "\<exists>v d s. pre @ t @ u = v @ [ECopyImage d s None]" by (metis append_assoc)
        with None p ex True show ?thesis by (simp add: published_def tspec_ret)
      next
        case (Some x)
        with p ex True show ?thesis by (simp add: published_def tspec_ret)
      qed
    next
      case (2 u)
      moreover have "\<exists>i c. committed b i c (pre @ t @ u)" using more by blast
      ultimately show ?case using t True by (auto simp: published_def)
    qed
    with True c a show ?thesis unfolding a prod.case c(1) option.case if_P [OF True] by simp
  next
    case False
    have "published opts b (Ret ([], False, Some e)) (pre @ t)" for e using no_copy_published(1) [OF t] .
    moreover have "published opts b (Ret (i, new, None)) (pre @ t)"
    proof (cases new)
      case True
      with n t False show ?thesis by (auto simp: published_def list_ex_iff committed_def)
    qed (use no_copy_published(1) [OF t] in simp)
    ultimately show ?thesis using False a by (auto intro!: tspec_intros)
  qed
next
  case (2 t)
  with pre show ?case by (intro no_copy_published(2)) auto
qed

lemma publish_run:
  fixes st :: "('r, 'w) storage"
  assumes "runs_operation retry"
  shows "tspec (publish st retry opts b) (published opts b)"
proof -
  have parse: "\<forall>y\<in>set [EParse n x]. publishing b y \<and> \<not> is_copy y"
    "\<forall>y\<in>set [EParse n x, EParse m z]. publishing b y \<and> \<not> is_copy y"
    for n m and x z :: "go_error + 'r" by auto
  note failed = no_copy_published(1)
  note one = commit_push_run [OF assms parse(1), simplified] and two = commit_push_run [OF assms parse(2), simplified]
  show ?thesis unfolding publish_def storeImageRef_def
  proof (rule tspec_bind_call, rule tspec_sum, goal_cases)
    case (1 r err)
    then show ?case using failed [OF parse(1)] by (simp add: tspec_ret)
  next
    case (2 r localRef)
    have "tspec (bind (imageRef st opts) (\<lambda>r. case r of Inl err \<Rightarrow> ret ([], False, Some err)
        | Inr ref \<Rightarrow> commit_and_push st retry opts b localRef (Some ref)))
      (\<lambda>o1 u. published opts b o1 (EParse (localImageName opts) r # u))" if "mo_Image opts \<noteq> []"
      unfolding imageRef_def if_not_P [OF that] bind_assoc
    proof (rule tspec_bind_call, goal_cases)
      case (1 q)
      show ?case by (cases q) (simp_all add: tspec_ret failed [OF parse(2)] two)
    qed
    then show ?case using one by (intro tspec_if) auto
  qed
qed

text \<open>An unmount after the container was found; \<open>err0\<close> is the error of unmounting its directory.\<close>
definition unmount_ok :: "mount_options \<Rightarrow> builder \<Rightarrow> go_error option \<Rightarrow> (string \<times> bool \<times> go_error option) outcome \<Rightarrow>
    'r local_entry list \<Rightarrow> bool" where
  "unmount_ok opts b err0 o1 t \<longleftrightarrow>
     (\<exists>e u. t = EUnmountBuilder b e # u \<and> published opts b o1 u
        \<and> (err0 \<noteq> None \<or> e \<noteq> None \<or> \<not> mo_Commit opts \<longrightarrow>
             u = [] \<and> o1 = Ret ([], False, first_error err0 e)))"

lemma unmount_commit_run:
  assumes "runs_operation retry"
  shows "tspec (unmount_commit st retry opts b err0) (unmount_ok opts b err0)"
  unfolding unmount_commit_def
proof (rule tspec_bind_call, goal_cases)
  case (1 e)
  show ?case
  proof (cases "err0 \<noteq> None \<or> e \<noteq> None \<or> \<not> mo_Commit opts")
    case True
    then show ?thesis by (auto simp: Let_def unmount_ok_def published_def intro!: tspec_ret)
  next
    case False
    have ok: "unmount_ok opts b err0 o1 (EUnmountBuilder b e # u)" if "published opts b o1 u" for o1 u
      using that False by (auto simp: unmount_ok_def)
    have "tspec (publish st retry opts b) (\<lambda>o1 u. unmount_ok opts b err0 o1 (EUnmountBuilder b e # u))"
      by (rule tspec_mono [OF publish_run [OF assms]]) (rule ok)
    with False show ?thesis by (simp add: Let_def)
  qed
qed

definition opened :: "'r local_entry list \<Rightarrow> builder \<Rightarrow> bool" where
  "opened t b \<longleftrightarrow> (\<exists>n. EOpenBuilder n (Inr b) \<in> set t \<or> EOpenBuilderByPath n (Inr b) \<in> set t)"

text \<open>The entries before the container is at hand.\<close>
fun preparing :: "'r local_entry \<Rightarrow> bool" where
  "preparing (EUnmount _ _) = True"
| "preparing (ERemove _ _) = True"
| "preparing (EOpenBuilder _ _) = True"
| "preparing (EOpenBuilderByPath _ _) = True"
| "preparing _ = False"

text \<open>The directory the container remembers, if it is not the one that was given.\<close>
definition remembered_dir :: "mount_options \<Rightarrow> builder \<Rightarrow> string option" where
  "remembered_dir opts b =
     (let dir = mget (b_Args b) ''MOUNT_DIR''
      in if dir \<noteq> [] \<and> dir \<noteq> mo_ExtMountDir opts then Some dir else None)"

definition removal_error :: "rm_result \<Rightarrow> go_error option" where
  "removal_error r = (case r of NotRemoved e \<Rightarrow> Some e | _ \<Rightarrow> None)"

text \<open>A run that has found its container \<open>b\<close>.\<close>
definition unmount_found :: "mount_options \<Rightarrow> (string \<times> bool \<times> go_error option) outcome \<Rightarrow> 'r local_entry list \<Rightarrow> builder \<Rightarrow> bool" where
  "unmount_found opts o1 t b \<longleftrightarrow>
     (\<exists>pre err0 o2 u c v. t = pre @ u @ ECancelled c # v
        \<and> (\<forall>x\<in>set pre. preparing x) \<and> (\<forall>b'. opened pre b' \<longleftrightarrow> b' = b)
        \<and> (case remembered_dir opts b of
             None \<Rightarrow> err0 = None
           | Some dir \<Rightarrow> (\<exists>r. ERemove dir r \<in> set pre \<and> err0 = removal_error r))
        \<and> unmount_ok opts b err0 o2 u
        \<and> (if c then v = [] \<and> o1 = o2
           else \<exists>e. v = [EDeleteBuilder b e] \<and>
             o1 = (case o2 of Panic \<Rightarrow> Panic
                   | Ret (i, n, err) \<Rightarrow> Ret (i, n, first_error err e))))"

definition unmount_run :: "mount_options \<Rightarrow> (string \<times> bool \<times> go_error option) outcome \<Rightarrow> 'r local_entry list \<Rightarrow> bool" where
  "unmount_run opts o1 t \<longleftrightarrow>
     (\<exists>e. o1 = Ret ([], False, Some e)) \<and> (\<forall>x\<in>set t. preparing x) \<and> (\<forall>b. \<not> opened t b)
   \<or> (\<exists>b. unmount_found opts o1 t b)"

lemma unmountAndDelete_run:
  "tspec (unmountAndDelete st dir) (\<lambda>o1 t. \<exists>e r. t = [EUnmount dir e, ERemove dir r] \<and> o1 = Ret (removal_error r))"
  unfolding unmountAndDelete_def unmount_def bind_assoc bind_simps
proof (rule tspec_bind_call, rule tspec_bind_call, goal_cases)
  case (1 e r)
  show ?case by (cases r) (auto simp: removal_error_def intro!: tspec_ret)
qed

lemma open_container_run:
  "tspec (open_container st opts name) (\<lambda>o1 t. (\<forall>x\<in>set t. preparing x) \<and>
     ((\<exists>e. o1 = Ret (Inl e) \<and> (\<forall>b. \<not> opened t b)) \<or> (\<exists>b. o1 = Ret (Inr b) \<and> (\<forall>b'. opened t b' \<longleftrightarrow> b' = b))))"
  unfolding open_container_def
  by (intro tspec_intros) (auto simp: opened_def)

lemma delete_container_run:
  "tspec (delete_container st b) (\<lambda>o1 t. t = [ECancelled True] \<and> o1 = Ret None
     \<or> (\<exists>e. t = [ECancelled False, EDeleteBuilder b e] \<and> o1 = Ret e))"
  unfolding delete_container_def by (auto intro!: tspec_intros tspec_call)

lemma unmount_deferred_run:
  assumes "runs_operation retry" and pre: "\<forall>x\<in>set pre. preparing x" "\<forall>b'. opened pre b' \<longleftrightarrow> b' = b"
    and err0: "case remembered_dir opts b of None \<Rightarrow> err0 = None
      | Some dir \<Rightarrow> (\<exists>r. ERemove dir r \<in> set pre \<and> err0 = removal_error r)"
  shows "tspec (deferred (unmount_commit st retry opts b err0)
      (\<lambda>(imageID, newImage, err). bind (delete_container st b) (\<lambda>e.
         ret (imageID, newImage, first_error err e)))
      (bind (delete_container st b) (\<lambda>_. ret ())))
    (\<lambda>o1 t. unmount_found opts o1 (pre @ t) b)"
proof -
  have found: "unmount_found opts o1 (pre @ u @ ECancelled c # v) b"
    if "unmount_ok opts b err0 o2 u" "if c then v = [] \<and> o1 = o2 else \<exists>e. v = [EDeleteBuilder b e] \<and>
      o1 = (case o2 of Panic \<Rightarrow> Panic | Ret (i, n, err) \<Rightarrow> Ret (i, n, first_error err e))"
    for o1 o2 u c v
    unfolding unmount_found_def
    by (intro exI [of _ pre] exI [of _ err0] exI [of _ o2] exI [of _ u] exI [of _ c] exI [of _ v] conjI refl pre err0 that)
  show ?thesis
  proof (rule tspec_deferred [OF unmount_commit_run [OF assms(1)]], goal_cases)
    case (1 a u)
    obtain i n err where a: "a = (i, n, err)" by (cases a)
    have *: "unmount_found opts (Ret (i, n, err)) (pre @ u @ [ECancelled True]) b"
      "unmount_found opts (Ret (i, n, first_error err e))
         (pre @ u @ [ECancelled False, EDeleteBuilder b e]) b" for e
      using found [OF 1, of True "[]"] found [OF 1, of False "[EDeleteBuilder b e]"] a by auto
    show ?case unfolding a prod.case
      by (rule tspec_bind [OF delete_container_run]) (use * in \<open>auto intro!: tspec_ret\<close>)
  next
    case (2 u)
    have *: "unmount_found opts Panic (pre @ u @ [ECancelled True]) b"
      "unmount_found opts Panic (pre @ u @ [ECancelled False, EDeleteBuilder b e]) b" for e
      using found [OF 2, of True "[]"] found [OF 2, of False "[EDeleteBuilder b e]"] by auto
    show ?case
      by (rule tspec_bind [OF delete_container_run]) (use * in \<open>auto intro!: tspec_ret\<close>)
  qed
qed

lemma opened_removed:
  "\<not> opened [EUnmount d e, ERemove d r] b" "opened (EUnmount d e # ERemove d r # t) b = opened t b"
  "opened (t @ [EUnmount d e, ERemove d r]) b = opened t b"
  by (auto simp: opened_def)

lemma unmount_given_run:
  "tspec (if mo_ExtMountDir opts \<noteq> [] then unmountAndDelete st (mo_ExtMountDir opts) else ret None)
     (\<lambda>o1 t. o1 \<noteq> Panic \<and> (\<forall>x\<in>set t. preparing x) \<and> (\<forall>u b. opened (t @ u) b = opened u b))"
  by (auto simp: opened_removed intro!: tspec_ret tspec_mono [OF unmountAndDelete_run])

lemma unmount_remembered_run:
  "tspec (if b_Args b \<noteq> None then
      (let dir = mget (b_Args b) ''MOUNT_DIR''
       in if dir \<noteq> [] \<and> dir \<noteq> mo_ExtMountDir opts then unmountAndDelete st dir else ret None)
    else ret None)
   (\<lambda>o1 t. \<exists>err0. o1 = Ret err0 \<and> (\<forall>x\<in>set t. preparing x) \<and> (\<forall>u b. opened (u @ t) b = opened u b) \<and>
     (case remembered_dir opts b of None \<Rightarrow> err0 = None
      | Some dir \<Rightarrow> (\<exists>r. ERemove dir r \<in> set t \<and> err0 = removal_error r)))"
proof (cases "remembered_dir opts b")
  case None
  then show ?thesis by (auto simp: remembered_dir_def Let_def split: if_splits intro!: tspec_ret)
next
  case (Some dir)
  then have "b_Args b \<noteq> None" and d: "dir = mget (b_Args b) ''MOUNT_DIR''" "dir \<noteq> []" "dir \<noteq> mo_ExtMountDir opts"
    using mget_nonempty_nonnil [of "b_Args b" "''MOUNT_DIR''"]
    by (auto simp: remembered_dir_def Let_def split: if_splits)
  then show ?thesis unfolding Let_def d(1) [symmetric] using Some
    by (auto simp: opened_removed intro!: tspec_mono [OF unmountAndDelete_run])
qed

lemma Unmount_run:
  assumes "runs_operation retry"
  shows "tspec (Unmount st retry opts) (unmount_run opts)"
proof -
  have early: "unmount_run opts (Ret ([], False, Some e)) []" for e
    by (simp add: unmount_run_def opened_def)
  show ?thesis
    unfolding Unmount_def
  proof (intro tspec_option tspec_if tspec_sum, goal_cases)
    case (3 name)
    show ?case
    proof (rule tspec_bind [OF unmount_given_run], rule tspec_bind [OF open_container_run], goal_cases)
      case (1 _ t r u)
      note t = 1(1) and u = 1(2)
      show ?case
      proof (cases r)
        case (Inl e)
        with t u show ?thesis by (auto simp: unmount_run_def intro!: tspec_ret)
      next
        case (Inr b)
        have "tspec (bind (if b_Args b \<noteq> None then
              (let dir = mget (b_Args b) ''MOUNT_DIR''
               in if dir \<noteq> [] \<and> dir \<noteq> mo_ExtMountDir opts then unmountAndDelete st dir else ret None)
            else ret None) (\<lambda>err.
            deferred (unmount_commit st retry opts b err)
              (\<lambda>(imageID, newImage, err). bind (delete_container st b) (\<lambda>e.
                 ret (imageID, newImage, first_error err e)))
              (bind (delete_container st b) (\<lambda>_. ret ()))))
          (\<lambda>o1 v. unmount_run opts o1 (t @ u @ v))"
        proof (rule tspec_bind [OF unmount_remembered_run], goal_cases)
          case (1 err0 v)
          have "tspec (deferred (unmount_commit st retry opts b err0)
              (\<lambda>(imageID, newImage, err). bind (delete_container st b) (\<lambda>e.
                 ret (imageID, newImage, first_error err e)))
              (bind (delete_container st b) (\<lambda>_. ret ())))
            (\<lambda>o1 w. unmount_found opts o1 ((t @ u @ v) @ w) b)"
            by (rule unmount_deferred_run [OF assms]) (use t u 1 Inr in \<open>auto split: option.splits\<close>)
          then show ?case by (rule tspec_mono) (auto simp: unmount_run_def)
        qed simp
        with Inr show ?thesis by simp
      qed
    qed auto
  qed (simp_all add: tspec_ret early)
qed

section \<open>Properties\<close>

text \<open>
  C17. A mount is all or nothing.  If it succeeds, the container it created is mounted, and bound to the
  directory that was asked for, which it created and which the container remembers; nothing is taken
  back.  If it fails, a container it created has been unmounted and deleted and, last of all, a
  directory it created has been removed.  It panics only on an image reference without a Docker name,
  before it has done anything.
\<close>
theorem Mount_all_or_nothing:
  "all_or_nothing st opts (local_result (Mount st opts) w) (local_trace (Mount st opts) w)"
  by (rule tspec_local [OF Mount_run])

text \<open>
  C18. A container that an unmount has found is unmounted, and at the end it is deleted, whatever fails on
  the way and even if the rest panics, unless the context has been cancelled.
\<close>
theorem Unmount_releases_container:
  assumes "runs_operation retry" and "opened (local_trace (Unmount st retry opts) w) b"
  shows "\<exists>u e c v. local_trace (Unmount st retry opts) w = u @ ECancelled c # v
    \<and> EUnmountBuilder b e \<in> set u \<and> (if c then v = [] else \<exists>e'. v = [EDeleteBuilder b e'])"
proof -
  from tspec_local [OF Unmount_run [OF assms(1), where st = st and opts = opts], where w = w] assms(2) obtain b'
    where "unmount_found opts (local_result (Unmount st retry opts) w) (local_trace (Unmount st retry opts) w) b'"
    unfolding unmount_run_def by blast
  then obtain pre err0 o2 u c v where t: "local_trace (Unmount st retry opts) w = pre @ u @ ECancelled c # v"
    and pre: "\<forall>b. opened pre b \<longleftrightarrow> b = b'" and u: "unmount_ok opts b' err0 o2 u"
    and v: "if c then v = [] else \<exists>e. v = [EDeleteBuilder b' e]"
    unfolding unmount_found_def by (auto split: if_splits)
  from u obtain e u' where u': "u = EUnmountBuilder b' e # u'" "\<forall>x\<in>set u'. publishing b' x"
    unfolding unmount_ok_def published_def by blast
  from u'(2) have "\<not> opened u' b" unfolding opened_def by fastforce
  with assms(2) t u' v have "opened pre b" by (auto simp: opened_def split: if_splits)
  with pre have "b = b'" by blast
  with t u' v show ?thesis by (intro exI [of _ "pre @ u"] exI [of _ e] exI [of _ c] exI [of _ v]) auto
qed


section \<open>An example\<close>

text \<open>
  A storage in which every call succeeds, except that the mount directory cannot be removed if
  \<open>busy\<close> is set; the container remembers the directory it was mounted at and has changes.
\<close>
definition example_builder :: builder where
  "example_builder = \<lparr>b_ContainerID = ''c1'', b_FromImageID = ''i1'', b_MountLabel = [],
     b_Args = Some [''MOUNT_DIR'' \<mapsto> ''/mnt/v'']\<rparr>"

definition example_storage :: "bool \<Rightarrow> (string, unit) storage" where
  "example_storage busy = \<lparr>st_ParseImageName = \<lambda>n w. (Inr n, w), st_ParseStoreReference = \<lambda>n w. (Inr n, w),
     st_DockerReference = Some, st_NewBuilder = \<lambda>_ _ _ w. (Inr example_builder, w),
     st_OpenBuilder = \<lambda>_ w. (Inr example_builder, w), st_OpenBuilderByPath = \<lambda>_ w. (Inr example_builder, w),
     st_MountBuilder = \<lambda>_ w. (Inr ''/var/c1'', w), st_SaveBuilder = \<lambda>_ w. (None, w),
     st_UnmountBuilder = \<lambda>_ w. (None, w), st_DeleteBuilder = \<lambda>_ w. (None, w),
     st_CommitBuilder = \<lambda>_ _ w. (Inr (''i2'', ''ref''), w),
     st_Container = \<lambda>_ w. (Inr \<lparr>ci_LayerID = ''l1'', ci_ImageID = ''i1''\<rparr>, w), st_Changes = \<lambda>_ w. (Inr [''/f''], w),
     st_NewPolicyContext = \<lambda>w. (None, w), st_NewStoreReference = \<lambda>_ n w. (Inr n, w), st_CopyImage = \<lambda>_ _ w. (None, w),
     st_Mkdir = \<lambda>_ w. (None, w), st_Remove = \<lambda>_ w. (if busy then NotRemoved (Errorf ''device or resource busy'' []) else Removed, w),
     st_Mount = \<lambda>_ _ w. (None, w), st_Unmount = \<lambda>_ w. (None, w), st_Cancelled = \<lambda>w. (False, w)\<rparr>"

definition example_options :: mount_options where
  "example_options = \<lparr>mo_Image = ''registry/img'', mo_ContainerName = ''v'', mo_ExtMountDir = ''/mnt/v'', mo_Commit = True,
     mo_CacheName = ''cache'', mo_CacheNamespace = ''ns''\<rparr>"

lemma runs_once: "runs_operation (\<lambda>m. m)"
  unfolding runs_operation_def by (intro allI impI, erule tspec_mono) (rule exI [of _ "[]"], simp)

lemma example_unmount:
  "\<exists>t. Unmount (example_storage busy) (\<lambda>m. m) example_options (start ()) =
      (Ret (''i2'', True, None), \<lparr>world = (), trace = t\<rparr>)
    \<and> opened t example_builder \<and> (\<exists>r. ECommitBuilder example_builder r (Inr (''i2'', ''ref'')) \<in> set t)
    \<and> ERemove ''/mnt/v'' (if busy then NotRemoved (Errorf ''device or resource busy'' []) else Removed) \<in> set t"
  by (simp add: Unmount_def validate_def containerName_def example_options_def IsAbs_def HasPrefix_def
      unmountAndDelete_def unmount_def open_container_def example_builder_def example_storage_def mget_Some
      unmount_commit_def publish_def storeImageRef_def imageRef_def commit_and_push_def commit_def docker_name_def
      pushImage_def delete_container_def deferred_def bind_def call_def ret_def start_def Let_def opened_def)

lemma example_unmount_local:
  obtains t where "local_trace (Unmount (example_storage busy) (\<lambda>m. m) example_options) () = t"
    and "local_result (Unmount (example_storage busy) (\<lambda>m. m) example_options) () = Ret (''i2'', True, None)"
    and "opened t example_builder" and "\<exists>r. ECommitBuilder example_builder r (Inr (''i2'', ''ref'')) \<in> set t"
    and "ERemove ''/mnt/v'' (if busy then NotRemoved (Errorf ''device or resource busy'' []) else Removed) \<in> set t"
proof -
  from example_unmount [of busy] obtain t
    where t: "Unmount (example_storage busy) (\<lambda>m. m) example_options (start ()) = (Ret (''i2'', True, None), \<lparr>world = (), trace = t\<rparr>)"
      "opened t example_builder" "\<exists>r. ECommitBuilder example_builder r (Inr (''i2'', ''ref'')) \<in> set t"
      "ERemove ''/mnt/v'' (if busy then NotRemoved (Errorf ''device or resource busy'' []) else Removed) \<in> set t"
    by blast
  show thesis by (rule that [of t]) (use t in \<open>simp_all only: local_trace_def local_result_def snd_conv fst_conv sys.select_convs\<close>)
qed

theorem Unmount_releases_container_witness:
  "\<exists>e. EDeleteBuilder example_builder e \<in> set (local_trace (Unmount (example_storage False) (\<lambda>m. m) example_options) ())
     \<or> ECancelled True \<in> set (local_trace (Unmount (example_storage False) (\<lambda>m. m) example_options) ())"
proof (rule example_unmount_local [of False])
  fix t
  assume t: "local_trace (Unmount (example_storage False) (\<lambda>m. m) example_options) () = t"
    and "opened t example_builder"
  then have "opened (local_trace (Unmount (example_storage False) (\<lambda>m. m) example_options) ()) example_builder" by simp
  from Unmount_releases_container [OF runs_once this] show ?thesis by (auto split: if_splits)
qed


text \<open>
  The error of removing the directory that was given is lost: the next assignment to the variable
  overwrites it, and the content is committed and pushed as if the directory had been released.
\<close>
lemma removal_error_lost:
  "ERemove ''/mnt/v'' (NotRemoved (Errorf ''device or resource busy'' []))
     \<in> set (local_trace (Unmount (example_storage True) (\<lambda>m. m) example_options) ())"
  "local_result (Unmount (example_storage True) (\<lambda>m. m) example_options) () = Ret (''i2'', True, None)"
  using example_unmount_local [of True] by (metis (full_types))+

end
