(* ===== verification/SyncedStore.thy ===== *)
theory SyncedStore
  imports CacheUpdates LayerfsStore
begin

text \<open>
  \<^verbatim>\<open>internal/ksync/syncedstore.go\<close>: a cache store that registers its volumes in the cluster.  It embeds
  any \<^verbatim>\<open>layerfs.Store\<close> (the record \<open>store\<close>; \<open>local_store\<close> is the one of \<open>LayerfsStore\<close>).  Its trace has the calls
  of both sides (\<open>relabel\<close>).
\<close>

datatype 'r sync_entry = Cluster entry | Local "'r local_entry"

record ('r, 'w) store =
  sm_Mount :: "mount_options \<Rightarrow> ('r, 'w, string \<times> go_error option) local_prog"
  sm_Unmount :: "mount_options \<Rightarrow> ('r, 'w, string \<times> bool \<times> go_error option) local_prog"

definition local_store :: "('r, 'w) storage \<Rightarrow> ('r, 'w) local_retry \<Rightarrow> ('r, 'w) store" where
  "local_store st retry = \<lparr>sm_Mount = Mount st, sm_Unmount = Unmount st retry\<rparr>"

text \<open>
  The store: the embedded store, the updater (its client and \<^verbatim>\<open>RetryOnConflict\<close>) and the node.  \<open>clock k\<close>
  has the clock readings of the \<open>k\<close>-th update of an operation.
\<close>
record ('r, 'w) synchronized_store =
  ss_Store :: "('r, 'w) store"
  ss_client :: "'w client"
  ss_retry :: "'w retry"
  ss_nodeName :: string

definition Synchronized :: "('r, 'w) store \<Rightarrow> 'w client \<Rightarrow> 'w retry \<Rightarrow> string \<Rightarrow> ('r, 'w) synchronized_store" where
  "Synchronized store client retry nodeName =
     \<lparr>ss_Store = store, ss_client = client, ss_retry = retry, ss_nodeName = nodeName\<rparr>"

definition cache_of :: "mount_options \<Rightarrow> nsname" where
  "cache_of opts = \<lparr>nn_Name = mo_CacheName opts, nn_Namespace = mo_CacheNamespace opts\<rparr>"

definition no_cache_name :: go_error where
  "no_cache_name = Errorf ''no cache name or namespace provided'' []"

text \<open>The deferred function of \<^verbatim>\<open>Mount\<close>.\<close>
definition unregister_on_error :: "('r, 'w) synchronized_store \<Rightarrow> (nat \<Rightarrow> readings) \<Rightarrow> mount_options \<Rightarrow>
    string \<times> go_error option \<Rightarrow> ('w, 'r sync_entry, string \<times> go_error option) go" where
  "unregister_on_error s clock opts r =
     (case r of (dir, err) \<Rightarrow>
        if err \<noteq> None then
          bind (relabel Cluster (UnregisterCacheVolume (ss_retry s) (ss_client s) clock (cache_of opts)
                  (ss_nodeName s) (mo_ContainerName opts) err)) (\<lambda>_. ret r)
        else ret r)"

definition sync_Mount :: "('r, 'w) synchronized_store \<Rightarrow> (nat \<Rightarrow> nat \<Rightarrow> readings) \<Rightarrow> mount_options \<Rightarrow>
    ('w, 'r sync_entry, string \<times> go_error option) go" where
  "sync_Mount s clock opts =
     (if mo_CacheName opts = [] \<or> mo_CacheNamespace opts = [] then ret ([], Some no_cache_name)
      else
        bind (relabel Cluster (RegisterCacheVolume (ss_retry s) (ss_client s) (clock 0) (cache_of opts)
                (ss_nodeName s) (mo_ContainerName opts) (mo_Image opts) True)) (\<lambda>(img, err).
        case err of
          Some err \<Rightarrow> ret ([], Some err)
        | None \<Rightarrow>
            deferred (relabel Local (sm_Mount (ss_Store s) (opts\<lparr>mo_Image := img\<rparr>)))
              (unregister_on_error s (clock 1) opts) (ret ())))"

text \<open>The deferred function of \<^verbatim>\<open>Unmount\<close>: the error becomes that of the unregistration.\<close>
definition unregister_unmounted :: "('r, 'w) synchronized_store \<Rightarrow> (nat \<Rightarrow> readings) \<Rightarrow> mount_options \<Rightarrow>
    go_error option \<Rightarrow> ('w, 'r sync_entry, go_error option) go" where
  "unregister_unmounted s clock opts err =
     relabel Cluster (UnregisterCacheVolume (ss_retry s) (ss_client s) clock (cache_of opts)
       (ss_nodeName s) (mo_ContainerName opts) (wrap ''unmount'' [] err))"

definition sync_Unmount :: "('r, 'w) synchronized_store \<Rightarrow> (nat \<Rightarrow> nat \<Rightarrow> readings) \<Rightarrow> mount_options \<Rightarrow>
    ('w, 'r sync_entry, string \<times> bool \<times> go_error option) go" where
  "sync_Unmount s clock opts =
     (if mo_CacheName opts = [] \<or> mo_CacheNamespace opts = [] then ret ([], False, Some no_cache_name)
      else
        bind (relabel Cluster (PrepareCommit (ss_retry s) (ss_client s) (clock 0) (cache_of opts)
                (ss_nodeName s) (mo_ContainerName opts))) (\<lambda>(_, syncErr).
        deferred
          (bind (relabel Local (sm_Unmount (ss_Store s) opts)) (\<lambda>(imageID, newImage, err).
           ret (imageID, newImage, if err = None then syncErr else err)))
          (\<lambda>(imageID, newImage, err).
             bind (unregister_unmounted s (clock 1) opts err) (\<lambda>err. ret (imageID, newImage, err)))
          (bind (unregister_unmounted s (clock 1) opts None) (\<lambda>_. ret ()))))"

section \<open>The contract of a mount\<close>

text \<open>
  What callers of \<^verbatim>\<open>layerfs.Store\<close> rely on, whatever store it is: a mount that succeeds has made a
  container, mounted it at the directory it returns and undone nothing; after any other outcome every container that was
  made has been discarded.
\<close>
definition nothing_left :: "'r local_entry list \<Rightarrow> bool" where
  "nothing_left t \<longleftrightarrow> {b. made t b} \<subseteq> {b. discarded b t}"

definition mounted_at :: "mount_options \<Rightarrow> string \<Rightarrow> 'r local_entry list \<Rightarrow> bool" where
  "mounted_at opts dir t \<longleftrightarrow> (\<exists>b. made t b \<and> mounts opts b dir t) \<and> list_all (\<lambda>x. \<not> undoing x) t"

definition mount_clean :: "mount_options \<Rightarrow> (string \<times> go_error option) outcome \<Rightarrow> 'r local_entry list \<Rightarrow> bool" where
  "mount_clean opts r t \<longleftrightarrow>
     (case r of
        Panic \<Rightarrow> nothing_left t
      | Ret (dir, err) \<Rightarrow> if err = None then mounted_at opts dir t else nothing_left t)"

text \<open>The calls of the embedded store.\<close>
fun local_part :: "'r sync_entry \<Rightarrow> 'r local_entry option" where
  "local_part (Local e) = Some e"
| "local_part (Cluster _) = None"

lemma map_filter_map: "List.map_filter g (map f t) = List.map_filter (g \<circ> f) t"
  by (induction t) (auto simp: List.map_filter_simps split: option.splits)

lemma map_filter_append: "List.map_filter g (t @ u) = List.map_filter g t @ List.map_filter g u"
  by (simp add: List.map_filter_def)

lemma map_filter_Some [simp]: "List.map_filter Some t = t"
  by (simp add: List.map_filter_def)

lemma map_filter_none: "(\<And>x. x \<in> set t \<Longrightarrow> g x = None) \<Longrightarrow> List.map_filter g t = []"
  by (induction t) (auto simp: List.map_filter_simps)

lemma nothing_left_Nil [simp]: "nothing_left []"
  by (simp add: nothing_left_def made_def)

lemma mounted_at_image [simp]: "mounted_at (opts\<lparr>mo_Image := img\<rparr>) = mounted_at opts"
  by (simp add: mounted_at_def mounts_def fun_eq_iff)

lemma mount_clean_simps [simp]:
  "mount_clean opts (Ret (dir, None)) t = mounted_at opts dir t"
  "mount_clean opts (Ret (dir, Some e)) t = nothing_left t"
  "mount_clean opts Panic t = nothing_left t"
  "mount_clean (opts\<lparr>mo_Image := img\<rparr>) = mount_clean opts"
  by (auto simp: mount_clean_def fun_eq_iff split: outcome.splits)

locale mount_contract =
  fixes mnt :: "mount_options \<Rightarrow> ('w, 'e, string \<times> go_error option) go"
    and local_of :: "'e \<Rightarrow> 'r local_entry option"
  assumes contract: "tspec (mnt opts) (\<lambda>r t. mount_clean opts r (List.map_filter local_of t))"
begin

text \<open>The contract does not depend on the trace the calls are recorded in.\<close>
lemma relabelled:
  assumes "g \<circ> f = local_of"
  shows "tspec (relabel f (mnt opts)) (\<lambda>r t. mount_clean opts r (List.map_filter g t))"
proof (rule tspec_relabel)
  fix w
  from tspec_start [OF contract, of opts w] assms
  show "mount_clean opts (fst (mnt opts (start w))) (List.map_filter g (map f (trace (snd (mnt opts (start w))))))"
    by (simp add: map_filter_map)
qed

end

lemma all_or_nothing_clean: "all_or_nothing st opts r t \<Longrightarrow> mount_clean opts r t"
proof (cases r)
  case (Ret x)
  moreover assume "all_or_nothing st opts r t"
  ultimately show ?thesis
    by (cases x, cases "snd x") (auto simp: all_or_nothing_def nothing_left_def mounted_at_def list_all_iff)
qed (auto simp: all_or_nothing_def nothing_left_def made_def)

interpretation loc: mount_contract "Mount st" Some for st
  by unfold_locales (use Mount_run in \<open>auto intro: tspec_mono all_or_nothing_clean\<close>)

text \<open>The contract of the embedded store gives that of the synchronized store.\<close>
locale embedded_store = mount_contract "sm_Mount (ss_Store s)" Some for s :: "('r, 'w) synchronized_store"
begin

lemma synced_contract: "tspec (sync_Mount s clock opts) (\<lambda>r t. mount_clean opts r (List.map_filter local_part t))"
proof -
  have cluster: "tspec (relabel Cluster m) (\<lambda>r t. List.map_filter local_part t = [])" for m :: "('w, 'b) prog"
    by (rule tspec_relabel) (rule map_filter_none, auto)
  have "tspec (unregister_on_error s ck opts (dir, err)) (\<lambda>r t. mount_clean opts r (u @ List.map_filter local_part t))"
    if "mount_clean opts (Ret (dir, err)) u" for ck dir err u
    unfolding unregister_on_error_def using that
    by (cases err) (auto intro!: tspec_ret tspec_bind [OF cluster] simp: map_filter_append)
  then show ?thesis
    unfolding sync_Mount_def
    by (intro tspec_if tspec_bind [OF cluster] tspec_prod tspec_option tspec_deferred [OF relabelled [where g = local_part]])
      (auto intro!: tspec_ret simp: map_filter_append fun_eq_iff)
qed

end

sublocale embedded_store \<subseteq> synced: mount_contract "sync_Mount s clock" local_part for clock
  by unfold_locales (rule synced_contract)

interpretation syn: embedded_store "Synchronized (local_store st retry) c rc node" for st retry c rc node
  by unfold_locales (use loc.contract in \<open>simp add: Synchronized_def local_store_def\<close>)

section \<open>Both sides of an operation\<close>

text \<open>An update that was not disturbed too often.\<close>
lemma update_settled:
  assumes "retries_on_conflict retry" "optimistic c n hist" "available c n hist"
    and "\<And>rd cache x. ca_meta (fst (modify rd cache x)) = ca_meta cache" "hist (world s) \<noteq> []"
  obtains err x' s' where "updateCache retry c clock n create modify x s = (Ret (err, x'), s')"
    and "prefix (hist (world s)) (hist (world s'))"
    and "length (hist (world s')) < length (hist (world s)) + 10 \<Longrightarrow>
      err = None \<and> (\<exists>k x0. atomic_step hist (world s) (world s') (\<lambda>d. modify (clock k) d x0) x')"
proof (rule updateCache_run [OF assms(1,2), where modify = modify and clock = clock and create = create and x = x and s = s])
  fix err x' s'
  assume u: "updateCache retry c clock n create modify x s = (Ret (err, x'), s')"
    and p: "prefix (hist (world s)) (hist (world s'))"
    and a: "err = None \<Longrightarrow> \<exists>k x0. atomic_step hist (world s) (world s') (\<lambda>d. modify (clock k) d x0) x'"
  from updateCache_available [OF assms(1-3) _ assms(5), where modify = modify and clock = clock and create = create and x = x]
    assms(4) u
  have "err = None \<or> length (hist (world s)) + 10 \<le> length (hist (world s'))"
    by (metis Pair_inject outcome.inject)
  with that [OF u p] a show thesis by auto
qed (rule assms(4))

text \<open>What the store needs of the embedded one: it returns, and it leaves the caches of the cluster alone.\<close>
definition local_unmount_ok :: "('r, 'w) store \<Rightarrow> ('w \<Rightarrow> cache list) \<Rightarrow> mount_options \<Rightarrow> bool" where
  "local_unmount_ok st hist opts \<longleftrightarrow>
     (\<forall>w. \<exists>r s1. sm_Unmount st opts (start w) = (Ret r, s1) \<and> prefix (hist w) (hist (world s1)))"

text \<open>The version an unregistration leaves.\<close>
lemma unregistered_version:
  assumes "atomic_step hist w w' (\<lambda>d. unregister_volume node vol (wrap ''unmount'' [] err) rd d x0) x"
  shows "\<exists>v\<in>set (hist w'). \<not> listed v node vol \<and>
    (\<forall>e. err = Some e \<longrightarrow> (\<exists>n\<in>set (cst_Nodes (ca_status v)). ns_Name n = node
       \<and> map_option ve_Error (ns_LastError n) = Some (error_string (Wrapped ''unmount'' [] e))))"
proof -
  let ?unreg = "unregister_volume node vol (wrap ''unmount'' [] err) rd"
  obtain h v where h: "prefix (h @ [v]) (hist w')" "ca_status v = ca_status (fst (?unreg (last h) x0))"
    using assms unfolding atomic_step_def by blast
  obtain d y where d: "?unreg (last h) x0 = (d, y)" and v: "ca_status v = ca_status d"
    using h(2) by (cases "?unreg (last h) x0") simp
  have "v \<in> set (hist w')" using h(1) set_mono_prefix by fastforce
  moreover have "\<not> listed v node vol"
    using unregister_volume_spec(4) [OF d, folded v] by (auto simp: listed_def)
  moreover have "\<exists>n\<in>set (cst_Nodes (ca_status v)). ns_Name n = node
      \<and> map_option ve_Error (ns_LastError n) = Some (error_string (Wrapped ''unmount'' [] e))" if "err = Some e" for e
    using unregister_volume_error [of _ _ "Wrapped ''unmount'' [] e"] d that v by fastforce
  ultimately show ?thesis by blast
qed

text \<open>
  C37. Unmounting through the cluster always succeeds as seen by the caller, as long as the cluster can
  be reached: whatever the embedded store answers, no error is returned; an error of the embedded store
  is only recorded as the last error of the node, in a version of the cache in which the volume is not
  listed any more.
\<close>
theorem sync_Unmount_hides_errors:
  assumes "retries_on_conflict (ss_retry s)" "optimistic (ss_client s) (cache_of opts) hist"
    and "available (ss_client s) (cache_of opts) hist" "local_unmount_ok (ss_Store s) hist opts"
    and "mo_CacheName opts \<noteq> []" "mo_CacheNamespace opts \<noteq> []" "hist w \<noteq> []"
    and run: "sync_Unmount s clock opts (start w) = (o1, s')"
    and few: "length (hist (world s')) < length (hist w) + 10"
  shows "\<exists>w1 s1 imageID newImage err. sm_Unmount (ss_Store s) opts (start w1) = (Ret (imageID, newImage, err), s1)
    \<and> o1 = Ret (imageID, newImage, None)
    \<and> (\<forall>e. err = Some e \<longrightarrow> (\<exists>v\<in>set (hist (world s')). \<not> listed v (ss_nodeName s) (mo_ContainerName opts)
         \<and> (\<exists>n\<in>set (cst_Nodes (ca_status v)). ns_Name n = ss_nodeName s
              \<and> map_option ve_Error (ns_LastError n) = Some (error_string (Wrapped ''unmount'' [] e)))))"
proof -
  let ?up = "\<lambda>k create modify. updateCache (ss_retry s) (ss_client s) (clock k) (cache_of opts) create modify no_capture"
  let ?prep = "prepare_commit (ss_nodeName s) (mo_ContainerName opts)"
  let ?unreg = "\<lambda>e. unregister_volume (ss_nodeName s) (mo_ContainerName opts) (wrap ''unmount'' [] e)"
  note settled = update_settled [OF assms(1-3)]
  have "hist (world (start w)) \<noteq> []" using assms(7) by simp
  then obtain err1 x1 s1 where p1: "?up 0 False ?prep (start w) = (Ret (err1, x1), s1)"
    and h1: "prefix (hist w) (hist (world s1))"
    and e1: "length (hist (world s1)) < length (hist w) + 10 \<Longrightarrow> err1 = None"
    using settled [where modify = ?prep and clock = "clock 0" and create = False and x = no_capture and s = "start w"]
      prepare_commit_meta by (metis start_simps(2))
  obtain i n err s2 where l: "sm_Unmount (ss_Store s) opts (start (world s1)) = (Ret (i, n, err), s2)"
    and h2: "prefix (hist (world s1)) (hist (world s2))"
    using assms(4) unfolding local_unmount_ok_def by (metis prod.exhaust)
  define gone where "gone \<longleftrightarrow> err1 \<noteq> None \<and> IsNotFound (the err1)"
  define se where "se = (if gone then None else wrap ''prepare cache commit'' [] err1)"
  have prep: "PrepareCommit (ss_retry s) (ss_client s) (clock 0) (cache_of opts) (ss_nodeName s)
      (mo_ContainerName opts) (start w) = (Ret (\<not> gone \<and> cap_commit x1, se), s1)"
    using p1 by (auto simp: PrepareCommit_def bind_def ret_def gone_def se_def)
  have se: "err1 = None \<Longrightarrow> se = None" by (simp add: se_def)
  let ?e = "if err = None then se else err"
  have "hist (world (start (world s2))) \<noteq> []" using assms(7) h1 h2 by auto
  then obtain err3 x3 s3 where p3: "?up 1 False (?unreg ?e) (start (world s2)) = (Ret (err3, x3), s3)"
    and h3: "prefix (hist (world s2)) (hist (world s3))"
    and e3: "length (hist (world s3)) < length (hist (world s2)) + 10 \<Longrightarrow> err3 = None \<and>
      (\<exists>k x0. atomic_step hist (world s2) (world s3) (\<lambda>d. ?unreg ?e (clock 1 k) d x0) x3)"
    using settled [where modify = "?unreg ?e" and clock = "clock 1" and create = False and x = no_capture
        and s = "start (world s2)"] modify_meta(2) by (metis start_simps(2))
  have u: "UnregisterCacheVolume (ss_retry s) (ss_client s) (clock 1) (cache_of opts) (ss_nodeName s)
      (mo_ContainerName opts) (wrap ''unmount'' [] ?e) (start (world s2)) =
    (Ret (wrap ''unregister volume %q from cluster'' [AStr (mo_ContainerName opts)]
      (if err3 \<noteq> None \<and> IsNotFound (the err3) then None else err3)), s3)"
    using p3 by (simp add: UnregisterCacheVolume_def bind_def ret_def)
  have "world s' = world s3" "o1 = Ret (i, n, wrap ''unregister volume %q from cluster'' [AStr (mo_ContainerName opts)]
      (if err3 \<noteq> None \<and> IsNotFound (the err3) then None else err3))"
    using run assms(5,6) prep l u
    by (auto simp: sync_Unmount_def bind_def ret_def deferred_def unregister_unmounted_def relabel_def)
  moreover have "length (hist (world s1)) \<le> length (hist (world s3))" "length (hist w) \<le> length (hist (world s2))"
    using h1 h2 h3 by (meson le_trans prefix_length_le)+
  ultimately have few': "length (hist (world s1)) < length (hist w) + 10" "length (hist (world s3)) < length (hist (world s2)) + 10"
    using few by auto
  then have "se = None" "err3 = None" using e1 se e3 by blast+
  then have "?e = err" by simp
  obtain k x0 where "atomic_step hist (world s2) (world s3) (\<lambda>d. ?unreg err (clock 1 k) d x0) x3"
    using e3 [OF few'(2)] unfolding \<open>?e = err\<close> by blast
  from unregistered_version [OF this] show ?thesis
    using l \<open>world s' = world s3\<close> \<open>o1 = _\<close> \<open>err3 = None\<close>
    by (intro exI [of _ "world s1"] exI [of _ s2] exI [of _ i] exI [of _ n] exI [of _ err]) auto
qed

definition failing_store :: "(string, cache list) store" where
  "failing_store = \<lparr>sm_Mount = \<lambda>_. ret ([], Some (Errorf ''mount failed'' [])),
     sm_Unmount = \<lambda>_. ret ([], False, Some (Errorf ''unmount failed'' []))\<rparr>"

definition example_synced :: "mount_options \<Rightarrow> (string, cache list) synchronized_store" where
  "example_synced opts = Synchronized failing_store (cache_client (cache_of opts)) retry_steps ''node''"

lemma failing_store_ok: "local_unmount_ok failing_store hist opts"
  by (auto simp: local_unmount_ok_def failing_store_def ret_def)

text \<open>Nobody else writes to the cache here, so the two updates add two versions.\<close>
lemma example_unmount_few:
  assumes "sync_Unmount (example_synced opts) (\<lambda>_ _. rd0) opts (start [zero_cache]) = (o1, s')"
    and "mo_CacheName opts \<noteq> []" "mo_CacheNamespace opts \<noteq> []"
  shows "length (stored (cache_of opts) (world s')) < length (stored (cache_of opts) [zero_cache]) + 10"
proof -
  let ?n = "cache_of opts"
  obtain s1 where u1: "updateCache retry_steps (cache_client ?n) (\<lambda>_. rd0) ?n False
      (prepare_commit ''node'' (mo_ContainerName opts)) no_capture (start [zero_cache]) = (Ret (None, snd
        (prepare_commit ''node'' (mo_ContainerName opts) rd0 (last (stored ?n [zero_cache])) no_capture)), s1)"
    and l1: "length (world s1) = 2"
    using single_cache_run [where n = ?n and modify = "prepare_commit ''node'' (mo_ContainerName opts)"
        and w = "[zero_cache]" and clock = "\<lambda>_. rd0" and create = False and x = no_capture] prepare_commit_meta by auto
  then have ne: "world s1 \<noteq> []" by auto
  obtain s2 where u2: "updateCache retry_steps (cache_client ?n) (\<lambda>_. rd0) ?n False
      (unregister_volume ''node'' (mo_ContainerName opts) (Some (Wrapped ''unmount'' [] (Errorf ''unmount failed'' []))))
      no_capture (start (world s1)) = (Ret (None, snd (unregister_volume ''node'' (mo_ContainerName opts)
        (Some (Wrapped ''unmount'' [] (Errorf ''unmount failed'' []))) rd0 (last (stored ?n (world s1))) no_capture)), s2)"
    and l2: "length (world s2) = 3"
    using single_cache_run [OF ne, where n = ?n and modify = "unregister_volume ''node'' (mo_ContainerName opts)
        (Some (Wrapped ''unmount'' [] (Errorf ''unmount failed'' [])))" and clock = "\<lambda>_. rd0" and create = False
        and x = no_capture] modify_meta(2) l1 by auto
  have "world s' = world s2"
    using assms u1 u2
    by (simp add: example_synced_def Synchronized_def sync_Unmount_def PrepareCommit_def UnregisterCacheVolume_def
        unregister_unmounted_def failing_store_def relabel_def deferred_def bind_def ret_def start_def) auto
  then show ?thesis using l2 by (simp add: stored_def)
qed

theorem sync_Unmount_hides_errors_witness:
  "\<exists>s' imageID newImage. sync_Unmount (example_synced example_options) (\<lambda>_ _. rd0) example_options (start [zero_cache])
     = (Ret (imageID, newImage, None), s')"
proof -
  let ?s = "example_synced example_options"
  have ss: "ss_retry ?s = retry_steps" "ss_client ?s = cache_client (cache_of example_options)"
    "ss_Store ?s = failing_store" by (simp_all add: example_synced_def Synchronized_def)
  have names: "mo_CacheName example_options \<noteq> []" "mo_CacheNamespace example_options \<noteq> []"
    by (simp_all add: example_options_def)
  obtain o1 s' where run: "sync_Unmount ?s (\<lambda>_ _. rd0) example_options (start [zero_cache]) = (o1, s')" by fastforce
  from sync_Unmount_hides_errors [of ?s example_options "stored (cache_of example_options)", unfolded ss,
      OF retry_steps single_cache_optimistic single_cache_available failing_store_ok names _ run
      example_unmount_few [OF run names]] run
  show ?thesis by auto
qed

section \<open>Mount\<close>






end
