(* ===== verification/LayerfsPrune.thy ===== *)
theory LayerfsPrune
  imports GoStd
begin

text \<open>
  \<^verbatim>\<open>internal/layerfs/prune.go\<close>: deleting the images that nothing refers to.  The image store
  (containers/storage, containers/image, buildah) is the parameter \<open>images\<close>, with image references of
  type \<open>'r\<close> and opened images of type \<open>'i\<close>; calls whose response matters are recorded in the trace.  Lines
  printed to the terminal are left out.

  Two variables that are shadowed in the code are modelled as they behave: \<open>properImageRef\<close> and
  \<open>storageImageID\<close> wrap an outer error that is always nil and therefore never return one.
\<close>

section \<open>The world outside\<close>

record simage =
  im_ID :: string
  im_Names :: "string list"
  im_TopLayer :: string
  im_ReadOnly :: bool

record layer =
  ly_ID :: string
  ly_Parent :: string

record history =
  hi_Created :: "time option"
  hi_CreatedBy :: string
  hi_Author :: string
  hi_Comment :: string
  hi_EmptyLayer :: bool

record config =
  cf_History :: "history list"
  cf_DiffIDs :: "string list"

record scontainer =
  sc_ID :: string
  sc_ImageID :: string

record ('r, 'i, 'w) images =
  pr_Images :: "'w \<Rightarrow> (go_error + simage list) \<times> 'w"
  pr_Image :: "string \<Rightarrow> 'w \<Rightarrow> (go_error + simage) \<times> 'w"
  pr_Layer :: "string \<Rightarrow> 'w \<Rightarrow> (go_error + layer) \<times> 'w"
  pr_Containers :: "'w \<Rightarrow> (go_error + scontainer list) \<times> 'w"
  pr_DeleteContainer :: "string \<Rightarrow> 'w \<Rightarrow> go_error option \<times> 'w"
  pr_DeleteImage :: "string \<Rightarrow> 'w \<Rightarrow> go_error option \<times> 'w"
  pr_SetNames :: "string \<Rightarrow> string list \<Rightarrow> 'w \<Rightarrow> go_error option \<times> 'w"
  pr_ParseImageName :: "string \<Rightarrow> 'w \<Rightarrow> (go_error + 'r) \<times> 'w"
  pr_ParseStoreReference :: "string \<Rightarrow> 'w \<Rightarrow> (go_error + 'r) \<times> 'w"
  pr_FindImage :: "string \<Rightarrow> 'w \<Rightarrow> (go_error + 'r) \<times> 'w"
  pr_NewImageSource :: "'r \<Rightarrow> 'w \<Rightarrow> go_error option \<times> 'w"
  pr_GetStoreImage :: "'r \<Rightarrow> 'w \<Rightarrow> (go_error + simage) \<times> 'w"
  pr_NewImage :: "'r \<Rightarrow> 'w \<Rightarrow> (go_error + 'i) \<times> 'w"
  pr_OCIConfig :: "'i \<Rightarrow> 'w \<Rightarrow> (go_error + config) \<times> 'w"
  pr_ImageName :: "'r \<Rightarrow> string"
  pr_ErrNotAnImage :: go_error
  pr_ErrImageUsedByContainer :: go_error

datatype prune_entry =
    PImages "go_error + simage list"
  | PImage string "go_error + simage"
  | PLayer string "go_error + layer"
  | PContainers "go_error + scontainer list"
  | PGetStoreImage "go_error + simage"
  | PConfig "go_error + config"
  | PDeleteContainer string "go_error option"
  | PDeleteImage string "go_error option"
  | PSetNames string "string list" "go_error option"
  | PReference

type_synonym ('w, 'a) prune_prog = "('w, prune_entry, 'a) go"

definition EINVAL :: go_error where
  "EINVAL = Errorf ''invalid argument'' []"

text \<open>The verb \<^verbatim>\<open>%v\<close> for a slice of strings.\<close>
definition show_strings :: "string list \<Rightarrow> string" where
  "show_strings xs = ''['' @ Join CHR '' '' xs @ '']''"

section \<open>Finding images\<close>

definition findDanglingImages :: "('r, 'i, 'w) images \<Rightarrow> ('w, go_error + string list) prune_prog" where
  "findDanglingImages st =
     bind (call (pr_Images st) PImages) (\<lambda>r.
     case r of
       Inl err \<Rightarrow> ret (Inl (Wrapped ''error reading images'' [] err))
     | Inr imgs \<Rightarrow> ret (Inr (map im_ID (filter (\<lambda>img. length (im_Names img) = 0) imgs))))"

definition properImageRef :: "('r, 'i, 'w) images \<Rightarrow> string \<Rightarrow> ('w, 'r option) prune_prog" where
  "properImageRef st id1 =
     bind (call (pr_ParseImageName st id1) (\<lambda>_. PReference)) (\<lambda>r.
     case r of
       Inl _ \<Rightarrow> ret None
     | Inr ref \<Rightarrow>
         bind (call (pr_NewImageSource st ref) (\<lambda>_. PReference)) (\<lambda>err.
         ret (if err = None then Some ref else None)))"

definition storageImageRef :: "('r, 'i, 'w) images \<Rightarrow> string \<Rightarrow> ('w, 'r option) prune_prog" where
  "storageImageRef st id1 =
     bind (call (pr_FindImage st id1) (\<lambda>_. PReference)) (\<lambda>r.
     case r of Inl _ \<Rightarrow> ret None | Inr ref \<Rightarrow> ret (Some ref))"

definition storageImageID :: "('r, 'i, 'w) images \<Rightarrow> string \<Rightarrow> ('w, 'r option) prune_prog" where
  "storageImageID st id1 =
     bind (call (pr_Image st id1) (PImage id1)) (\<lambda>r.
     let imageID = (case r of Inr img \<Rightarrow> im_ID img | Inl _ \<Rightarrow> id1)
     in bind (call (pr_ParseStoreReference st imageID) (\<lambda>_. PReference)) (\<lambda>r.
        case r of
          Inl _ \<Rightarrow> ret None
        | Inr ref \<Rightarrow>
            bind (call (pr_NewImageSource st ref) (\<lambda>_. PReference)) (\<lambda>err.
            ret (if err = None then Some ref else None))))"

text \<open>The image, and the error; both are nil if no reference could be found.\<close>
definition getImage :: "('r, 'i, 'w) images \<Rightarrow> string \<Rightarrow> ('w, simage option \<times> go_error option) prune_prog" where
  "getImage st id1 =
     bind (properImageRef st id1) (\<lambda>ref.
     bind (if ref = None then storageImageRef st id1 else ret ref) (\<lambda>ref.
     bind (if ref = None then storageImageID st id1 else ret ref) (\<lambda>ref.
     case ref of
       None \<Rightarrow> ret (None, None)
     | Some ref \<Rightarrow>
         bind (call (pr_GetStoreImage st ref) PGetStoreImage) (\<lambda>r.
         case r of
           Inl err \<Rightarrow> ret (None, Some (Wrapped ''error reading image using reference %q'' [AStr (pr_ImageName st ref)] err))
         | Inr img \<Rightarrow> ret (Some img, None)))))"

section \<open>Names\<close>

text \<open>\<open>Panic\<close>: the index 1 is out of range.\<close>
definition matchesReference :: "string \<Rightarrow> string \<Rightarrow> bool outcome" where
  "matchesReference name argName =
     (if argName = [] then Ret True
      else
        let splitName = Split CHR '':'' name
        in if ContainsChar argName CHR '':'' then
             let splitArg = Split CHR '':'' argName
             in if \<not> HasSuffix (splitName ! 0) (splitArg ! 0) then Ret False
                else if length splitName \<le> 1 then Panic
                else Ret (splitName ! 1 = splitArg ! 1)
           else Ret (HasSuffix (splitName ! 0) argName))"

fun untag_loop :: "string \<Rightarrow> string list \<Rightarrow> string list \<times> string \<Rightarrow> (string list \<times> string) outcome" where
  "untag_loop imgArg [] s = Ret s"
| "untag_loop imgArg (name # names) (newNames, removedName) =
     (case matchesReference name imgArg of
        Panic \<Rightarrow> Panic
      | Ret m \<Rightarrow> untag_loop imgArg names (if m then (newNames, name) else (newNames @ [name], removedName)))"

definition untagImage :: "('r, 'i, 'w) images \<Rightarrow> string \<Rightarrow> simage \<Rightarrow> ('w, go_error + string) prune_prog" where
  "untagImage st imgArg img =
     bind (lift (untag_loop imgArg (im_Names img) ([], []))) (\<lambda>(newNames, removedName).
     if removedName \<noteq> [] then
       bind (call (pr_SetNames st (im_ID img) newNames) (PSetNames (im_ID img) newNames)) (\<lambda>err.
       case err of
         Some err \<Rightarrow> ret (Inl (Wrapped ''error removing name %q from image %q'' [AStr removedName, AStr (im_ID img)] err))
       | None \<Rightarrow> ret (Inr removedName))
     else ret (Inr removedName))"

section \<open>Containers\<close>

definition runningContainers :: "('r, 'i, 'w) images \<Rightarrow> simage \<Rightarrow> ('w, go_error + string list) prune_prog" where
  "runningContainers st img =
     bind (call (pr_Containers st) PContainers) (\<lambda>r.
     case r of
       Inl err \<Rightarrow> ret (Inl err)
     | Inr ctrs \<Rightarrow> ret (Inr (map sc_ID (filter (\<lambda>ctr. sc_ImageID ctr = im_ID img) ctrs))))"

fun removeContainers :: "('r, 'i, 'w) images \<Rightarrow> string list \<Rightarrow> ('w, go_error option) prune_prog" where
  "removeContainers st [] = ret None"
| "removeContainers st (ctrID # ctrIDs) =
     bind (call (pr_DeleteContainer st ctrID) (PDeleteContainer ctrID)) (\<lambda>err.
     case err of
       Some err \<Rightarrow> ret (Some (Wrapped ''could not remove container %q'' [AStr ctrID] err))
     | None \<Rightarrow> removeContainers st ctrIDs)"

section \<open>Parents and children\<close>

text \<open>Without an error and without a configuration (\<^verbatim>\<open>nil, nil\<close>): the image exists but cannot be opened.\<close>
definition getImageConfig :: "('r, 'i, 'w) images \<Rightarrow> string \<Rightarrow> ('w, go_error + config option) prune_prog" where
  "getImageConfig st imageID =
     bind (call (pr_ParseStoreReference st imageID) (\<lambda>_. PReference)) (\<lambda>r.
     case r of
       Inl err \<Rightarrow> ret (Inl (Wrapped ''unable to parse reference to image %q'' [AStr imageID] err))
     | Inr ref \<Rightarrow>
         bind (call (pr_NewImage st ref) (\<lambda>_. PReference)) (\<lambda>r.
         case r of
           Inl err \<Rightarrow>
             bind (call (pr_Image st imageID) (PImage imageID)) (\<lambda>r.
             case r of
               Inr img \<Rightarrow>
                 if im_ID img = imageID then ret (Inr None)
                 else ret (Inl (Wrapped ''unable to open image %q'' [AStr imageID] err))
             | Inl _ \<Rightarrow> ret (Inl (Wrapped ''unable to open image %q'' [AStr imageID] err)))
         | Inr opened \<Rightarrow>
             bind (call (pr_OCIConfig st opened) PConfig) (\<lambda>r.
             case r of
               Inl err \<Rightarrow> ret (Inl (Wrapped ''unable to read configuration from image %q'' [AStr imageID] err))
             | Inr cf \<Rightarrow> ret (Inr (Some cf)))))"

definition entries_differ :: "history \<Rightarrow> history \<Rightarrow> bool" where
  "entries_differ a b \<longleftrightarrow>
     hi_Created a = None \<and> hi_Created b \<noteq> None \<or>
     hi_Created a \<noteq> None \<and> hi_Created b = None \<or>
     hi_Created a \<noteq> None \<and> hi_Created b \<noteq> None \<and> the (hi_Created a) \<noteq> the (hi_Created b) \<or>
     hi_CreatedBy a \<noteq> hi_CreatedBy b \<or>
     hi_Author a \<noteq> hi_Author b \<or>
     hi_Comment a \<noteq> hi_Comment b \<or>
     hi_EmptyLayer a \<noteq> hi_EmptyLayer b"

text \<open>The index at which the loop stops.\<close>
function history_loop :: "history list \<Rightarrow> history list \<Rightarrow> nat \<Rightarrow> nat" where
  "history_loop a b i =
     (if i < length a then
        if entries_differ (a ! i) (b ! i) then i else history_loop a b (i + 1)
      else i)"
  by pat_completeness auto
termination
  by (relation "measure (\<lambda>(a, b, i). length a - i)") auto

declare history_loop.simps [simp del]

definition historiesDiffer :: "history list \<Rightarrow> history list \<Rightarrow> bool" where
  "historiesDiffer a b \<longleftrightarrow> (if length a \<noteq> length b then True else history_loop a b 0 \<noteq> length a)"

definition childUsesAllParentLayers :: "config \<Rightarrow> config \<Rightarrow> bool" where
  "childUsesAllParentLayers parentConfig childConfig \<longleftrightarrow>
     (if length (cf_DiffIDs parentConfig) > 0 then
        if length (cf_DiffIDs childConfig) < length (cf_DiffIDs parentConfig) then False
        else list_all (\<lambda>i. cf_DiffIDs childConfig ! i = cf_DiffIDs parentConfig ! i)
               [0..<length (cf_DiffIDs parentConfig)]
      else True)"

definition one_step_longer :: "config \<Rightarrow> config \<Rightarrow> bool" where
  "one_step_longer parentConfig childConfig \<longleftrightarrow>
     length (cf_History parentConfig) + 1 = length (cf_History childConfig) \<and>
     \<not> historiesDiffer (cf_History parentConfig)
         (take (length (cf_History parentConfig)) (cf_History childConfig))"

text \<open>The layers do not rule the pair out.\<close>
definition on_top_of :: "simage \<Rightarrow> layer option \<Rightarrow> bool" where
  "on_top_of parent childTopLayer \<longleftrightarrow>
     (case childTopLayer of
        None \<Rightarrow> True
      | Some l \<Rightarrow> im_TopLayer parent = ly_Parent l \<or> im_TopLayer parent = ly_ID l)"

definition top_layer :: "('r, 'i, 'w) images \<Rightarrow> simage \<Rightarrow> string \<Rightarrow> ('w, go_error + layer option) prune_prog" where
  "top_layer st child fmt =
     (if im_TopLayer child \<noteq> [] then
        bind (call (pr_Layer st (im_TopLayer child)) (PLayer (im_TopLayer child))) (\<lambda>r.
        case r of
          Inl err \<Rightarrow> ret (Inl (Wrapped fmt [AStr (im_TopLayer child)] err))
        | Inr l \<Rightarrow> ret (Inr (Some l)))
      else ret (Inr None))"

fun parent_loop :: "('r, 'i, 'w) images \<Rightarrow> simage \<Rightarrow> layer option \<Rightarrow> config \<Rightarrow> simage list \<Rightarrow>
    ('w, go_error + simage option) prune_prog" where
  "parent_loop st child childTopLayer childConfig [] = ret (Inr None)"
| "parent_loop st child childTopLayer childConfig (parent # imgs) =
     (if im_ID parent = im_ID child then parent_loop st child childTopLayer childConfig imgs
      else if \<not> on_top_of parent childTopLayer then parent_loop st child childTopLayer childConfig imgs
      else
        bind (getImageConfig st (im_ID parent)) (\<lambda>r.
        case r of
          Inl err \<Rightarrow> ret (Inl (Wrapped ''unable to read configuration from image %q'' [AStr (im_ID parent)] err))
        | Inr None \<Rightarrow> parent_loop st child childTopLayer childConfig imgs
        | Inr (Some parentConfig) \<Rightarrow>
            if one_step_longer parentConfig childConfig \<and> childUsesAllParentLayers parentConfig childConfig
            then ret (Inr (Some parent))
            else parent_loop st child childTopLayer childConfig imgs))"

definition getParent :: "('r, 'i, 'w) images \<Rightarrow> simage \<Rightarrow> ('w, go_error + simage option) prune_prog" where
  "getParent st child =
     bind (call (pr_Images st) PImages) (\<lambda>r.
     case r of
       Inl err \<Rightarrow> ret (Inl (Wrapped ''unable to retrieve image list from store'' [] err))
     | Inr imgs \<Rightarrow>
         bind (top_layer st child ''unable to retrieve information about layer %s from store'') (\<lambda>r.
         case r of
           Inl err \<Rightarrow> ret (Inl err)
         | Inr childTopLayer \<Rightarrow>
             bind (getImageConfig st (im_ID child)) (\<lambda>r.
             case r of
               Inl err \<Rightarrow> ret (Inl (Wrapped ''unable to read configuration from image %q'' [AStr (im_ID child)] err))
             | Inr None \<Rightarrow> ret (Inr None)
             | Inr (Some childConfig) \<Rightarrow> parent_loop st child childTopLayer childConfig imgs)))"

fun children_loop :: "('r, 'i, 'w) images \<Rightarrow> simage \<Rightarrow> config \<Rightarrow> int \<Rightarrow> simage list \<Rightarrow> string list \<Rightarrow>
    ('w, go_error + string list) prune_prog" where
  "children_loop st parent parentConfig max1 [] children = ret (Inr children)"
| "children_loop st parent parentConfig max1 (child # imgs) children =
     (if im_ID child = im_ID parent then children_loop st parent parentConfig max1 imgs children
      else
        bind (top_layer st child ''unable to retrieve information about layer %q from store'') (\<lambda>r.
        case r of
          Inl err \<Rightarrow> ret (Inl err)
        | Inr childTopLayer \<Rightarrow>
            if \<not> on_top_of parent childTopLayer then children_loop st parent parentConfig max1 imgs children
            else
              bind (getImageConfig st (im_ID child)) (\<lambda>r.
              case r of
                Inl err \<Rightarrow> ret (Inl (Wrapped ''unable to read configuration from image %q'' [AStr (im_ID child)] err))
              | Inr None \<Rightarrow> children_loop st parent parentConfig max1 imgs children
              | Inr (Some childConfig) \<Rightarrow>
                  if \<not> one_step_longer parentConfig childConfig
                  then children_loop st parent parentConfig max1 imgs children
                  else if max1 > 0 \<and> int (length (children @ [im_ID child])) \<ge> max1
                  then ret (Inr (children @ [im_ID child]))
                  else children_loop st parent parentConfig max1 imgs (children @ [im_ID child]))))"

definition getChildren :: "('r, 'i, 'w) images \<Rightarrow> simage \<Rightarrow> int \<Rightarrow> ('w, go_error + string list) prune_prog" where
  "getChildren st parent max1 =
     bind (call (pr_Images st) PImages) (\<lambda>r.
     case r of
       Inl err \<Rightarrow> ret (Inl (Wrapped ''unable to retrieve images from store'' [] err))
     | Inr imgs \<Rightarrow>
         bind (getImageConfig st (im_ID parent)) (\<lambda>r.
         case r of
           Inl err \<Rightarrow> ret (Inl (Wrapped ''unable to read configuration from image %q'' [AStr (im_ID parent)] err))
         | Inr None \<Rightarrow> ret (Inr [])
         | Inr (Some parentConfig) \<Rightarrow> children_loop st parent parentConfig max1 imgs []))"

definition imageIsParent :: "('r, 'i, 'w) images \<Rightarrow> simage \<Rightarrow> ('w, go_error + bool) prune_prog" where
  "imageIsParent st img =
     bind (getChildren st img 1) (\<lambda>r.
     case r of
       Inl err \<Rightarrow> ret (Inl err)
     | Inr children \<Rightarrow> ret (Inr (length children > 0)))"

section \<open>Deleting\<close>

text \<open>
  The loop over the parents may run as long as there are parents.  The first argument bounds the
  number of rounds; \<open>None\<close> says that it was used up.
\<close>
fun remove_parents :: "nat \<Rightarrow> ('r, 'i, 'w) images \<Rightarrow> simage \<Rightarrow> simage option \<Rightarrow>
    ('w, (string \<times> go_error option) option) prune_prog" where
  "remove_parents fuel st img None = ret (Some (im_ID img, None))"
| "remove_parents 0 st img (Some parent) = ret None"
| "remove_parents (Suc fuel) st img (Some parent) =
     bind (getParent st parent) (\<lambda>r.
     case r of
       Inl err \<Rightarrow> ret (Some (im_ID img, Some (Wrapped ''unable to get parent from image %q'' [AStr (im_ID img)] err)))
     | Inr nextParent \<Rightarrow>
         bind (imageIsParent st parent) (\<lambda>r.
         case r of
           Inl err \<Rightarrow> ret (Some (im_ID img, Some (Wrapped ''unable to get check if image %q is a parent'' [AStr (im_ID img)] err)))
         | Inr isParent \<Rightarrow>
             if length (im_Names parent) > 0 \<or> isParent then ret (Some (im_ID img, None))
             else
               bind (call (pr_DeleteImage st (im_ID parent)) (PDeleteImage (im_ID parent))) (\<lambda>_.
               remove_parents fuel st img nextParent)))"

definition removeImage :: "nat \<Rightarrow> ('r, 'i, 'w) images \<Rightarrow> simage \<Rightarrow>
    ('w, (string \<times> go_error option) option) prune_prog" where
  "removeImage fuel st img =
     bind (getParent st img) (\<lambda>r.
     case r of
       Inl err \<Rightarrow> ret (Some ([], Some err))
     | Inr parent \<Rightarrow>
         bind (call (pr_DeleteImage st (im_ID img)) (PDeleteImage (im_ID img))) (\<lambda>err.
         case err of
           Some err \<Rightarrow> ret (Some ([], Some (Wrapped ''could not remove image %q'' [AStr (im_ID img)] err)))
         | None \<Rightarrow> remove_parents fuel st img parent))"

text \<open>From \<open>imageIsParent\<close> to the end of one round of the loop in \<open>deleteImages\<close>.\<close>
definition delete_unused :: "nat \<Rightarrow> ('r, 'i, 'w) images \<Rightarrow> bool \<Rightarrow> bool \<Rightarrow> simage \<Rightarrow> go_error option \<Rightarrow>
    ('w, go_error option option) prune_prog" where
  "delete_unused fuel st remove_all prune img lastError =
     bind (imageIsParent st img) (\<lambda>r.
     case r of
       Inl err \<Rightarrow> ret (Some (Some (Wrapped ''error determining if the image %q is a parent'' [AStr (im_ID img)] err)))
     | Inr isParent \<Rightarrow>
         if length (im_Names img) > 0 \<and> \<not> remove_all then ret (Some lastError)
         else if isParent \<and> length (im_Names img) = 0 \<and> \<not> remove_all then
           ret (Some (if \<not> prune
             then Some (Errorf ''unable to delete %q (cannot be forced) - image has dependent child images'' [AStr (im_ID img)])
             else lastError))
         else
           bind (removeImage fuel st img) (\<lambda>r.
           case r of
             None \<Rightarrow> ret None
           | Some (_, Some err) \<Rightarrow> ret (Some (Some (Wrapped ''error removing image %q'' [AStr (im_ID img)] err)))
           | Some (_, None) \<Rightarrow> ret (Some lastError)))"

text \<open>
  The names of the image: cleared if it was given by its ID, one removed otherwise.  \<open>Inl\<close> skips the rest
  of the round; otherwise the image and the last error.
\<close>
definition drop_names :: "('r, 'i, 'w) images \<Rightarrow> bool \<Rightarrow> string \<Rightarrow> simage \<Rightarrow> go_error option \<Rightarrow>
    ('w, go_error option + simage \<times> go_error option) prune_prog" where
  "drop_names st force id1 img lastError =
     (if prefix id1 (im_ID img) then
        if length (im_Names img) > 1 \<and> \<not> force
        then ret (Inl (Some (Errorf ''unable to delete %s (must force) - image is referred to in multiple tags'' [AStr (im_ID img)])))
        else ret (Inr (img\<lparr>im_Names := []\<rparr>, lastError))
      else
        bind (untagImage st id1 img) (\<lambda>r.
        case r of
          Inl err2 \<Rightarrow> ret (Inl (Some (Wrapped ''error removing tag %q from image %q'' [AStr id1, AStr (im_ID img)] err2)))
        | Inr _ \<Rightarrow>
            bind (getImage st (im_ID img)) (\<lambda>r.
            case r of
              (Some image1, None) \<Rightarrow> ret (Inr (image1, lastError))
            | (_, err) \<Rightarrow> ret (Inr (img, wrap ''error getting image after untag %q'' [AStr (im_ID img)] err)))))"

definition free_of_containers :: "('r, 'i, 'w) images \<Rightarrow> bool \<Rightarrow> string \<Rightarrow> simage \<Rightarrow>
    ('w, go_error option + unit) prune_prog" where
  "free_of_containers st force id1 img =
     bind (runningContainers st img) (\<lambda>r.
     case r of
       Inl err \<Rightarrow> ret (Inl (Some (Wrapped ''error getting running containers for image %q'' [AStr id1] err)))
     | Inr ctrIDs \<Rightarrow>
         if length ctrIDs > 0 \<and> length (im_Names img) \<le> 1 then
           if force then
             bind (removeContainers st ctrIDs) (\<lambda>err.
             case err of
               Some err \<Rightarrow> ret (Inl (Some (Wrapped ''error removing containers %v for image %q'' [AStr (show_strings ctrIDs), AStr id1] err)))
             | None \<Rightarrow> ret (Inr ()))
           else ret (Inl (Some (Wrapped ''Could not remove image %q (must force) - container %q is using its reference image'' [AStr id1, AStr (last ctrIDs)] (pr_ErrImageUsedByContainer st))))
         else ret (Inr ()))"

definition delete_image :: "nat \<Rightarrow> ('r, 'i, 'w) images \<Rightarrow> bool \<Rightarrow> bool \<Rightarrow> bool \<Rightarrow> string \<Rightarrow> go_error option \<Rightarrow>
    ('w, go_error option option) prune_prog" where
  "delete_image fuel st remove_all force prune id1 lastError =
     bind (getImage st id1) (\<lambda>r.
     case r of
       (Some img, None) \<Rightarrow>
         if im_ReadOnly img then ret (Some (Some (Wrapped ''can not remove readonly image %q'' [AStr id1] EINVAL)))
         else
           bind (free_of_containers st force id1 img) (\<lambda>r.
           case r of
             Inl err \<Rightarrow> ret (Some err)
           | Inr _ \<Rightarrow>
               bind (drop_names st force id1 img lastError) (\<lambda>r.
               case r of
                 Inl err \<Rightarrow> ret (Some err)
               | Inr (img, lastError) \<Rightarrow> delete_unused fuel st remove_all prune img lastError))
     | (_, Some err) \<Rightarrow> ret (Some (Some (Wrapped ''could not get image %q'' [AStr id1] err)))
     | (None, None) \<Rightarrow> ret (Some (Some (Wrapped ''could not get image %q'' [AStr id1] (pr_ErrNotAnImage st)))))"

fun delete_loop :: "nat \<Rightarrow> ('r, 'i, 'w) images \<Rightarrow> bool \<Rightarrow> bool \<Rightarrow> bool \<Rightarrow> string list \<Rightarrow> go_error option \<Rightarrow>
    ('w, go_error option option) prune_prog" where
  "delete_loop fuel st remove_all force prune [] lastError = ret (Some lastError)"
| "delete_loop fuel st remove_all force prune (id1 # ids) lastError =
     bind (delete_image fuel st remove_all force prune id1 lastError) (\<lambda>r.
     case r of
       None \<Rightarrow> ret None
     | Some lastError \<Rightarrow> delete_loop fuel st remove_all force prune ids lastError)"

definition deleteImages :: "nat \<Rightarrow> ('r, 'i, 'w) images \<Rightarrow> string list \<Rightarrow> bool \<Rightarrow> bool \<Rightarrow> bool \<Rightarrow>
    ('w, go_error option option) prune_prog" where
  "deleteImages fuel st imagesToDelete remove_all force prune =
     delete_loop fuel st remove_all force prune imagesToDelete None"

definition Prune :: "nat \<Rightarrow> ('r, 'i, 'w) images \<Rightarrow> ('w, go_error option option) prune_prog" where
  "Prune fuel st =
     bind (findDanglingImages st) (\<lambda>r.
     case r of
       Inl err \<Rightarrow> ret (Some (Some err))
     | Inr imagesToDelete \<Rightarrow> deleteImages fuel st imagesToDelete False False True)"

section \<open>Specifications\<close>

text \<open>
  At the world \<open>w\<close> the store answers every question without an error: it lists the images \<open>imgs\<close>, the
  layers are \<open>lay\<close> and the configurations \<open>cfg\<close> (\<open>None\<close>: an image that cannot be opened).
\<close>
definition reads :: "('r, 'i, 'w) images \<Rightarrow> 'w \<Rightarrow> simage list \<Rightarrow> (string \<Rightarrow> layer) \<Rightarrow> (string \<Rightarrow> config option) \<Rightarrow> bool" where
  "reads st w imgs lay cfg \<longleftrightarrow>
     pr_Images st w = (Inr imgs, w) \<and>
     (\<forall>l. pr_Layer st l w = (Inr (lay l), w)) \<and>
     (\<forall>i. \<exists>ref. pr_ParseStoreReference st i w = (Inr ref, w) \<and>
        (case cfg i of
           Some c \<Rightarrow> \<exists>opened. pr_NewImage st ref w = (Inr opened, w) \<and> pr_OCIConfig st opened w = (Inr c, w)
         | None \<Rightarrow> \<exists>err img. pr_NewImage st ref w = (Inl err, w) \<and> pr_Image st i w = (Inr img, w) \<and> im_ID img = i))"

text \<open>The image \<open>child\<close> was built from the image \<open>parent\<close> by one more step.\<close>
definition built_from :: "(string \<Rightarrow> layer) \<Rightarrow> (string \<Rightarrow> config option) \<Rightarrow> simage \<Rightarrow> simage \<Rightarrow> bool" where
  "built_from lay cfg child parent \<longleftrightarrow>
     im_ID child \<noteq> im_ID parent \<and>
     (im_TopLayer child \<noteq> [] \<longrightarrow>
        im_TopLayer parent \<in> {ly_Parent (lay (im_TopLayer child)), ly_ID (lay (im_TopLayer child))}) \<and>
     (case (cfg (im_ID child), cfg (im_ID parent)) of
        (Some cc, Some pc) \<Rightarrow> (\<exists>h. cf_History cc = cf_History pc @ [h])
      | _ \<Rightarrow> False)"


text \<open>A read-only run: the result, the world as it was, and nothing deleted.\<close>
definition yields :: "'w \<Rightarrow> ('w, 'a) prune_prog \<Rightarrow> 'a \<Rightarrow> bool" where
  "yields w m a \<longleftrightarrow>
     (\<forall>s. world s = w \<longrightarrow>
        (\<exists>t. m s = (Ret a, s\<lparr>trace := trace s @ t\<rparr>) \<and> (\<forall>i e. PDeleteImage i e \<notin> set t)))"

text \<open>
  What is known of an image when it is deleted: it was read by its ID, is not read-only, has at most one
  name and no container; or it was read and has no names (read again after a name was removed); or it is
  listed without names.
\<close>
definition unreferenced :: "prune_entry list \<Rightarrow> string \<Rightarrow> bool" where
  "unreferenced t i \<longleftrightarrow>
     (\<exists>img ctrs. PGetStoreImage (Inr img) \<in> set t \<and> im_ID img = i \<and> \<not> im_ReadOnly img \<and> length (im_Names img) \<le> 1 \<and>
        PContainers (Inr ctrs) \<in> set t \<and> (\<forall>ctr \<in> set ctrs. sc_ImageID ctr \<noteq> i)) \<or>
     (\<exists>img. PGetStoreImage (Inr img) \<in> set t \<and> im_ID img = i \<and> im_Names img = []) \<or>
     (\<exists>imgs img. PImages (Inr imgs) \<in> set t \<and> img \<in> set imgs \<and> im_ID img = i \<and> im_Names img = [])"

text \<open>Every deletion among the entries \<open>t\<close>, which follow \<open>pre\<close>, is preceded by that knowledge.\<close>
definition justified :: "prune_entry list \<Rightarrow> prune_entry list \<Rightarrow> bool" where
  "justified pre t \<longleftrightarrow> (\<forall>u i e v. t = u @ PDeleteImage i e # v \<longrightarrow> unreferenced (pre @ u) i)"

text \<open>
  The configuration of an image never changes: an image's ID is made from its content.  \<open>len\<close> is the
  length of the history.
\<close>
definition stable_histories :: "('r, 'i, 'w) images \<Rightarrow> (string \<Rightarrow> nat) \<Rightarrow> bool" where
  "stable_histories st len \<longleftrightarrow>
     (\<forall>i ref opened c w w1 w2 w3 w4 w5.
        pr_ParseStoreReference st i w = (Inr ref, w1) \<longrightarrow> pr_NewImage st ref w2 = (Inr opened, w3) \<longrightarrow>
        pr_OCIConfig st opened w4 = (Inr c, w5) \<longrightarrow> length (cf_History c) = len i)"

text \<open>With more fuel the program does the same, unless it had run out.\<close>
definition more_fuel :: "('w, 'a option) prune_prog \<Rightarrow> ('w, 'a option) prune_prog \<Rightarrow> bool" where
  "more_fuel m m' \<longleftrightarrow> (\<forall>s. fst (m s) \<noteq> Ret None \<longrightarrow> m' s = m s)"

section \<open>Comparing histories\<close>

lemma entries_differ_iff [simp]: "entries_differ a b \<longleftrightarrow> a \<noteq> b"
  by (cases a; cases b) (auto simp: entries_differ_def)

lemma history_loop_full:
  "length a = length b \<Longrightarrow> i \<le> length a \<Longrightarrow> history_loop a b i = length a \<longleftrightarrow> drop i a = drop i b"
proof (induction a b i rule: history_loop.induct)
  case (1 a b i)
  show ?case
  proof (cases "i < length a")
    case True
    then have "drop i a = a ! i # drop (i + 1) a" "drop i b = b ! i # drop (i + 1) b"
      using 1(2) by (simp_all add: Cons_nth_drop_Suc)
    with 1 True show ?thesis by (subst history_loop.simps) auto
  next
    case False
    with 1 show ?thesis by (subst history_loop.simps) auto
  qed
qed

lemma historiesDiffer_neq [simp]: "historiesDiffer a b \<longleftrightarrow> a \<noteq> b"
  using history_loop_full [of a b 0] by (auto simp: historiesDiffer_def)

text \<open>
  The index loop of \<open>historiesDiffer\<close>, with its seven ways out, decides exactly whether the two
  histories are different lists.
\<close>
theorem historiesDiffer_is_disequality: "historiesDiffer a b \<longleftrightarrow> a \<noteq> b"
  by (rule historiesDiffer_neq)

lemma one_step_longer_iff: "one_step_longer pc cc \<longleftrightarrow> (\<exists>h. cf_History cc = cf_History pc @ [h])"
proof
  assume l: "one_step_longer pc cc"
  then have "cf_History cc = cf_History pc @ drop (length (cf_History pc)) (cf_History cc)"
    by (metis append_take_drop_id historiesDiffer_neq one_step_longer_def)
  moreover have "length (drop (length (cf_History pc)) (cf_History cc)) = 1"
    using l by (auto simp: one_step_longer_def)
  ultimately show "\<exists>h. cf_History cc = cf_History pc @ [h]"
    by (metis One_nat_def length_0_conv length_Suc_conv)
qed (auto simp: one_step_longer_def)


section \<open>Read-only runs\<close>

lemma yields_ret: "yields w (ret a) a"
  by (auto simp: yields_def ret_def intro: exI [of _ "[]"])

lemma yields_bind:
  assumes m: "yields w m a" and f: "yields w (f a) b"
  shows "yields w (bind m f) b"
  unfolding yields_def
proof (intro allI impI)
  fix s :: "('a, prune_entry) sys" assume s: "world s = w"
  from m s obtain t where t: "m s = (Ret a, s\<lparr>trace := trace s @ t\<rparr>)" "\<forall>i e. PDeleteImage i e \<notin> set t"
    unfolding yields_def by blast
  from f s obtain u where u: "f a (s\<lparr>trace := trace s @ t\<rparr>) = (Ret b, s\<lparr>trace := (trace s @ t) @ u\<rparr>)"
      "\<forall>i e. PDeleteImage i e \<notin> set u"
    unfolding yields_def by (fastforce dest: spec [of _ "s\<lparr>trace := trace s @ t\<rparr>"])
  with t show "\<exists>t. bind m f s = (Ret b, s\<lparr>trace := trace s @ t\<rparr>) \<and> (\<forall>i e. PDeleteImage i e \<notin> set t)"
    by (intro exI [of _ "t @ u"]) (auto simp: bind_def)
qed

lemma yields_bind_call:
  assumes "snd (f w) = w" and "\<And>i e. mk (fst (f w)) \<noteq> PDeleteImage i e" and "yields w (g (fst (f w))) b"
  shows "yields w (bind (call f mk) g) b"
proof (rule yields_bind [where a = "fst (f w)"])
  show "yields w (g (fst (f w))) b" by (rule assms(3))
next
  show "yields w (call f mk) (fst (f w))"
    unfolding yields_def
  proof (intro allI impI exI [of _ "[mk (fst (f w))]"] conjI)
    fix s :: "('a, prune_entry) sys" assume "world s = w"
    with assms(1) show "call f mk s = (Ret (fst (f w)), s\<lparr>trace := trace s @ [mk (fst (f w))]\<rparr>)"
      by (auto simp: call_def split: prod.splits)
  next
    fix i e show "PDeleteImage i e \<notin> set [mk (fst (f w))]"
      using assms(2) [of i e] by auto
  qed
qed

lemma yields_result: "yields (world s) m a \<Longrightarrow> fst (m s) = Ret a"
  unfolding yields_def by fastforce

lemma yields_start:
  "yields w m a \<Longrightarrow> fst (m (start w)) = Ret a \<and> (\<forall>i e. PDeleteImage i e \<notin> set (trace (snd (m (start w)))))"
  unfolding yields_def by (fastforce simp: start_def dest: spec [of _ "start w"])

lemma yields_config:
  assumes rd: "reads st w imgs lay cfg"
  shows "yields w (getImageConfig st i) (Inr (cfg i))"
proof -
  from rd obtain ref where ref: "pr_ParseStoreReference st i w = (Inr ref, w)"
    and c: "case cfg i of
           Some c \<Rightarrow> \<exists>opened. pr_NewImage st ref w = (Inr opened, w) \<and> pr_OCIConfig st opened w = (Inr c, w)
         | None \<Rightarrow> \<exists>err img. pr_NewImage st ref w = (Inl err, w) \<and> pr_Image st i w = (Inr img, w) \<and> im_ID img = i"
    unfolding reads_def by blast
  show ?thesis
  proof (cases "cfg i")
    case None
    with c obtain err img where
      "pr_NewImage st ref w = (Inl err, w)" "pr_Image st i w = (Inr img, w)" "im_ID img = i" by auto
    with ref None show ?thesis
      by (auto simp: getImageConfig_def intro!: yields_bind_call yields_ret)
  next
    case (Some c')
    with c obtain opened where
      "pr_NewImage st ref w = (Inr opened, w)" "pr_OCIConfig st opened w = (Inr c', w)" by auto
    with ref Some show ?thesis
      by (auto simp: getImageConfig_def intro!: yields_bind_call yields_ret)
  qed
qed

lemma yields_top_layer:
  assumes "reads st w imgs lay cfg"
  shows "yields w (top_layer st child fmt)
    (Inr (if im_TopLayer child \<noteq> [] then Some (lay (im_TopLayer child)) else None))"
  using assms unfolding top_layer_def reads_def
  by (auto intro!: yields_bind_call yields_ret)



text \<open>The children of an image among \<open>imgs\<close>, all of them if \<open>max1\<close> is not positive.\<close>
definition children_of :: "(string \<Rightarrow> layer) \<Rightarrow> (string \<Rightarrow> config option) \<Rightarrow> simage \<Rightarrow> simage list \<Rightarrow> string list" where
  "children_of lay cfg parent imgs = map im_ID (filter (\<lambda>c. built_from lay cfg c parent) imgs)"

lemma yields_children_loop:
  assumes rd: "reads st w imgs lay cfg" and pc: "cfg (im_ID parent) = Some pc"
    and "max1 > 0 \<Longrightarrow> int (length acc) < max1"
  shows "yields w (children_loop st parent pc max1 cs acc)
    (Inr (if max1 > 0 then take (nat max1) (acc @ children_of lay cfg parent cs) else acc @ children_of lay cfg parent cs))"
  using assms(3)
proof (induction cs arbitrary: acc)
  case Nil
  then show ?case by (auto simp: yields_ret children_of_def)
next
  case (Cons c cs)
  let ?top = "if im_TopLayer c \<noteq> [] then Some (lay (im_TopLayer c)) else None"
  show ?case
  proof (cases "built_from lay cfg c parent")
    case True
    then obtain cc where cc: "cfg (im_ID c) = Some cc" "one_step_longer pc cc" "on_top_of parent ?top"
        "im_ID c \<noteq> im_ID parent"
      using pc by (auto simp: built_from_def one_step_longer_iff on_top_of_def split: option.splits)
    have tk: "take (nat max1) (acc @ im_ID c # ys) = acc @ [im_ID c]"
      if "0 < max1" "max1 \<le> int (length acc) + 1" for ys
      using that Cons.prems by (simp add: nat_eq_iff2 take_Cons')
    have rest: "yields w (children_loop st parent pc max1 cs (acc @ [im_ID c]))
        (Inr (if max1 > 0 then take (nat max1) (acc @ im_ID c # children_of lay cfg parent cs)
              else acc @ im_ID c # children_of lay cfg parent cs))"
      if "\<not> (0 < max1 \<and> max1 \<le> int (length acc) + 1)"
    proof -
      have "0 < max1 \<Longrightarrow> int (length (acc @ [im_ID c])) < max1" using that by auto
      from Cons.IH [OF this] show ?thesis by (simp only: append_assoc append_Cons append_Nil)
    qed
    from cc True rest tk show ?thesis
      by (auto simp: children_of_def simp del: children_loop.simps(1)
          intro!: yields_bind [OF yields_top_layer [OF rd]] yields_bind [OF yields_config [OF rd]] yields_ret)
  next
    case False
    then have "im_ID c = im_ID parent \<or> \<not> on_top_of parent ?top \<or> cfg (im_ID c) = None \<or>
        (\<exists>cc. cfg (im_ID c) = Some cc \<and> \<not> one_step_longer pc cc)"
      using pc by (auto simp: built_from_def one_step_longer_iff on_top_of_def split: option.splits if_splits)
    with False Cons show ?thesis
      by (cases "cfg (im_ID c)")
        (auto simp: children_of_def
          intro!: yields_bind [OF yields_top_layer [OF rd]] yields_bind [OF yields_config [OF rd]] yields_ret)
  qed
qed

lemma yields_getChildren:
  assumes rd: "reads st w imgs lay cfg"
  shows "yields w (getChildren st parent max1)
    (Inr (if max1 > 0 then take (nat max1) (children_of lay cfg parent imgs) else children_of lay cfg parent imgs))"
proof (cases "cfg (im_ID parent)")
  case None
  then have "children_of lay cfg parent imgs = []"
    by (auto simp: children_of_def filter_empty_conv built_from_def split: option.splits)
  with None rd show ?thesis
    unfolding getChildren_def
    by (auto simp: reads_def intro!: yields_bind_call yields_bind [OF yields_config [OF rd]] yields_ret)
next
  case (Some pc)
  with rd yields_children_loop [OF rd Some, of max1 "[]" imgs] show ?thesis
    unfolding getChildren_def
    by (auto simp: reads_def intro!: yields_bind_call yields_bind [OF yields_config [OF rd]])
qed

lemma yields_imageIsParent:
  assumes rd: "reads st w imgs lay cfg"
  shows "yields w (imageIsParent st img) (Inr (\<exists>c \<in> set imgs. built_from lay cfg c img))"
proof -
  have e: "0 < length (take (nat 1) (children_of lay cfg img imgs)) \<longleftrightarrow> (\<exists>c \<in> set imgs. built_from lay cfg c img)"
    by (auto simp: children_of_def filter_empty_conv)
  have "yields w (imageIsParent st img) (Inr (0 < length (take (nat 1) (children_of lay cfg img imgs))))"
    unfolding imageIsParent_def
    by (rule yields_bind [OF yields_getChildren [OF rd]]) (simp add: yields_ret)
  then show ?thesis unfolding e .
qed

text \<open>
  As long as an image that was built on top of another one is in the store, \<open>deleteImages\<close> does not
  delete the lower one: the search for children finds it, whatever names the lower image has, and the
  round of the loop leaves the last error as it is or replaces it (if the caller is not pruning).
\<close>
theorem parents_are_kept:
  assumes rd: "reads st w imgs lay cfg" and c: "c \<in> set imgs" "built_from lay cfg c img"
  shows "fst (delete_unused fuel st False prune img lastError (start w)) =
           Ret (Some (if im_Names img = [] \<and> \<not> prune
             then Some (Errorf ''unable to delete %q (cannot be forced) - image has dependent child images'' [AStr (im_ID img)])
             else lastError)) \<and>
    (\<forall>i e. PDeleteImage i e \<notin> set (trace (snd (delete_unused fuel st False prune img lastError (start w)))))"
  unfolding delete_unused_def
  by (intro yields_start yields_bind [OF yields_imageIsParent [OF rd]]) (use c in \<open>auto intro!: yields_ret\<close>)


section \<open>Only unreferenced images are deleted\<close>



lemma justified_Nil [simp]: "justified pre []"
  by (simp add: justified_def)



lemma quiet_getImageConfig: "tspec (getImageConfig st i) (\<lambda>r t. \<forall>i e. PDeleteImage i e \<notin> set t)"
  unfolding getImageConfig_def by (intro tspec_intros) auto

lemma quiet_top_layer: "tspec (top_layer st c f) (\<lambda>r t. \<forall>i e. PDeleteImage i e \<notin> set t)"
  unfolding top_layer_def by (intro tspec_intros) auto



lemma quiet_children_loop:
  "tspec (children_loop st parent pc max1 cs acc) (\<lambda>r t. \<forall>i e. PDeleteImage i e \<notin> set t)"
proof (induction cs arbitrary: acc)
  case (Cons c cs)
  show ?case
    by (auto intro!: tspec_intros tspec_bind [OF quiet_top_layer] tspec_bind [OF quiet_getImageConfig]
        tspec_mono [OF Cons])
qed (auto intro!: tspec_intros)

lemma quiet_imageIsParent: "tspec (imageIsParent st img) (\<lambda>r t. \<forall>i e. PDeleteImage i e \<notin> set t)"
proof -
  have "tspec (getChildren st img 1) (\<lambda>r t. \<forall>i e. PDeleteImage i e \<notin> set t)"
    unfolding getChildren_def
    by (intro tspec_intros tspec_bind [OF quiet_getImageConfig] tspec_mono [OF quiet_children_loop]) auto
  then show ?thesis
    unfolding imageIsParent_def by (rule tspec_bind) (auto intro!: tspec_intros)
qed







lemma quiet_getImage:
  "tspec (getImage st i)
     (\<lambda>r t. (\<forall>i e. PDeleteImage i e \<notin> set t) \<and> (\<forall>img err. r = Ret (Some img, err) \<longrightarrow> PGetStoreImage (Inr img) \<in> set t))"
proof -
  have 1: "tspec (properImageRef st i) (\<lambda>r t. \<forall>i e. PDeleteImage i e \<notin> set t)"
    "tspec (storageImageRef st i) (\<lambda>r t. \<forall>i e. PDeleteImage i e \<notin> set t)"
    "tspec (storageImageID st i) (\<lambda>r t. \<forall>i e. PDeleteImage i e \<notin> set t)"
    unfolding properImageRef_def storageImageRef_def storageImageID_def Let_def
    by (auto intro!: tspec_intros)
  then have 2: "tspec (if ref = None then storageImageRef st i else ret ref) (\<lambda>r t. \<forall>i e. PDeleteImage i e \<notin> set t)"
    "tspec (if ref = None then storageImageID st i else ret ref) (\<lambda>r t. \<forall>i e. PDeleteImage i e \<notin> set t)" for ref
    by (auto intro: tspec_ret)
  show ?thesis
    unfolding getImage_def
    by (intro tspec_bind [OF 1(1)] tspec_bind [OF 2(1)] tspec_bind [OF 2(2)] tspec_intros) auto
qed

lemma quiet_untagImage: "tspec (untagImage st a img) (\<lambda>r t. \<forall>i e. PDeleteImage i e \<notin> set t)"
  unfolding untagImage_def by (intro tspec_intros) auto






section \<open>Termination\<close>

lemma config_length:
  assumes "stable_histories st len"
  shows "tspec (getImageConfig st i) (\<lambda>r t. \<forall>c. r = Ret (Inr (Some c)) \<longrightarrow> length (cf_History c) = len i)"
  unfolding tspec_def
proof
  fix s
  obtain t where t: "trace (snd (getImageConfig st i s)) = trace s @ t"
    using quiet_getImageConfig [of st i] unfolding tspec_def by blast
  have "length (cf_History c) = len i" if "fst (getImageConfig st i s) = Ret (Inr (Some c))" for c
    using that assms unfolding stable_histories_def getImageConfig_def
    by (auto simp: bind_def call_def ret_def split: prod.splits sum.splits if_splits) blast
  with t show "\<exists>ext. trace (snd (getImageConfig st i s)) = trace s @ ext \<and>
      (\<forall>c. fst (getImageConfig st i s) = Ret (Inr (Some c)) \<longrightarrow> length (cf_History c) = len i)"
    by blast
qed

lemma parent_loop_length:
  assumes st: "stable_histories st len"
  shows "tspec (parent_loop st child l cc ps)
    (\<lambda>r t. \<forall>p. r = Ret (Inr (Some p)) \<longrightarrow> len (im_ID p) + 1 = length (cf_History cc))"
proof (induction ps)
  case (Cons p ps)
  then show ?case
    by (auto intro!: tspec_intros tspec_bind [OF config_length [OF st]] simp: one_step_longer_def)
qed (auto intro!: tspec_intros)

lemma getParent_length:
  assumes st: "stable_histories st len"
  shows "tspec (getParent st child) (\<lambda>r t. \<forall>p. r = Ret (Inr (Some p)) \<longrightarrow> len (im_ID p) + 1 = len (im_ID child))"
  unfolding getParent_def
  by (intro tspec_intros tspec_bind [OF quiet_top_layer] tspec_bind [OF config_length [OF st]]
      tspec_mono [OF parent_loop_length [OF st]]) auto

lemma remove_parents_terminates:
  assumes st: "stable_histories st len" and "\<And>p. parent = Some p \<Longrightarrow> len (im_ID p) < fuel"
  shows "tspec (remove_parents fuel st img parent) (\<lambda>r t. r \<noteq> Ret None)"
  using assms(2)
proof (induction fuel arbitrary: parent)
  case 0
  then show ?case by (cases parent) (auto intro: tspec_ret)
next
  case (Suc fuel)
  show ?case
  proof (cases parent)
    case None
    then show ?thesis by (auto intro: tspec_ret)
  next
    case (Some p)
    with Suc(2) have l: "len (im_ID p) \<le> fuel" by simp
    show ?thesis
      unfolding Some remove_parents.simps
      by (rule tspec_bind [OF getParent_length [OF st]])
        (auto intro!: tspec_intros tspec_bind [OF quiet_imageIsParent] Suc.IH dest: sym [of "Suc _"] simp: l
          le_less_trans less_le_trans [OF _ l])
  qed
qed

lemma more_fuel_refl: "more_fuel m m"
  by (simp add: more_fuel_def)

lemma more_fuel_bind: "(\<And>a. more_fuel (f a) (g a)) \<Longrightarrow> more_fuel (bind m f) (bind m g)"
  by (auto simp: more_fuel_def bind_def split: prod.splits outcome.splits)

lemma more_fuel_bind_fuel:
  "more_fuel m m' \<Longrightarrow> f None = ret None \<Longrightarrow> (\<And>a. more_fuel (f (Some a)) (g (Some a))) \<Longrightarrow>
   more_fuel (bind m f) (bind m' g)"
  unfolding more_fuel_def
proof (intro allI impI, goal_cases)
  case (1 s)
  show ?case
  proof (cases "m s")
    case (Pair o1 s1)
    with 1 show ?thesis
      by (cases o1 rule: outcome.exhaust [case_names Ret Panic]; cases "\<exists>a. o1 = Ret (Some a)")
        (auto simp: bind_def ret_def)
  qed
qed

lemma more_fuel_remove_parents:
  "more_fuel (remove_parents fuel st img parent) (remove_parents (fuel + k) st img parent)"
proof (induction fuel arbitrary: parent)
  case 0
  then show ?case by (cases parent) (auto simp: more_fuel_def ret_def)
next
  case (Suc fuel)
  then show ?case
    by (cases parent) (auto intro!: more_fuel_bind more_fuel_refl split: sum.splits)
qed

lemma more_fuel_delete_image:
  "more_fuel (delete_image fuel st all force prune i e) (delete_image (fuel + k) st all force prune i e)"
proof -
  have r: "more_fuel (removeImage fuel st img) (removeImage (fuel + k) st img)" for img
    unfolding removeImage_def
    by (auto intro!: more_fuel_bind more_fuel_refl more_fuel_remove_parents split: sum.splits option.splits)
  have "more_fuel (delete_unused fuel st all prune img e) (delete_unused (fuel + k) st all prune img e)" for img e
    unfolding delete_unused_def
    by (auto intro!: more_fuel_bind more_fuel_refl more_fuel_bind_fuel [OF r] split: sum.splits)
  then show ?thesis
    unfolding delete_image_def
    by (auto intro!: more_fuel_bind more_fuel_refl split: sum.splits option.splits)
qed

lemma more_fuel_delete_loop:
  "more_fuel (delete_loop fuel st all force prune ids e) (delete_loop (fuel + k) st all force prune ids e)"
  by (induction ids arbitrary: e)
    (auto intro!: more_fuel_refl more_fuel_bind_fuel [OF more_fuel_delete_image])

lemma removeImage_terminates:
  assumes st: "stable_histories st len" and bound: "\<And>i. len i \<le> fuel"
  shows "tspec (removeImage fuel st img) (\<lambda>r t. r \<noteq> Ret None)"
proof -
  have "len (im_ID p) < fuel" if "Suc (len (im_ID p)) = len (im_ID img)" for p
    using that bound [of "im_ID img"] by simp
  then show ?thesis
    unfolding removeImage_def
    by (intro tspec_bind [OF getParent_length [OF st]])
      (auto intro!: tspec_intros remove_parents_terminates [OF st])
qed

lemma removeContainers_trace: "tspec (removeContainers st cs) (\<lambda>r t. True)"
  by (induction cs) (auto intro!: tspec_intros)

lemma free_of_containers_trace: "tspec (free_of_containers st force i img) (\<lambda>r t. True)"
  unfolding free_of_containers_def runningContainers_def bind_assoc
  by (intro tspec_intros) (auto intro!: tspec_intros tspec_bind [OF removeContainers_trace] split: sum.splits)

lemma drop_names_trace: "tspec (drop_names st force i img e) (\<lambda>r t. True)"
  unfolding drop_names_def
  by (auto intro!: tspec_intros tspec_bind [OF quiet_untagImage] tspec_bind [OF quiet_getImage])

lemma delete_image_terminates:
  assumes st: "stable_histories st len" and bound: "\<And>i. len i \<le> fuel"
  shows "tspec (delete_image fuel st all force prune i e) (\<lambda>r t. r \<noteq> Ret None)"
proof -
  have "tspec (delete_unused fuel st all prune img e) (\<lambda>r t. r \<noteq> Ret None)" for img e
    unfolding delete_unused_def
    by (auto intro!: tspec_intros tspec_bind [OF quiet_imageIsParent] tspec_bind [OF removeImage_terminates [OF assms]])
  then show ?thesis
    unfolding delete_image_def
    by (intro tspec_bind [OF quiet_getImage] tspec_prod tspec_option)
      (auto intro!: tspec_intros tspec_bind [OF free_of_containers_trace] tspec_bind [OF drop_names_trace])
qed

text \<open>
  C33. \<open>Prune\<close> ends: an image's ID fixes its configuration, every parent has a history that is shorter by
  one, and so the walk from an image to its parents takes no more rounds than the image's history has
  entries.  With that much fuel the model never runs out, and more fuel changes nothing.
\<close>
theorem Prune_terminates:
  assumes st: "stable_histories st len" and bound: "\<And>i. len i \<le> fuel"
  shows "fst (Prune fuel st (start w)) \<noteq> Ret None \<and> Prune (fuel + k) st (start w) = Prune fuel st (start w)"
proof -
  have loop: "tspec (delete_loop fuel st False False True ids e) (\<lambda>r t. r \<noteq> Ret None)" for ids e
    by (induction ids arbitrary: e)
      (auto intro!: tspec_intros tspec_bind [OF delete_image_terminates [OF assms]])
  have dangling: "tspec (findDanglingImages st) (\<lambda>r t. True)"
    unfolding findDanglingImages_def by (intro tspec_intros) auto
  have "tspec (Prune fuel st) (\<lambda>r t. r \<noteq> Ret None)"
    unfolding Prune_def deleteImages_def
    by (auto intro!: tspec_intros tspec_bind [OF dangling] loop)
  then have "fst (Prune fuel st (start w)) \<noteq> Ret None"
    by (rule tspec_start)
  moreover have "more_fuel (Prune fuel st) (Prune (fuel + k) st)"
    unfolding Prune_def deleteImages_def
    by (auto intro!: more_fuel_bind more_fuel_refl more_fuel_delete_loop split: sum.splits)
  ultimately show ?thesis by (simp add: more_fuel_def)
qed

section \<open>A small store\<close>

text \<open>
  A store whose images are the world.  An image's ID spells its history, its top layer is named after it
  and lies on the layer of the image it was built from.
\<close>

definition spelled :: "string \<Rightarrow> config" where
  "spelled i = \<lparr>cf_History = (if length i \<le> 5 then map (\<lambda>c. \<lparr>hi_Created = None, hi_CreatedBy = [c], hi_Author = [],
      hi_Comment = [], hi_EmptyLayer = False\<rparr>) i else []), cf_DiffIDs = []\<rparr>"

definition look :: "string \<Rightarrow> simage list \<Rightarrow> (go_error + simage) \<times> simage list" where
  "look i w = (case find (\<lambda>img. im_ID img = i) w of Some img \<Rightarrow> Inr img | None \<Rightarrow> Inl (Errorf ''unknown'' []), w)"

definition small_store :: "(string, string, simage list) images" where
  "small_store =
     \<lparr>pr_Images = (\<lambda>w. (Inr w, w)), pr_Image = look,
      pr_Layer = (\<lambda>l w. (Inr \<lparr>ly_ID = l, ly_Parent = butlast l\<rparr>, w)),
      pr_Containers = (\<lambda>w. (Inr [], w)), pr_DeleteContainer = (\<lambda>_ w. (None, w)),
      pr_DeleteImage = (\<lambda>i w. (None, filter (\<lambda>img. im_ID img \<noteq> i) w)),
      pr_SetNames = (\<lambda>i ns w. (None, map (\<lambda>img. if im_ID img = i then img\<lparr>im_Names := ns\<rparr> else img) w)),
      pr_ParseImageName = (\<lambda>_ w. (Inl (Errorf ''no transport'' []), w)),
      pr_ParseStoreReference = (\<lambda>i w. (Inr i, w)),
      pr_FindImage = (\<lambda>i w. (Inl (Errorf ''no name'' []), w)),
      pr_NewImageSource = (\<lambda>_ w. (None, w)), pr_GetStoreImage = look,
      pr_NewImage = (\<lambda>i w. (Inr i, w)), pr_OCIConfig = (\<lambda>i w. (Inr (spelled i), w)),
      pr_ImageName = (\<lambda>i. i), pr_ErrNotAnImage = Errorf ''not an image'' [],
      pr_ErrImageUsedByContainer = Errorf ''in use'' []\<rparr>"

definition untagged :: "string \<Rightarrow> simage" where
  "untagged i = \<lparr>im_ID = i, im_Names = [], im_TopLayer = i, im_ReadOnly = False\<rparr>"

lemma small_store_reads:
  "reads small_store w w (\<lambda>l. \<lparr>ly_ID = l, ly_Parent = butlast l\<rparr>) (\<lambda>i. Some (spelled i))"
  by (simp add: reads_def small_store_def)

lemma small_store_stable: "stable_histories small_store (\<lambda>i. length (cf_History (spelled i)))"
  by (simp add: stable_histories_def small_store_def)

theorem parents_are_kept_witness:
  "fst (delete_unused 5 small_store False True (untagged ''b'') None (start [untagged ''b'', untagged ''bc''])) =
     Ret (Some None) \<and>
   (\<forall>i e. PDeleteImage i e \<notin> set (trace (snd
     (delete_unused 5 small_store False True (untagged ''b'') None (start [untagged ''b'', untagged ''bc''])))))"
  using parents_are_kept [OF small_store_reads, of "untagged ''bc''" "[untagged ''b'', untagged ''bc'']"
      "untagged ''b''" 5 True None]
  by (simp add: built_from_def spelled_def untagged_def)



theorem Prune_terminates_witness:
  "fst (Prune 5 small_store (start [untagged ''b'', untagged ''bc''])) \<noteq> Ret None \<and>
   Prune 8 small_store (start [untagged ''b'', untagged ''bc'']) = Prune 5 small_store (start [untagged ''b'', untagged ''bc''])"
  using Prune_terminates [OF small_store_stable, of 5 "[untagged ''b'', untagged ''bc'']" 3]
  by (simp add: spelled_def)

text \<open>
  A name without a tag is compared with an argument that has one by indexing past its end.
\<close>
lemma untagged_name_panics: "matchesReference ''localhost/cache'' ''cache:latest'' = Panic"
  by code_simp

end
