(* ===== verification/LayerfsCli.thy ===== *)
theory LayerfsCli
  imports SyncedStore LayerfsPrune
begin

text \<open>
  \<^verbatim>\<open>cmd/layerfs\<close>: the command line tool, which opens a store and runs one operation of it.  The flags and
  environment variables are the record \<open>flags\<close>; parsing them (cobra) is outside the repository.  The host
  (containers/storage, the Kubernetes client, \<^verbatim>\<open>os.Chmod\<close>) is the parameter \<open>host\<close>, whose opaque handles (the
  store, the client configuration, the REST mapper) are of type \<open>'h\<close>.  From a handle of a store the host
  gives the parameters of \<open>LayerfsStore\<close> and \<open>LayerfsPrune\<close>, so that the commands run the operations
  modelled there.
\<close>

record flags =
  fl_storageRoot :: string
  fl_storageRunRoot :: string
  fl_registry :: string
  fl_registryUsername :: string
  fl_registryPassword :: string
  fl_insecure :: bool
  fl_enableK8sSync :: bool
  fl_nodeName :: string
  fl_mode :: nat

record store_options =
  so_GraphRoot :: string
  so_RunRoot :: string
  so_GraphDriverName :: string
  so_GraphDriverOptions :: "string list"

record system_context =
  sx_DockerInsecureSkipTLSVerify :: bool
  sx_DockerAuthConfig :: "(string \<times> string) option"

record ('r, 'i, 'h, 'w) host =
  ho_DefaultStoreOptions :: "'w \<Rightarrow> (go_error + store_options) \<times> 'w"
  ho_GetStore :: "store_options \<Rightarrow> 'w \<Rightarrow> (go_error + 'h) \<times> 'w"
  ho_storage :: "'h \<Rightarrow> system_context \<Rightarrow> ('r, 'w) storage"
  ho_images :: "'h \<Rightarrow> ('r, 'i, 'w) images"
  ho_retry :: "('r, 'w) local_retry"
  ho_InClusterConfig :: "'w \<Rightarrow> (go_error + 'h) \<times> 'w"
  ho_NewDynamicRESTMapper :: "'h \<Rightarrow> 'w \<Rightarrow> (go_error + 'h) \<times> 'w"
  ho_NewClient :: "'h \<Rightarrow> 'h \<Rightarrow> 'w \<Rightarrow> (go_error + 'w client) \<times> 'w"
  ho_RetryOnConflict :: "'w retry"
  ho_Chmod :: "string \<Rightarrow> nat \<Rightarrow> 'w \<Rightarrow> go_error option \<times> 'w"
  ho_Free :: "'h \<Rightarrow> 'w \<Rightarrow> unit \<times> 'w"

datatype 'r cli_entry =
    CSetup
  | COpened store_options
  | CStore "'r sync_entry"
  | CPrune prune_entry
  | CChmod string nat "go_error option"
  | CPrint string
  | CFree

type_synonym ('r, 'w, 'a) cli_prog = "('w, 'r cli_entry, 'a) go"

section \<open>Options\<close>

definition validateOptions :: "mount_options \<Rightarrow> go_error option" where
  "validateOptions opts =
     (if mo_Image opts = [] \<and> mo_CacheName opts = []
      then Some (Errorf ''neither --cache-name nor --image specified'' []) else None)"

definition applyDefaults :: "flags \<Rightarrow> mount_options \<Rightarrow> mount_options" where
  "applyDefaults fl opts =
     (let o1 = (if mo_CacheNamespace opts = [] then opts\<lparr>mo_CacheNamespace := ''default''\<rparr> else opts)
      in if mo_Image o1 = [] \<and> fl_registry fl \<noteq> []
         then o1\<lparr>mo_Image := Sprintf ''%s/cache/%s:%s'' [AStr (fl_registry fl), AStr (mo_CacheNamespace o1), AStr (mo_CacheName o1)]\<rparr>
         else o1)"

text \<open>\<^verbatim>\<open>filepath.Join\<close> of two elements.\<close>
definition JoinPath :: "string \<Rightarrow> string \<Rightarrow> string" where
  "JoinPath a b = (if a = [] then if b = [] then [] else Clean b else if b = [] then Clean a else Clean (a @ slash # b))"

definition store_options_for :: "flags \<Rightarrow> store_options \<Rightarrow> store_options" where
  "store_options_for fl opts =
     (let o1 = (if fl_storageRoot fl \<noteq> [] \<and> fl_storageRoot fl \<noteq> so_GraphRoot opts
                then opts\<lparr>so_GraphRoot := fl_storageRoot fl, so_RunRoot := JoinPath (fl_storageRoot fl) ''runroot''\<rparr>
                else opts);
          o2 = (if fl_storageRunRoot fl \<noteq> [] then o1\<lparr>so_RunRoot := fl_storageRunRoot fl\<rparr> else o1)
      in if so_GraphDriverName o2 = []
         then o2\<lparr>so_GraphDriverName := ''overlay'', so_GraphDriverOptions := [''overlay.mountopt=nodev'']\<rparr>
         else o2)"

definition system_context_for :: "flags \<Rightarrow> system_context" where
  "system_context_for fl =
     \<lparr>sx_DockerInsecureSkipTLSVerify = fl_insecure fl,
      sx_DockerAuthConfig =
        (if fl_registryUsername fl \<noteq> [] \<and> fl_registryPassword fl \<noteq> []
         then Some (fl_registryUsername fl, fl_registryPassword fl) else None)\<rparr>"

section \<open>Opening a store\<close>

text \<open>The store that was opened: its handle, and what \<^verbatim>\<open>Mount\<close> and \<^verbatim>\<open>Unmount\<close> are called on.\<close>
record ('r, 'h, 'w) open_store =
  op_handle :: 'h
  op_local :: "('r, 'w) store"
  op_synced :: "('r, 'w) synchronized_store option"

definition toClusterSyncedStore :: "('r, 'i, 'h, 'w) host \<Rightarrow> flags \<Rightarrow> ('r, 'w) store \<Rightarrow>
    ('r, 'w, go_error + ('r, 'w) synchronized_store) cli_prog" where
  "toClusterSyncedStore h fl st =
     (if fl_nodeName fl = [] then ret (Inl (Errorf ''node name has not been specified'' []))
      else
        bind (call (ho_InClusterConfig h) (\<lambda>_. CSetup)) (\<lambda>r.
        case r of
          Inl err \<Rightarrow> ret (Inl (Wrapped ''needs to be run within a k8s pod with an access token mounted'' [] err))
        | Inr cfg \<Rightarrow>
            bind (call (ho_NewDynamicRESTMapper h cfg) (\<lambda>_. CSetup)) (\<lambda>r.
            case r of
              Inl err \<Rightarrow> ret (Inl err)
            | Inr mapper \<Rightarrow>
                bind (call (ho_NewClient h cfg mapper) (\<lambda>_. CSetup)) (\<lambda>r.
                case r of
                  Inl err \<Rightarrow> ret (Inl err)
                | Inr c \<Rightarrow> ret (Inr (Synchronized st c (ho_RetryOnConflict h) (fl_nodeName fl)))))))"

definition newStore :: "('r, 'i, 'h, 'w) host \<Rightarrow> flags \<Rightarrow> ('r, 'w, go_error + ('r, 'h, 'w) open_store) cli_prog" where
  "newStore h fl =
     bind (call (ho_DefaultStoreOptions h) (\<lambda>_. CSetup)) (\<lambda>r.
     case r of
       Inl err \<Rightarrow> ret (Inl err)
     | Inr opts0 \<Rightarrow>
         let opts = store_options_for fl opts0
         in bind (call (ho_GetStore h opts) (\<lambda>r. case r of Inl _ \<Rightarrow> CSetup | Inr _ \<Rightarrow> COpened opts)) (\<lambda>r.
            case r of
              Inl err \<Rightarrow> ret (Inl (Wrapped ''init store at %s'' [AStr (so_GraphRoot opts)] err))
            | Inr handle \<Rightarrow>
                let st = local_store (ho_storage h handle (system_context_for fl)) (ho_retry h)
                in if fl_enableK8sSync fl then
                     bind (toClusterSyncedStore h fl st) (\<lambda>r.
                     case r of
                       Inl err \<Rightarrow> ret (Inl (Wrapped ''cannot enable k8s sync'' [] err))
                     | Inr synced \<Rightarrow> ret (Inr \<lparr>op_handle = handle, op_local = st, op_synced = Some synced\<rparr>))
                   else ret (Inr \<lparr>op_handle = handle, op_local = st, op_synced = None\<rparr>)))"

definition store_Mount :: "('r, 'h, 'w) open_store \<Rightarrow> (nat \<Rightarrow> nat \<Rightarrow> readings) \<Rightarrow> mount_options \<Rightarrow>
    ('r, 'w, string \<times> go_error option) cli_prog" where
  "store_Mount s clock opts =
     (case op_synced s of
        Some synced \<Rightarrow> relabel CStore (sync_Mount synced clock opts)
      | None \<Rightarrow> relabel (\<lambda>e. CStore (Local e)) (sm_Mount (op_local s) opts))"

definition store_Unmount :: "('r, 'h, 'w) open_store \<Rightarrow> (nat \<Rightarrow> nat \<Rightarrow> readings) \<Rightarrow> mount_options \<Rightarrow>
    ('r, 'w, string \<times> bool \<times> go_error option) cli_prog" where
  "store_Unmount s clock opts =
     (case op_synced s of
        Some synced \<Rightarrow> relabel CStore (sync_Unmount synced clock opts)
      | None \<Rightarrow> relabel (\<lambda>e. CStore (Local e)) (sm_Unmount (op_local s) opts))"

text \<open>
  \<^verbatim>\<open>defer store.Free()\<close> after the store was opened; \<open>fail\<close> makes the command's result from an error.
\<close>
definition with_store :: "('r, 'i, 'h, 'w) host \<Rightarrow> flags \<Rightarrow> (go_error \<Rightarrow> 'a) \<Rightarrow>
    (('r, 'h, 'w) open_store \<Rightarrow> ('r, 'w, 'a) cli_prog) \<Rightarrow> ('r, 'w, 'a) cli_prog" where
  "with_store h fl fail body =
     bind (newStore h fl) (\<lambda>r.
     case r of
       Inl err \<Rightarrow> ret (fail err)
     | Inr store \<Rightarrow>
         deferred (body store)
           (\<lambda>res. bind (call (ho_Free h (op_handle store)) (\<lambda>_. CFree)) (\<lambda>_. ret res))
           (call (ho_Free h (op_handle store)) (\<lambda>_. CFree)))"

definition with_mount_dir :: "string list \<Rightarrow> mount_options \<Rightarrow> mount_options" where
  "with_mount_dir args opts = (case args of [] \<Rightarrow> opts | dir # _ \<Rightarrow> opts\<lparr>mo_ExtMountDir := dir\<rparr>)"

section \<open>The commands\<close>

definition runMountCmd :: "('r, 'i, 'h, 'w) host \<Rightarrow> flags \<Rightarrow> (nat \<Rightarrow> nat \<Rightarrow> readings) \<Rightarrow> mount_options \<Rightarrow> string list \<Rightarrow>
    ('r, 'w, go_error option) cli_prog" where
  "runMountCmd h fl clock opts args =
     with_store h fl Some (\<lambda>store.
       bind (store_Mount store clock (applyDefaults fl (with_mount_dir args opts))) (\<lambda>(dir, err).
       case err of
         Some err \<Rightarrow> ret (Some err)
       | None \<Rightarrow>
           bind (call (ho_Chmod h dir (fl_mode fl)) (CChmod dir (fl_mode fl))) (\<lambda>err.
           case err of
             Some err \<Rightarrow> ret (Some err)
           | None \<Rightarrow> bind (emit (CPrint dir)) (\<lambda>_. ret None))))"

definition runUnmountCmd :: "('r, 'i, 'h, 'w) host \<Rightarrow> flags \<Rightarrow> (nat \<Rightarrow> nat \<Rightarrow> readings) \<Rightarrow> mount_options \<Rightarrow> string list \<Rightarrow>
    ('r, 'w, go_error option) cli_prog" where
  "runUnmountCmd h fl clock opts args =
     with_store h fl Some (\<lambda>store.
       bind (store_Unmount store clock (applyDefaults fl (with_mount_dir args opts))) (\<lambda>(imageID, _, err).
       case err of
         Some err \<Rightarrow> ret (Some err)
       | None \<Rightarrow> if imageID \<noteq> [] then bind (emit (CPrint imageID)) (\<lambda>_. ret None) else ret None))"

text \<open>The fuel is that of \<open>Prune\<close>; \<open>None\<close> says that it was used up.\<close>
definition runPruneCmd :: "nat \<Rightarrow> ('r, 'i, 'h, 'w) host \<Rightarrow> flags \<Rightarrow> ('r, 'w, go_error option option) cli_prog" where
  "runPruneCmd fuel h fl =
     with_store h fl (\<lambda>err. Some (Some err)) (\<lambda>store.
       relabel CPrune (Prune fuel (ho_images h (op_handle store))))"

text \<open>The mount command with the check that runs before it (\<^verbatim>\<open>PreRunE\<close>).\<close>
definition mountCmd :: "('r, 'i, 'h, 'w) host \<Rightarrow> flags \<Rightarrow> (nat \<Rightarrow> nat \<Rightarrow> readings) \<Rightarrow> mount_options \<Rightarrow> string list \<Rightarrow>
    ('r, 'w, go_error option) cli_prog" where
  "mountCmd h fl clock opts args =
     (case validateOptions opts of Some err \<Rightarrow> ret (Some err) | None \<Rightarrow> runMountCmd h fl clock opts args)"

section \<open>What the commands do\<close>

definition setting_up :: "'r cli_entry \<Rightarrow> bool" where
  "setting_up e \<longleftrightarrow> e = CSetup \<or> (\<exists>opts. e = COpened opts)"

definition prints :: "'r cli_entry list \<Rightarrow> bool" where
  "prints t \<longleftrightarrow> (\<exists>x. CPrint x \<in> set t)"

lemma prints_simps [simp]:
  "\<not> prints []"
  "prints (e # t) \<longleftrightarrow> (\<exists>x. e = CPrint x) \<or> prints t"
  "prints (t @ u) \<longleftrightarrow> prints t \<or> prints u"
  by (auto simp: prints_def)

text \<open>The calls of the local store.\<close>
fun cli_local :: "'r cli_entry \<Rightarrow> 'r local_entry option" where
  "cli_local (CStore e) = local_part e"
| "cli_local _ = None"

text \<open>The stores a command can get: the local one, or the local one synchronized with a cluster.\<close>
definition proper_store :: "('r, 'h, 'w) open_store \<Rightarrow> bool" where
  "proper_store s \<longleftrightarrow> (\<exists>hdl st retry. s = \<lparr>op_handle = hdl, op_local = local_store st retry, op_synced = None\<rparr> \<or>
     (\<exists>c rc node. s = \<lparr>op_handle = hdl, op_local = local_store st retry,
        op_synced = Some (Synchronized (local_store st retry) c rc node)\<rparr>))"

lemma proper_storeI:
  "proper_store \<lparr>op_handle = hdl, op_local = local_store st retry, op_synced = None\<rparr>"
  "proper_store \<lparr>op_handle = hdl, op_local = local_store st retry,
     op_synced = Some (Synchronized (local_store st retry) c rc node)\<rparr>"
  unfolding proper_store_def by blast+

lemma newStore_trace:
  "tspec (newStore h fl) (\<lambda>r t. r \<noteq> Panic \<and> list_all setting_up t \<and> (\<forall>s. r = Ret (Inr s) \<longrightarrow> proper_store s))"
proof -
  have sync: "tspec (toClusterSyncedStore h fl st) (\<lambda>r t. r \<noteq> Panic \<and> list_all setting_up t \<and>
      (\<forall>s. r = Ret (Inr s) \<longrightarrow> (\<exists>c rc node. s = Synchronized st c rc node)))" for st
    unfolding toClusterSyncedStore_def by (intro tspec_intros) (auto simp: setting_up_def)
  show ?thesis
    unfolding newStore_def Let_def
    by (intro tspec_intros tspec_bind [OF sync]) (auto simp: setting_up_def proper_storeI split: sum.splits)
qed

text \<open>The outcome of mounting and giving the directory its mode, before the store is released.\<close>
definition mount_outcome :: "mount_options \<Rightarrow> nat \<Rightarrow> go_error option outcome \<Rightarrow> 'r cli_entry list \<Rightarrow> bool" where
  "mount_outcome opts mode r t \<longleftrightarrow>
     (if r = Ret None
      then \<exists>u dir. t = u @ [CChmod dir mode None, CPrint dir] \<and> \<not> prints u \<and> mounted_at opts dir (List.map_filter cli_local u)
      else \<not> prints t \<and> (nothing_left (List.map_filter cli_local t) \<or> (\<exists>dir e. CChmod dir mode (Some e) \<in> set t)))"

lemma setting_up_silent: "list_all setting_up t \<Longrightarrow> \<not> prints t"
  by (auto simp: prints_def setting_up_def list_all_iff)

text \<open>A command either could not open the store, or ends with releasing it.\<close>
lemma with_store_trace:
  assumes "\<And>store. proper_store store \<Longrightarrow> tspec (body store) P"
  shows "tspec (with_store h fl fail body) (\<lambda>r t.
    (\<exists>e. r = Ret (fail e) \<and> list_all setting_up t) \<or> (\<exists>u v. t = u @ v @ [CFree] \<and> list_all setting_up u \<and> P r v))"
  unfolding with_store_def
proof (rule tspec_bind [OF newStore_trace], goal_cases)
  case (1 r u)
  show ?case
  proof (cases r)
    case (Inl e)
    with 1 show ?thesis by (auto intro!: tspec_ret)
  next
    case (Inr store)
    with 1 show ?thesis
      by (auto intro!: tspec_deferred [OF assms] tspec_bind_call tspec_ret tspec_call)
  qed
qed simp

section \<open>The mount command\<close>

text \<open>
  The command over any store that keeps the contract of a mount and prints nothing itself: the
  directory that is printed is where a container has been mounted, and a command that fails leaves no
  container unless the mode of the directory could not be set.
\<close>
locale mount_command = mount_contract mnt cli_local
  for mnt :: "mount_options \<Rightarrow> ('r, 'w, string \<times> go_error option) cli_prog" +
  assumes silent: "tspec (mnt opts) (\<lambda>r t. \<not> prints t)"
begin

lemma mount_body:
  "tspec (bind (mnt opts) (\<lambda>(dir, err).
     case err of
       Some err \<Rightarrow> ret (Some err)
     | None \<Rightarrow>
         bind (call (ho_Chmod h dir mode) (CChmod dir mode)) (\<lambda>err.
         case err of
           Some err \<Rightarrow> ret (Some err)
         | None \<Rightarrow> bind (emit (CPrint dir)) (\<lambda>_. ret None))))
   (mount_outcome opts mode)"
  by (rule tspec_bind [OF tspec_conj [OF contract silent]],
      auto intro!: tspec_intros simp: mount_outcome_def map_filter_append List.map_filter_simps) blast

end

lemma store_Mount_silent: "tspec (store_Mount s clock opts) (\<lambda>r t. \<not> prints t)"
  unfolding store_Mount_def by (auto intro!: tspec_option tspec_relabel simp: prints_def)

interpretation plain: mount_command
    "store_Mount \<lparr>op_handle = hdl, op_local = local_store st retry, op_synced = None\<rparr> clock" for hdl st retry clock
proof
  fix opts
  show "tspec (store_Mount \<lparr>op_handle = hdl, op_local = local_store st retry, op_synced = None\<rparr> clock opts)
      (\<lambda>r t. mount_clean opts r (List.map_filter cli_local t))"
    unfolding store_Mount_def local_store_def by (simp add: loc.relabelled fun_eq_iff)
qed (rule store_Mount_silent)

interpretation shared: mount_command
    "store_Mount \<lparr>op_handle = hdl, op_local = lo, op_synced = Some (Synchronized (local_store st retry) c rc node)\<rparr> clock"
  for hdl lo st retry c rc node clock
proof
  fix opts
  show "tspec (store_Mount \<lparr>op_handle = hdl, op_local = lo,
        op_synced = Some (Synchronized (local_store st retry) c rc node)\<rparr> clock opts)
      (\<lambda>r t. mount_clean opts r (List.map_filter cli_local t))"
    unfolding store_Mount_def by (simp add: syn.synced.relabelled fun_eq_iff)
qed (rule store_Mount_silent)

lemma runMountCmd_run:
  "tspec (runMountCmd h fl clock opts args) (\<lambda>r t. (\<exists>e. r = Ret (Some e)) \<and> list_all setting_up t \<or>
     (\<exists>u v. t = u @ v @ [CFree] \<and> list_all setting_up u \<and>
        mount_outcome (applyDefaults fl (with_mount_dir args opts)) (fl_mode fl) r v))"
  unfolding runMountCmd_def
proof (rule tspec_mono [OF with_store_trace
      [where P = "mount_outcome (applyDefaults fl (with_mount_dir args opts)) (fl_mode fl)"]], goal_cases)
  case (1 store)
  then show ?case unfolding proper_store_def by (elim exE disjE) (simp_all add: plain.mount_body shared.mount_body)
qed blast

lemma mounted_at_defaults: "mounted_at (applyDefaults fl opts) = mounted_at opts"
  by (simp add: mounted_at_def mounts_def applyDefaults_def Let_def fun_eq_iff)

lemma setting_up_local: "list_all setting_up t \<Longrightarrow> List.map_filter cli_local t = []"
  by (rule map_filter_none) (auto simp: list_all_iff setting_up_def)

text \<open>A run of the mount command, where \<open>ok\<close> says whether it succeeded.\<close>
definition mount_run :: "mount_options \<Rightarrow> nat \<Rightarrow> bool \<Rightarrow> 'r cli_entry list \<Rightarrow> bool" where
  "mount_run opts mode ok t \<longleftrightarrow>
     (if ok
      then \<exists>u dir. t = u @ [CChmod dir mode None, CPrint dir, CFree] \<and> \<not> prints u
        \<and> mounted_at opts dir (List.map_filter cli_local t)
      else \<not> prints t \<and> (list_all setting_up t \<or> last t = CFree)
        \<and> (nothing_left (List.map_filter cli_local t) \<or> (\<exists>dir e. CChmod dir mode (Some e) \<in> set t)))"

lemma mountCmd_run:
  "tspec (mountCmd h fl clock opts args) (\<lambda>r t. mount_run (with_mount_dir args opts) (fl_mode fl) (r = Ret None) t)"
proof -
  have "tspec (runMountCmd h fl clock opts args) (\<lambda>r t. mount_run (with_mount_dir args opts) (fl_mode fl) (r = Ret None) t)"
  proof (rule tspec_mono [OF runMountCmd_run], elim disjE exE conjE, goal_cases)
    case (1 r t e)
    then show ?case by (simp add: mount_run_def setting_up_silent setting_up_local)
  next
    case (2 r t u v)
    then show ?case
      by (cases "r = Ret None") (auto simp: mount_run_def mount_outcome_def mounted_at_defaults setting_up_silent
          setting_up_local map_filter_append List.map_filter_simps)
  qed
  then show ?thesis
    unfolding mountCmd_def by (rule tspec_option) (rule tspec_ret, simp add: mount_run_def)
qed

text \<open>
  The defaults complete the options: options the command line accepts are accepted by the store
  unless the mount path is relative; the namespace is never empty, so that the synchronized store does
  not miss one; with a registry there is always an image; and applying the defaults again changes nothing.
\<close>
theorem defaults_complete:
  assumes "validateOptions opts = None"
  shows "(validate (applyDefaults fl opts) = None \<longleftrightarrow> mo_ExtMountDir opts = [] \<or> IsAbs (mo_ExtMountDir opts))
    \<and> mo_CacheNamespace (applyDefaults fl opts) \<noteq> []
    \<and> (fl_registry fl \<noteq> [] \<longrightarrow> mo_Image (applyDefaults fl opts) \<noteq> [])
    \<and> applyDefaults fl (applyDefaults fl opts) = applyDefaults fl opts"
  using assms
  by (auto simp: validateOptions_def applyDefaults_def validate_def Let_def split: if_splits)

definition example_options :: mount_options where
  "example_options = \<lparr>mo_Image = [], mo_ContainerName = [], mo_ExtMountDir = ''/data/volume'', mo_Commit = False,
     mo_CacheName = ''build'', mo_CacheNamespace = []\<rparr>"

definition example_flags :: flags where
  "example_flags = \<lparr>fl_storageRoot = [], fl_storageRunRoot = [], fl_registry = ''registry.local'',
     fl_registryUsername = [], fl_registryPassword = [], fl_insecure = False, fl_enableK8sSync = False,
     fl_nodeName = [], fl_mode = 488\<rparr>"

theorem defaults_complete_witness:
  "validate (applyDefaults example_flags example_options) = None
   \<and> mo_Image (applyDefaults example_flags example_options) \<noteq> []"
proof -
  have "validateOptions example_options = None"
    by (simp add: validateOptions_def example_options_def)
  from defaults_complete [OF this, of example_flags] show ?thesis
    by (simp add: example_options_def example_flags_def IsAbs_def HasPrefix_def)
qed

end
