(* ===== verification/LayerfsMain.thy ===== *)
theory LayerfsMain
  imports LayerfsCli
begin

text \<open>
  The process around the commands of \<^verbatim>\<open>cmd/layerfs\<close>: the defaults from the environment and the flags
  (\<^verbatim>\<open>root.go\<close>, \<^verbatim>\<open>common.go\<close>), choosing the command and the exit code (\<^verbatim>\<open>main.go\<close>), and the goroutine that handles
  signals (\<open>newContext\<close>).

  The environment of the process is the record \<open>process\<close>.  Parsing the arguments is left to cobra, the
  parameter \<open>ps_parse\<close>: it answers with an error or with the command, its arguments and the flags that were given.
\<close>

section \<open>Options\<close>

datatype command = MountCmd | UmountCmd | PruneCmd

text \<open>\<open>iv_command\<close> is \<open>None\<close> if no command is given, and cobra prints the help.\<close>
record invocation =
  iv_command :: "command option"
  iv_args :: "string list"
  iv_string :: "string \<Rightarrow> string option"
  iv_bool :: "string \<Rightarrow> bool option"
  iv_mode :: "nat option"

record process =
  ps_Getenv :: "string \<Rightarrow> string"
  ps_ReadFile :: "string \<Rightarrow> go_error + string"
  ps_InitReexec :: bool
  ps_parse :: "go_error + invocation"

text \<open>\<^verbatim>\<open>strconv.ParseBool\<close>, whose error is ignored.\<close>
definition ParseBool :: "string \<Rightarrow> bool" where
  "ParseBool s \<longleftrightarrow> s \<in> set [''1'', ''t'', ''T'', ''true'', ''TRUE'', ''True'']"

definition modeDefault :: nat where
  "modeDefault = 488"

text \<open>The variables of \<^verbatim>\<open>root.go\<close> before the flags are parsed.\<close>
definition initial_flags :: "process \<Rightarrow> flags" where
  "initial_flags ps =
     \<lparr>fl_storageRoot = ps_Getenv ps ''LAYERFS_STORAGE_ROOT'',
      fl_storageRunRoot = ps_Getenv ps ''LAYERFS_STORAGE_RUNROOT'',
      fl_registry = ps_Getenv ps ''LAYERFS_REGISTRY'',
      fl_registryUsername = ps_Getenv ps ''LAYERFS_REGISTRY_USERNAME'',
      fl_registryPassword = ps_Getenv ps ''LAYERFS_REGISTRY_PASSWORD'',
      fl_insecure = ParseBool (ps_Getenv ps ''LAYERFS_INSECURE_SKIP_TLS_VERIFY''),
      fl_enableK8sSync = ParseBool (ps_Getenv ps ''LAYERFS_ENABLE_K8S_SYNC''),
      fl_nodeName = ps_Getenv ps ''LAYERFS_NODE_NAME'',
      fl_mode = modeDefault\<rparr>"

text \<open>The variable \<^verbatim>\<open>mountOptions\<close>.\<close>
definition initial_options :: "process \<Rightarrow> mount_options" where
  "initial_options ps =
     \<lparr>mo_Image = ps_Getenv ps ''LAYERFS_IMAGE'', mo_ContainerName = ps_Getenv ps ''LAYERFS_CONTAINER_NAME'',
      mo_ExtMountDir = [], mo_Commit = False,
      mo_CacheName = ps_Getenv ps ''LAYERFS_NAME'', mo_CacheNamespace = ps_Getenv ps ''LAYERFS_NAMESPACE''\<rparr>"

definition namespace_file :: string where
  "namespace_file = ''/var/run/secrets/kubernetes.io/serviceaccount/namespace''"

text \<open>
  \<open>addContainerFlag\<close> runs once for the mount and once for the unmount command, on the same variable; the
  error of reading the file is ignored, and the file then counts as empty.
\<close>
definition addContainerFlag :: "process \<Rightarrow> mount_options \<Rightarrow> mount_options" where
  "addContainerFlag ps opts =
     (let opts = (if mo_CacheNamespace opts = []
                  then opts\<lparr>mo_CacheNamespace := case ps_ReadFile ps namespace_file of Inl _ \<Rightarrow> [] | Inr b \<Rightarrow> b\<rparr>
                  else opts)
      in opts\<lparr>mo_Commit := False\<rparr>)"

definition given :: "'a \<Rightarrow> 'a option \<Rightarrow> 'a" where
  "given v f = (case f of None \<Rightarrow> v | Some x \<Rightarrow> x)"

text \<open>The flags that \<open>addContainerFlag\<close> declares.\<close>
definition parse_container_flags :: "invocation \<Rightarrow> mount_options \<Rightarrow> mount_options" where
  "parse_container_flags iv opts =
     opts\<lparr>mo_Commit := given (mo_Commit opts) (iv_bool iv ''commit''),
          mo_Image := given (mo_Image opts) (iv_string iv ''image''),
          mo_ContainerName := given (mo_ContainerName opts) (iv_string iv ''container-name''),
          mo_CacheName := given (mo_CacheName opts) (iv_string iv ''name''),
          mo_CacheNamespace := given (mo_CacheNamespace opts) (iv_string iv ''namespace'')\<rparr>"

text \<open>The flags that \<open>Execute\<close> declares, and the mode of \<^verbatim>\<open>mountCmd\<close>.\<close>
definition parse_persistent_flags :: "invocation \<Rightarrow> flags \<Rightarrow> flags" where
  "parse_persistent_flags iv fl =
     fl\<lparr>fl_storageRoot := given (fl_storageRoot fl) (iv_string iv ''storage-root''),
        fl_storageRunRoot := given (fl_storageRunRoot fl) (iv_string iv ''storage-runroot''),
        fl_registry := given (fl_registry fl) (iv_string iv ''registry''),
        fl_registryUsername := given (fl_registryUsername fl) (iv_string iv ''registry-username''),
        fl_registryPassword := given (fl_registryPassword fl) (iv_string iv ''registry-password''),
        fl_insecure := given (fl_insecure fl) (iv_bool iv ''insecure-skip-tls-verify''),
        fl_enableK8sSync := given (fl_enableK8sSync fl) (iv_bool iv ''enable-k8s-sync''),
        fl_mode := given (fl_mode fl) (iv_mode iv)\<rparr>"

definition parsed_options :: "process \<Rightarrow> invocation \<Rightarrow> mount_options" where
  "parsed_options ps iv = parse_container_flags iv (addContainerFlag ps (addContainerFlag ps (initial_options ps)))"

definition parsed_flags :: "process \<Rightarrow> invocation \<Rightarrow> flags" where
  "parsed_flags ps iv = parse_persistent_flags iv (initial_flags ps)"

section \<open>The process\<close>

text \<open>The result is \<open>None\<close> only if the bound on the rounds of \<open>Prune\<close> was used up.\<close>
definition Execute :: "nat \<Rightarrow> ('r, 'i, 'h, 'w) host \<Rightarrow> process \<Rightarrow> (nat \<Rightarrow> nat \<Rightarrow> readings) \<Rightarrow>
    ('r, 'w, go_error option option) cli_prog" where
  "Execute fuel h ps clock =
     (case ps_parse ps of
        Inl err \<Rightarrow> ret (Some (Some err))
      | Inr iv \<Rightarrow>
          (case iv_command iv of
             None \<Rightarrow> ret (Some None)
           | Some MountCmd \<Rightarrow>
               bind (mountCmd h (parsed_flags ps iv) clock (parsed_options ps iv) (iv_args iv)) (\<lambda>err. ret (Some err))
           | Some UmountCmd \<Rightarrow>
               bind (runUnmountCmd h (parsed_flags ps iv) clock (parsed_options ps iv) (iv_args iv)) (\<lambda>err. ret (Some err))
           | Some PruneCmd \<Rightarrow> runPruneCmd fuel h (parsed_flags ps iv)))"

text \<open>The exit code; \<^verbatim>\<open>logrus.Fatal\<close> exits with 1.\<close>
definition layerfs_main :: "nat \<Rightarrow> ('r, 'i, 'h, 'w) host \<Rightarrow> process \<Rightarrow> (nat \<Rightarrow> nat \<Rightarrow> readings) \<Rightarrow>
    ('r, 'w, nat option) cli_prog" where
  "layerfs_main fuel h ps clock =
     (if ps_InitReexec ps then ret (Some 0)
      else bind (Execute fuel h ps clock) (\<lambda>r. ret (map_option (\<lambda>err. if err \<noteq> None then 1 else 0) r)))"

section \<open>Signals\<close>

text \<open>
  The goroutine of \<open>newContext\<close>.  \<open>sg_pc\<close> counts the signals it has received, \<open>sg_buffered\<close> those waiting in the
  channel, whose capacity is one: the runtime drops a signal that finds it full.
\<close>
record signal_state =
  sg_arrived :: nat
  sg_buffered :: nat
  sg_pc :: nat
  sg_cancelled :: bool
  sg_exit :: "nat option"

definition newContext :: signal_state where
  "newContext = \<lparr>sg_arrived = 0, sg_buffered = 0, sg_pc = 0, sg_cancelled = False, sg_exit = None\<rparr>"

definition deliver :: "signal_state \<Rightarrow> signal_state" where
  "deliver s = s\<lparr>sg_arrived := sg_arrived s + 1, sg_buffered := if sg_buffered s < 1 then sg_buffered s + 1 else sg_buffered s\<rparr>"

text \<open>\<^verbatim>\<open><-sigs\<close> and what follows it.\<close>
definition receive :: "signal_state \<Rightarrow> signal_state" where
  "receive s =
     (if sg_buffered s = 0 \<or> sg_exit s \<noteq> None then s
      else let s = s\<lparr>sg_buffered := sg_buffered s - 1, sg_pc := sg_pc s + 1\<rparr>
           in if sg_pc s = 1 then s\<lparr>sg_cancelled := True\<rparr> else s\<lparr>sg_exit := Some 254\<rparr>)"

inductive signal_reach :: "signal_state \<Rightarrow> bool" where
  started: "signal_reach newContext"
| delivered: "signal_reach s \<Longrightarrow> sg_exit s = None \<Longrightarrow> signal_reach (deliver s)"
| received: "signal_reach s \<Longrightarrow> signal_reach (receive s)"

section \<open>What the process does\<close>

lemma signal_invariant:
  assumes "signal_reach s"
  shows "sg_buffered s \<le> 1 \<and> sg_pc s + sg_buffered s \<le> sg_arrived s \<and> (sg_cancelled s \<longleftrightarrow> 1 \<le> sg_pc s)
    \<and> sg_exit s = (if 2 \<le> sg_pc s then Some 254 else None)"
  using assms
  by induction (auto simp: newContext_def deliver_def receive_def Let_def)

text \<open>
  The context is cancelled only by a signal, and the process is ended only by a second one, with
  code 254 and after the context was cancelled.
\<close>
theorem second_signal_exits:
  assumes "signal_reach s"
  shows "(sg_arrived s = 0 \<longrightarrow> \<not> sg_cancelled s) \<and> (sg_exit s \<noteq> None \<longrightarrow> 2 \<le> sg_arrived s \<and> sg_cancelled s \<and> sg_exit s = Some 254)
    \<and> (sg_exit s = None \<and> sg_buffered s = 0 \<longrightarrow>
         sg_cancelled (receive (deliver s)) \<and> (sg_cancelled s \<longrightarrow> sg_exit (receive (deliver s)) = Some 254))"
  using signal_invariant [OF assms] by (auto simp: deliver_def receive_def Let_def split: if_splits)

lemma Execute_mount:
  assumes "ps_parse ps = Inr iv" "iv_command iv = Some MountCmd"
  shows "tspec (Execute fuel h ps clock) (\<lambda>r t. mount_run (with_mount_dir (iv_args iv) (parsed_options ps iv))
    (fl_mode (parsed_flags ps iv)) (r = Ret (Some None)) t)"
  unfolding Execute_def assms sum.case option.case command.case
  by (rule tspec_bind [OF mountCmd_run]) (auto intro!: tspec_ret)

lemma layerfs_main_mount:
  assumes "ps_parse ps = Inr iv" "iv_command iv = Some MountCmd" "\<not> ps_InitReexec ps"
  shows "tspec (layerfs_main fuel h ps clock) (\<lambda>r t. mount_run (with_mount_dir (iv_args iv) (parsed_options ps iv))
    (fl_mode (parsed_flags ps iv)) (r = Ret (Some 0)) t)"
  unfolding layerfs_main_def if_not_P [OF assms(3)]
  by (rule tspec_bind [OF Execute_mount [OF assms(1,2)]]) (auto intro!: tspec_ret split: if_splits)







end
