(* ===== verification/GoHeap.thy ===== *)
theory GoHeap
  imports GoPrelude "HOL-Library.Sublist"
begin

text \<open>
  Memory of Go programs, as far as copying needs it.  A heap is the list of the arrays that have been
  allocated; the address of an array is its position, so that allocation appends.  A pointer is an array with an
  index, a slice an array with an offset and a length, and a map is an array with one cell that holds the
  entries; each may be nil.  Structs hold their fields by name and are values.

  Types say how far a value extends: \<open>view\<close> reads the whole value as a tree, which exists exactly if the
  value has the type, and \<open>reach\<close> is the set of the arrays it extends over.  A \<open>deep_copier\<close> gives an equal tree over new arrays only.
\<close>

section \<open>Values, types and trees\<close>

datatype gval =
    Basic string
  | Ptr "(nat \<times> nat) option"
  | Slice "(nat \<times> nat \<times> nat) option"
  | MapRef "nat option"
  | Struct "(string \<times> gval) list"

type_synonym heap = "gval list list"

datatype gtype =
    TBasic
  | TPtr gtype
  | TSlice gtype
  | TMap gtype
  | TStruct "(string \<times> gtype) list"

datatype tree =
    Atom string
  | NilTree
  | Pointee tree
  | Elems "tree list"
  | Fields "(string \<times> tree) list"

text \<open>The arrays that exist, and the parts of them that a pointer or a slice refers to.\<close>
definition cell :: "heap \<Rightarrow> nat \<times> nat \<Rightarrow> gval option" where
  "cell h l = (case l of (a, i) \<Rightarrow> if a < length h \<and> i < length (h ! a) then Some (h ! a ! i) else None)"

definition section_of :: "heap \<Rightarrow> nat \<times> nat \<times> nat \<Rightarrow> gval list option" where
  "section_of h s = (case s of (a, off, n) \<Rightarrow>
     if a < length h \<and> off + n \<le> length (h ! a) then Some (take n (drop off (h ! a))) else None)"

definition entries_of :: "heap \<Rightarrow> nat \<Rightarrow> (string \<times> gval) list option" where
  "entries_of h a = (if a < length h then case h ! a of [Struct fs] \<Rightarrow> Some fs | _ \<Rightarrow> None else None)"

fun view :: "heap \<Rightarrow> gtype \<Rightarrow> gval \<Rightarrow> tree option"
  and view_fields :: "heap \<Rightarrow> (string \<times> gtype) list \<Rightarrow> (string \<times> gval) list \<Rightarrow> (string \<times> tree) list option" where
  "view h TBasic v = (case v of Basic x \<Rightarrow> Some (Atom x) | _ \<Rightarrow> None)"
| "view h (TPtr t) v =
     (case v of
        Ptr None \<Rightarrow> Some NilTree
      | Ptr (Some l) \<Rightarrow> Option.bind (cell h l) (\<lambda>x. map_option Pointee (view h t x))
      | _ \<Rightarrow> None)"
| "view h (TSlice t) v =
     (case v of
        Slice None \<Rightarrow> Some NilTree
      | Slice (Some s) \<Rightarrow> Option.bind (section_of h s) (\<lambda>xs. map_option Elems (those (map (\<lambda>x. view h t x) xs)))
      | _ \<Rightarrow> None)"
| "view h (TMap t) v =
     (case v of
        MapRef None \<Rightarrow> Some NilTree
      | MapRef (Some a) \<Rightarrow> Option.bind (entries_of h a) (\<lambda>fs.
          map_option (\<lambda>xs. Fields (zip (map fst fs) xs)) (those (map (\<lambda>f. view h t (snd f)) fs)))
      | _ \<Rightarrow> None)"
| "view h (TStruct ts) v = (case v of Struct fs \<Rightarrow> map_option Fields (view_fields h ts fs) | _ \<Rightarrow> None)"
| "view_fields h [] fs = (if fs = [] then Some [] else None)"
| "view_fields h (t # ts) fs =
     (case fs of
        [] \<Rightarrow> None
      | f # fs' \<Rightarrow>
          if fst f = fst t then
            (case view h (snd t) (snd f) of
               None \<Rightarrow> None
             | Some x \<Rightarrow> map_option (\<lambda>xs. (fst t, x) # xs) (view_fields h ts fs'))
          else None)"

fun reach :: "heap \<Rightarrow> gtype \<Rightarrow> gval \<Rightarrow> nat set"
  and reach_fields :: "heap \<Rightarrow> (string \<times> gtype) list \<Rightarrow> (string \<times> gval) list \<Rightarrow> nat set" where
  "reach h TBasic v = {}"
| "reach h (TPtr t) v =
     (case v of
        Ptr (Some l) \<Rightarrow> insert (fst l) (case cell h l of None \<Rightarrow> {} | Some x \<Rightarrow> reach h t x)
      | _ \<Rightarrow> {})"
| "reach h (TSlice t) v =
     (case v of
        Slice (Some s) \<Rightarrow> insert (fst s) (case section_of h s of None \<Rightarrow> {} | Some xs \<Rightarrow> \<Union> (set (map (\<lambda>x. reach h t x) xs)))
      | _ \<Rightarrow> {})"
| "reach h (TMap t) v =
     (case v of
        MapRef (Some a) \<Rightarrow> insert a (case entries_of h a of None \<Rightarrow> {} | Some fs \<Rightarrow> \<Union> (set (map (\<lambda>f. reach h t (snd f)) fs)))
      | _ \<Rightarrow> {})"
| "reach h (TStruct ts) v = (case v of Struct fs \<Rightarrow> reach_fields h ts fs | _ \<Rightarrow> {})"
| "reach_fields h [] fs = {}"
| "reach_fields h (t # ts) fs =
     (case fs of [] \<Rightarrow> {} | f # fs' \<Rightarrow> reach h (snd t) (snd f) \<union> reach_fields h ts fs')"

text \<open>Types without references: their values are copied by an assignment.\<close>
fun flat :: "gtype \<Rightarrow> bool"
  and flat_fields :: "(string \<times> gtype) list \<Rightarrow> bool" where
  "flat TBasic = True"
| "flat (TPtr _) = False"
| "flat (TSlice _) = False"
| "flat (TMap _) = False"
| "flat (TStruct ts) = flat_fields ts"
| "flat_fields [] = True"
| "flat_fields (t # ts) \<longleftrightarrow> flat (snd t) \<and> flat_fields ts"

section \<open>Copying\<close>

type_synonym copier = "gval \<Rightarrow> heap \<Rightarrow> gval \<times> heap"

text \<open>\<^verbatim>\<open>*out = *in\<close>\<close>
definition assign :: copier where
  "assign v h = (v, h)"

text \<open>
  \<^verbatim>\<open>if in != nil { *out = new(T); (*in).DeepCopyInto(*out) }\<close>.  That the pointee is written after it was
  allocated cannot be seen, and the model allocates it with its value.
\<close>
definition copy_ptr :: "copier \<Rightarrow> copier" where
  "copy_ptr dc v h =
     (case v of
        Ptr (Some l) \<Rightarrow>
          (case cell h l of
             None \<Rightarrow> (v, h)
           | Some x \<Rightarrow> (case dc x h of (x', h') \<Rightarrow> (Ptr (Some (length h', 0)), h' @ [[x']])))
      | _ \<Rightarrow> (v, h))"

fun copy_elems :: "copier \<Rightarrow> gval list \<Rightarrow> heap \<Rightarrow> gval list \<times> heap" where
  "copy_elems dc [] h = ([], h)"
| "copy_elems dc (x # xs) h =
     (case dc x h of (x', h1) \<Rightarrow> case copy_elems dc xs h1 of (xs', h2) \<Rightarrow> (x' # xs', h2))"

text \<open>\<^verbatim>\<open>if in != nil { *out = make([]T, len(*in)); for i := range *in { (*in)[i].DeepCopyInto(&(*out)[i]) } }\<close>\<close>
definition copy_slice :: "copier \<Rightarrow> copier" where
  "copy_slice dc v h =
     (case v of
        Slice (Some s) \<Rightarrow>
          (case section_of h s of
             None \<Rightarrow> (v, h)
           | Some xs \<Rightarrow> (case copy_elems dc xs h of (xs', h') \<Rightarrow> (Slice (Some (length h', 0, length xs')), h' @ [xs'])))
      | _ \<Rightarrow> (v, h))"

fun set_field :: "string \<Rightarrow> gval \<Rightarrow> (string \<times> gval) list \<Rightarrow> (string \<times> gval) list" where
  "set_field f x [] = []"
| "set_field f x ((g, y) # fs) = (if g = f then (g, x) # fs else (g, y) # set_field f x fs)"

text \<open>\<^verbatim>\<open>*out = *in\<close>, followed by copying single fields.\<close>
fun copy_fields :: "(string \<times> copier) list \<Rightarrow> copier" where
  "copy_fields [] v h = (v, h)"
| "copy_fields ((f, dc) # os) v h =
     (case v of
        Struct fs \<Rightarrow>
          (case map_of fs f of
             None \<Rightarrow> copy_fields os v h
           | Some x \<Rightarrow> (case dc x h of (x', h') \<Rightarrow> copy_fields os (Struct (set_field f x' fs)) h'))
      | _ \<Rightarrow> (v, h))"

section \<open>The contract of a copy\<close>

definition deep_copy :: "gtype \<Rightarrow> gval \<Rightarrow> heap \<Rightarrow> gval \<times> heap \<Rightarrow> bool" where
  "deep_copy t v h r \<longleftrightarrow>
     (case r of (v', h') \<Rightarrow>
        prefix h h' \<and> view h' t v' = view h t v \<and> reach h' t v' \<subseteq> {length h..<length h'})"

definition deep_copier :: "gtype \<Rightarrow> copier \<Rightarrow> bool" where
  "deep_copier t dc \<longleftrightarrow> (\<forall>v h. view h t v \<noteq> None \<longrightarrow> deep_copy t v h (dc v h))"

section \<open>Reading depends on the reachable arrays only\<close>

lemma those_eq_Some: "those xs = Some ys \<longleftrightarrow> xs = map Some ys"
  by (induction xs arbitrary: ys) (auto split: option.splits simp: Cons_eq_map_conv)

lemma those_defined: "those (map f xs) \<noteq> None \<longleftrightarrow> (\<forall>x\<in>set xs. f x \<noteq> None)"
  by (induction xs) (auto split: option.splits)

lemma those_cong: "(\<And>x. x \<in> set xs \<Longrightarrow> f x = g x) \<Longrightarrow> those (map f xs) = those (map g xs)"
  by (induction xs) (auto split: option.splits)

definition agree :: "nat set \<Rightarrow> heap \<Rightarrow> heap \<Rightarrow> bool" where
  "agree A h h' \<longleftrightarrow> (\<forall>a\<in>A. a < length h \<longrightarrow> a < length h' \<and> h' ! a = h ! a)"

lemma agree_mono: "agree A h h' \<Longrightarrow> B \<subseteq> A \<Longrightarrow> agree B h h'"
  by (auto simp: agree_def)

lemma agree_Un [simp]: "agree (A \<union> B) h h' \<longleftrightarrow> agree A h h' \<and> agree B h h'"
  by (auto simp: agree_def)

lemma agree_prefix: "prefix h h' \<Longrightarrow> agree A h h'"
  by (auto simp: agree_def prefix_def nth_append)

lemma agree_update: "a \<notin> A \<Longrightarrow> agree A h (h[a := xs])"
  unfolding agree_def by (metis length_list_update nth_list_update_neq)

lemma agree_cell: "agree {fst l} h h' \<Longrightarrow> cell h l = Some x \<Longrightarrow> cell h' l = Some x"
  by (auto simp: agree_def cell_def split: prod.splits if_splits)

lemma agree_section: "agree {fst s} h h' \<Longrightarrow> section_of h s = Some xs \<Longrightarrow> section_of h' s = Some xs"
  by (auto simp: agree_def section_of_def split: prod.splits if_splits)

lemma agree_entries: "agree {a} h h' \<Longrightarrow> entries_of h a = Some fs \<Longrightarrow> entries_of h' a = Some fs"
  by (auto simp: agree_def entries_of_def split: if_splits)

text \<open>What a reference of a type refers to.\<close>
lemma view_defined:
  "view h (TPtr t) (Ptr (Some l)) \<noteq> None \<Longrightarrow> \<exists>x. cell h l = Some x \<and> view h t x \<noteq> None"
  "view h (TSlice t) (Slice (Some s)) \<noteq> None \<Longrightarrow> \<exists>xs. section_of h s = Some xs \<and> (\<forall>x\<in>set xs. view h t x \<noteq> None)"
  "view h (TMap t) (MapRef (Some a)) \<noteq> None \<Longrightarrow> \<exists>fs. entries_of h a = Some fs \<and> (\<forall>f\<in>set fs. view h t (snd f) \<noteq> None)"
proof -
  assume "view h (TPtr t) (Ptr (Some l)) \<noteq> None"
  then show "\<exists>x. cell h l = Some x \<and> view h t x \<noteq> None" by (cases "cell h l") auto
next
  assume "view h (TSlice t) (Slice (Some s)) \<noteq> None"
  then show "\<exists>xs. section_of h s = Some xs \<and> (\<forall>x\<in>set xs. view h t x \<noteq> None)"
    using those_defined [of "view h t"] by (cases "section_of h s") auto
next
  assume "view h (TMap t) (MapRef (Some a)) \<noteq> None"
  then show "\<exists>fs. entries_of h a = Some fs \<and> (\<forall>f\<in>set fs. view h t (snd f) \<noteq> None)"
    using those_defined [of "\<lambda>f. view h t (snd f)"] by (cases "entries_of h a") auto
qed

lemma view_frame:
  "view h t v \<noteq> None \<Longrightarrow> agree (reach h t v) h h' \<Longrightarrow> view h' t v = view h t v \<and> reach h' t v = reach h t v"
  "view_fields h ts fs \<noteq> None \<Longrightarrow> agree (reach_fields h ts fs) h h' \<Longrightarrow>
     view_fields h' ts fs = view_fields h ts fs \<and> reach_fields h' ts fs = reach_fields h ts fs"
proof (induction h t v and h ts fs rule: view_view_fields.induct)
  case (2 h t v)
  show ?case
  proof (cases "\<exists>l. v = Ptr (Some l)")
    case True
    then obtain l where v: "v = Ptr (Some l)" by blast
    with 2(2) obtain x where x: "cell h l = Some x" "view h t x \<noteq> None"
      using view_defined(1) by blast
    with v 2(3) have "agree {fst l} h h'" "agree (reach h t x) h h'" by (auto elim: agree_mono)
    with 2(1) [OF v refl x] x v agree_cell show ?thesis by fastforce
  qed (use 2 in \<open>auto split: gval.splits option.splits\<close>)
next
  case (3 h t v)
  show ?case
  proof (cases "\<exists>s. v = Slice (Some s)")
    case True
    then obtain s where v: "v = Slice (Some s)" by blast
    with 3(2) obtain xs where xs: "section_of h s = Some xs" "\<And>x. x \<in> set xs \<Longrightarrow> view h t x \<noteq> None"
      using view_defined(2) by blast
    have ag: "agree {fst s} h h'" "\<And>x. x \<in> set xs \<Longrightarrow> agree (reach h t x) h h'"
      using 3(3) v xs(1) by (auto elim!: agree_mono)
    have eq: "view h' t x = view h t x \<and> reach h' t x = reach h t x" if "x \<in> set xs" for x
      using 3(1) [OF v refl xs(1) that xs(2) [OF that] ag(2) [OF that]] .
    then have "those (map (view h' t) xs) = those (map (view h t) xs)" by (intro those_cong) simp
    with eq agree_section [OF ag(1) xs(1)] xs(1) v show ?thesis by simp
  qed (use 3 in \<open>auto split: gval.splits option.splits\<close>)
next
  case (4 h t v)
  show ?case
  proof (cases "\<exists>a. v = MapRef (Some a)")
    case True
    then obtain a where v: "v = MapRef (Some a)" by blast
    with 4(2) obtain fs where fs: "entries_of h a = Some fs" "\<And>f. f \<in> set fs \<Longrightarrow> view h t (snd f) \<noteq> None"
      using view_defined(3) by blast
    have ag: "agree {a} h h'" "\<And>f. f \<in> set fs \<Longrightarrow> agree (reach h t (snd f)) h h'"
      using 4(3) v fs(1) by (auto elim!: agree_mono)
    have eq: "view h' t (snd f) = view h t (snd f) \<and> reach h' t (snd f) = reach h t (snd f)" if "f \<in> set fs" for f
      using 4(1) [OF v refl fs(1) that fs(2) [OF that] ag(2) [OF that]] .
    then have "those (map (\<lambda>f. view h' t (snd f)) fs) = those (map (\<lambda>f. view h t (snd f)) fs)" by (intro those_cong) simp
    with eq agree_entries [OF ag(1) fs(1)] fs(1) v show ?thesis by simp
  qed (use 4 in \<open>auto split: gval.splits option.splits\<close>)
qed (auto split: gval.splits list.splits option.splits if_splits)

lemma view_prefix:
  assumes "prefix h h'" "view h t v \<noteq> None"
  shows "view h' t v = view h t v" "reach h' t v = reach h t v"
  using view_frame(1) [OF assms(2) agree_prefix [OF assms(1)]] by blast+

lemma view_update:
  assumes "a \<notin> reach h t v" "view h t v \<noteq> None"
  shows "view (h[a := xs]) t v = view h t v" "reach (h[a := xs]) t v = reach h t v"
  using view_frame(1) [OF assms(2) agree_update [OF assms(1)]] by blast+

lemma reach_bound:
  "view h t v \<noteq> None \<Longrightarrow> reach h t v \<subseteq> {..<length h}"
  "view_fields h ts fs \<noteq> None \<Longrightarrow> reach_fields h ts fs \<subseteq> {..<length h}"
proof (induction h t v and h ts fs rule: view_view_fields.induct)
  case (2 h t v)
  then show ?case by (auto simp: cell_def split: gval.splits option.splits if_splits prod.splits)
next
  case (3 h t v)
  show ?case
  proof (cases "\<exists>s. v = Slice (Some s)")
    case True
    then obtain s where v: "v = Slice (Some s)" by blast
    with 3(2) obtain xs where xs: "section_of h s = Some xs" "\<And>x. x \<in> set xs \<Longrightarrow> view h t x \<noteq> None"
      using view_defined(2) by blast
    have "fst s < length h" using xs(1) by (auto simp: section_of_def split: prod.splits if_splits)
    with 3(1) [OF v refl xs(1) _ xs(2)] xs(1) v show ?thesis by auto
  qed (auto split: gval.splits option.splits)
next
  case (4 h t v)
  show ?case
  proof (cases "\<exists>a. v = MapRef (Some a)")
    case True
    then obtain a where v: "v = MapRef (Some a)" by blast
    with 4(2) obtain fs where fs: "entries_of h a = Some fs" "\<And>f. f \<in> set fs \<Longrightarrow> view h t (snd f) \<noteq> None"
      using view_defined(3) by blast
    have "a < length h" using fs(1) by (auto simp: entries_of_def split: if_splits)
    with 4(1) [OF v refl fs(1) _ fs(2)] fs(1) v show ?thesis by auto
  qed (auto split: gval.splits option.splits)
qed (fastforce split: gval.splits list.splits option.splits if_splits)+

lemma flat_reach:
  "flat t \<Longrightarrow> reach h t v = {}"
  "flat_fields ts \<Longrightarrow> reach_fields h ts fs = {}"
  by (induction h t v and h ts fs rule: reach_reach_fields.induct) (auto split: gval.splits list.splits)

section \<open>Deep copies are made of deep copies\<close>

lemma deep_copierD:
  assumes "deep_copier t dc" "view h t v \<noteq> None" "dc v h = (v', h')"
  shows "prefix h h'" "view h' t v' = view h t v" "reach h' t v' \<subseteq> {length h..<length h'}"
  using assms unfolding deep_copier_def deep_copy_def by fastforce+

lemma deep_copier_assign: "flat t \<Longrightarrow> deep_copier t assign"
  by (simp add: deep_copier_def deep_copy_def assign_def flat_reach)

lemma deep_copier_ptr:
  assumes "deep_copier t dc"
  shows "deep_copier (TPtr t) (copy_ptr dc)"
  unfolding deep_copier_def
proof (intro allI impI)
  fix v h
  assume defined: "view h (TPtr t) v \<noteq> None"
  show "deep_copy (TPtr t) v h (copy_ptr dc v h)"
  proof (cases "\<exists>l. v = Ptr (Some l)")
    case True
    with defined obtain l x where x: "v = Ptr (Some l)" "cell h l = Some x" "view h t x \<noteq> None"
      using view_defined(1) by blast
    obtain x' h' where c: "dc x h = (x', h')" by fastforce
    note d = deep_copierD [OF assms x(3) c]
    have "prefix h' (h' @ [[x']])" "view h' t x' \<noteq> None" using d(2) x(3) by simp_all
    note f = view_prefix [OF this]
    have "cell (h' @ [[x']]) (length h', 0) = Some x'" by (simp add: cell_def)
    with d x c f show ?thesis
      by (auto simp: deep_copy_def copy_ptr_def dest: prefix_length_le intro: prefix_order.trans)
  next
    case False
    with defined show ?thesis by (auto simp: deep_copy_def copy_ptr_def split: gval.splits option.splits)
  qed
qed

lemma copy_elems_copies:
  assumes "deep_copier t dc" "\<And>x. x \<in> set xs \<Longrightarrow> view h t x \<noteq> None" "copy_elems dc xs h = (xs', h')"
  shows "prefix h h' \<and> map (view h' t) xs' = map (view h t) xs \<and> (\<forall>x\<in>set xs'. reach h' t x \<subseteq> {length h..<length h'})"
  using assms(2,3)
proof (induction xs arbitrary: h xs' h')
  case (Cons x xs)
  obtain x1 h1 xs2 h2 where c: "dc x h = (x1, h1)" "copy_elems dc xs h1 = (xs2, h2)" by fastforce
  have "view h t x \<noteq> None" using Cons.prems(1) by simp
  note d = deep_copierD [OF assms(1) this c(1)]
  have same: "view h1 t y = view h t y" if "y \<in> set xs" for y
    using view_prefix(1) [OF d(1)] Cons.prems(1) that by simp
  have "view h1 t y \<noteq> None" if "y \<in> set xs" for y using same that Cons.prems(1) by simp
  note r = Cons.IH [OF this c(2)]
  have "prefix h1 h2" "view h1 t x1 \<noteq> None" using r d(2) Cons.prems(1) by auto
  note k = view_prefix [OF this]
  have "length h \<le> length h1" "length h1 \<le> length h2"
    using prefix_length_le d(1) r by blast+
  with k r d same c Cons.prems(2) show ?case by (fastforce intro: prefix_order.trans)
qed simp

lemma deep_copier_slice:
  assumes "deep_copier t dc"
  shows "deep_copier (TSlice t) (copy_slice dc)"
  unfolding deep_copier_def
proof (intro allI impI)
  fix v h
  assume defined: "view h (TSlice t) v \<noteq> None"
  show "deep_copy (TSlice t) v h (copy_slice dc v h)"
  proof (cases "\<exists>s. v = Slice (Some s)")
    case True
    with defined obtain s xs where v: "v = Slice (Some s)" "section_of h s = Some xs"
      and xs: "\<And>x. x \<in> set xs \<Longrightarrow> view h t x \<noteq> None"
      using view_defined(2) by blast
    obtain ys h' where c: "copy_elems dc xs h = (ys, h')" by fastforce
    note d = copy_elems_copies [OF assms xs c]
    have ext: "prefix h' (h' @ [ys])" by simp
    have ys: "view h' t y \<noteq> None" if "y \<in> set ys" for y
      using d xs that by (metis in_set_conv_nth length_map nth_map)
    have "map (view (h' @ [ys]) t) ys = map (view h' t) ys" "\<forall>y\<in>set ys. reach (h' @ [ys]) t y = reach h' t y"
      using view_prefix [OF ext ys] by auto
    moreover have "section_of (h' @ [ys]) (length h', 0, length ys) = Some ys" by (simp add: section_of_def)
    ultimately show ?thesis using d v c
      by (fastforce simp: deep_copy_def copy_slice_def dest: prefix_length_le intro: prefix_order.trans)
  next
    case False
    with defined show ?thesis by (auto simp: deep_copy_def copy_slice_def split: gval.splits option.splits)
  qed
qed

lemma map_of_set_field: "map_of (set_field f x fs) g = (if g = f \<and> map_of fs f \<noteq> None then Some x else map_of fs g)"
  by (induction f x fs rule: set_field.induct) auto

text \<open>Reading and the extent of a struct, field by field.\<close>
lemma view_fields_names: "view_fields h ts fs \<noteq> None \<Longrightarrow> map fst fs = map fst ts"
  by (induction ts arbitrary: fs) (auto split: list.splits option.splits if_splits)

lemma view_field:
  "view_fields h ts fs \<noteq> None \<Longrightarrow> map_of ts f = Some t \<Longrightarrow> \<exists>x. map_of fs f = Some x \<and> view h t x \<noteq> None"
  by (induction ts arbitrary: fs) (auto split: list.splits option.splits if_splits)

lemma view_set_field:
  assumes "view_fields h ts fs \<noteq> None" "distinct (map fst ts)" "map_of ts f = Some t" "map_of fs f = Some x"
    and "view h t x' = view h t x"
  shows "view_fields h ts (set_field f x' fs) = view_fields h ts fs"
  using assms
  by (induction ts arbitrary: fs) (auto split: list.splits option.splits if_splits dest: weak_map_of_SomeI)

lemma reach_field:
  assumes "a \<in> reach_fields h ts fs" "map fst fs = map fst ts" "distinct (map fst ts)"
  shows "\<exists>f t x. map_of ts f = Some t \<and> map_of fs f = Some x \<and> a \<in> reach h t x"
  using assms
proof (induction ts arbitrary: fs)
  case (Cons t ts)
  then obtain g y fs' where fs: "fs = (g, y) # fs'" "g = fst t" "map fst fs' = map fst ts" by (cases fs) auto
  show ?case
  proof (cases "a \<in> reach h (snd t) y")
    case True
    with fs show ?thesis by (intro exI [of _ g] exI [of _ "snd t"] exI [of _ y]) (cases t, simp)
  next
    case False
    with Cons.prems fs Cons.IH [of fs'] obtain f u x
      where "map_of ts f = Some u" "map_of fs' f = Some x" "a \<in> reach h u x" by fastforce
    moreover from this(1) Cons.prems(3) have "f \<noteq> fst t"
      using map_of_SomeD [of ts f u] by (auto simp: image_iff)
    ultimately show ?thesis using fs by (intro exI [of _ f] exI [of _ u] exI [of _ x]) (cases t, simp)
  qed
qed simp

text \<open>The fields outside \<open>os\<close> extend over new arrays only.\<close>
definition fresh_fields :: "nat \<Rightarrow> string set \<Rightarrow> heap \<Rightarrow> (string \<times> gtype) list \<Rightarrow> (string \<times> gval) list \<Rightarrow> bool" where
  "fresh_fields n os h ts fs \<longleftrightarrow>
     (\<forall>f t x. f \<notin> os \<longrightarrow> map_of ts f = Some t \<longrightarrow> map_of fs f = Some x \<longrightarrow> (\<forall>a\<in>reach h t x. n \<le> a))"

text \<open>Copying one field.\<close>
lemma copy_one_field:
  assumes ts: "distinct (map fst ts)" and fs: "view_fields h ts fs \<noteq> None"
    and f: "map_of ts f = Some t" "map_of fs f = Some x" and dc: "deep_copier t dc" "dc x h = (x', h')"
    and fresh: "fresh_fields n (insert f os) h ts fs" "n \<le> length h"
  shows "view_fields h' ts (set_field f x' fs) = view_fields h ts fs" "fresh_fields n os h' ts (set_field f x' fs)"
proof -
  have defined: "view h t x \<noteq> None" using view_field [OF fs f(1)] f(2) by auto
  note d = deep_copierD [OF dc(1) defined dc(2)]
  note all = view_frame(2) [OF fs agree_prefix [OF d(1)]]
  have "view h' t x' = view h' t x" using d(2) view_prefix(1) [OF d(1) defined] by simp
  with view_set_field [OF _ ts f, of h'] all fs
  show "view_fields h' ts (set_field f x' fs) = view_fields h ts fs" by simp
  show "fresh_fields n os h' ts (set_field f x' fs)"
    unfolding fresh_fields_def
  proof (intro allI impI ballI)
    fix g u y a
    assume g: "g \<notin> os" "map_of ts g = Some u" "map_of (set_field f x' fs) g = Some y" "a \<in> reach h' u y"
    show "n \<le> a"
    proof (cases "g = f")
      case True
      with g f have "u = t" "y = x'" by (auto simp: map_of_set_field split: if_splits)
      with d(3) g(4) fresh(2) show ?thesis by auto
    next
      case False
      with g(3) have y: "map_of fs g = Some y" by (simp add: map_of_set_field)
      with view_field [OF fs g(2)] have "view h u y \<noteq> None" by auto
      with view_prefix(2) [OF d(1)] g(4) have "a \<in> reach h u y" by simp
      with fresh(1) False g y show ?thesis unfolding fresh_fields_def by blast
    qed
  qed
qed

lemma copy_fields_copies:
  assumes "distinct (map fst ts)" "distinct (map fst os)"
    and "\<And>f dc. (f, dc) \<in> set os \<Longrightarrow> \<exists>t. map_of ts f = Some t \<and> deep_copier t dc"
    and "view_fields h ts fs \<noteq> None" "fresh_fields n (fst ` set os) h ts fs" "n \<le> length h"
  shows "\<exists>fs' h'. copy_fields os (Struct fs) h = (Struct fs', h') \<and> prefix h h'
    \<and> view_fields h' ts fs' = view_fields h ts fs \<and> fresh_fields n {} h' ts fs'"
  using assms(2-6)
proof (induction os arbitrary: fs h)
  case (Cons o1 os)
  obtain f dc where o1: "o1 = (f, dc)" by (cases o1)
  with Cons.prems(2) obtain t where t: "map_of ts f = Some t" "deep_copier t dc" by auto
  from view_field [OF Cons.prems(3) t(1)] obtain x where x: "map_of fs f = Some x" "view h t x \<noteq> None" by blast
  obtain x' h1 where c: "dc x h = (x', h1)" by fastforce
  have "fresh_fields n (insert f (fst ` set os)) h ts fs" using Cons.prems(4) o1 by simp
  note one = copy_one_field [OF assms(1) Cons.prems(3) t(1) x(1) t(2) c this Cons.prems(5)]
  have p: "prefix h h1" by (rule deep_copierD(1) [OF t(2) x(2) c])
  then have "n \<le> length h1" using Cons.prems(5) prefix_length_le by fastforce
  then obtain fs' h' where "copy_fields os (Struct (set_field f x' fs)) h1 = (Struct fs', h')" "prefix h1 h'"
      "view_fields h' ts fs' = view_fields h1 ts (set_field f x' fs)" "fresh_fields n {} h' ts fs'"
    using Cons.IH [OF _ _ _ one(2)] Cons.prems(1-3) one(1) o1 by auto
  with p one(1) o1 x(1) c show ?case by (auto intro: prefix_order.trans)
qed (auto simp: fresh_fields_def)

text \<open>
  The code of a generated \<^verbatim>\<open>DeepCopyInto\<close>: every field that has references must be copied, and the others
  may be left to the assignment.
\<close>
lemma deep_copier_struct:
  assumes "distinct (map fst ts)" "distinct (map fst os)"
    and "\<And>f dc. (f, dc) \<in> set os \<Longrightarrow> \<exists>t. map_of ts f = Some t \<and> deep_copier t dc"
    and "\<And>f t. (f, t) \<in> set ts \<Longrightarrow> f \<in> fst ` set os \<or> flat t"
  shows "deep_copier (TStruct ts) (copy_fields os)"
  unfolding deep_copier_def
proof (intro allI impI)
  fix v h
  assume "view h (TStruct ts) v \<noteq> None"
  then obtain fs where v: "v = Struct fs" and fs: "view_fields h ts fs \<noteq> None" by (cases v) auto
  have "fresh_fields (length h) (fst ` set os) h ts fs"
    unfolding fresh_fields_def using assms(4) flat_reach(1) map_of_SomeD by (metis empty_iff)
  from copy_fields_copies [OF assms(1-3) fs this order.refl] obtain fs' h' where
    c: "copy_fields os (Struct fs) h = (Struct fs', h')" "prefix h h'"
      "view_fields h' ts fs' = view_fields h ts fs" "fresh_fields (length h) {} h' ts fs'" by blast
  have defined: "view_fields h' ts fs' \<noteq> None" using c(3) fs by simp
  have "length h \<le> a" if "a \<in> reach_fields h' ts fs'" for a
    using reach_field [OF that view_fields_names [OF defined] assms(1)] c(4) unfolding fresh_fields_def by blast
  with reach_bound(2) [OF defined] c v show "deep_copy (TStruct ts) v h (copy_fields os v h)"
    by (auto simp: deep_copy_def)
qed

text \<open>The same as a check that can be computed.\<close>
fun covers :: "(string \<times> copier) list \<Rightarrow> (string \<times> gtype) list \<Rightarrow> bool" where
  "covers os [] \<longleftrightarrow> True"
| "covers os ((f, t) # ts) \<longleftrightarrow>
     (case map_of os f of Some dc \<Rightarrow> deep_copier t dc | None \<Rightarrow> flat t) \<and> covers os ts"

lemma coversD: "covers os ts \<Longrightarrow> (f, t) \<in> set ts \<Longrightarrow> (case map_of os f of Some dc \<Rightarrow> deep_copier t dc | None \<Rightarrow> flat t)"
  by (induction os ts rule: covers.induct) auto

lemma deep_copier_code:
  assumes "distinct (map fst ts)" "distinct (map fst os)" "list_all (\<lambda>f. f \<in> set (map fst ts)) (map fst os)" "covers os ts"
  shows "deep_copier (TStruct ts) (copy_fields os)"
proof (rule deep_copier_struct [OF assms(1,2)])
  fix f dc
  assume f: "(f, dc) \<in> set os"
  with assms(3) obtain t where t: "(f, t) \<in> set ts" by (force simp: list_all_iff)
  with coversD [OF assms(4) t] f assms(1,2) show "\<exists>t. map_of ts f = Some t \<and> deep_copier t dc" by simp
next
  fix f t
  assume "(f, t) \<in> set ts"
  from coversD [OF assms(4) this] show "f \<in> fst ` set os \<or> flat t"
    by (cases "map_of os f") (auto simp: rev_image_eqI dest!: map_of_SomeD)
qed

section \<open>Copy and original do not see each other's writes\<close>

lemma deep_copy_unshared:
  assumes "deep_copy t v h (v', h')" "view h t v \<noteq> None"
  shows "a < length h \<Longrightarrow> view (h'[a := xs]) t v' = view h t v"
    and "length h \<le> a \<Longrightarrow> view (h'[a := xs]) t v = view h t v"
proof -
  from assms(1) have d: "prefix h h'" "view h' t v' = view h t v" "reach h' t v' \<subseteq> {length h..<length h'}"
    by (simp_all add: deep_copy_def)
  show "view (h'[a := xs]) t v' = view h t v" if "a < length h"
  proof -
    have "a \<notin> reach h' t v'" using d(3) that by auto
    from view_update(1) [OF this] d(2) assms(2) show ?thesis by simp
  qed
  show "view (h'[a := xs]) t v = view h t v" if "length h \<le> a"
  proof -
    have "a \<notin> reach h t v" using reach_bound(1) [OF assms(2)] that by auto
    with view_prefix [OF d(1) assms(2)] view_update(1) [of a h' t v] assms(2) show ?thesis by simp
  qed
qed

end
