(* ===== verification/DeepCopy.thy ===== *)
theory DeepCopy
  imports GoHeap
begin

text \<open>
  \<^verbatim>\<open>api/v1alpha1/zz_generated.deepcopy.go\<close>: the generated copy functions, on the memory of \<open>GoHeap\<close>.  The
  struct types are those of \<^verbatim>\<open>cache_types.go\<close> and \<^verbatim>\<open>storageprovisioner_types.go\<close>, with the references their
  fields hold.  \<open>X_DeepCopyInto\<close> is the value that is written to \<^verbatim>\<open>*out\<close>.

  The types of the Kubernetes libraries and their copy functions are the parameter \<open>foreign\<close>; \<open>foreign_ok\<close> says
  what their documentation does: the functions make deep copies.
\<close>

record foreign =
  ty_TypeMeta :: gtype
  ty_ObjectMeta :: gtype
  dc_ObjectMeta :: copier
  ty_ListMeta :: gtype
  dc_ListMeta :: copier
  ty_Time :: gtype
  dc_Time :: copier
  dc_Time_ptr :: copier
  ty_Condition :: gtype
  dc_Condition :: copier
  ty_EnvVar :: gtype
  dc_EnvVar :: copier
  ty_PersistentVolumeSpec :: gtype
  dc_PersistentVolumeSpec :: copier
  ty_PodSpec :: gtype
  dc_PodSpec :: copier

text \<open>\<^verbatim>\<open>TypeMeta\<close> has two strings and is assigned; \<open>dc_Time_ptr\<close> is the method \<^verbatim>\<open>DeepCopy\<close> of \<^verbatim>\<open>*Time\<close>.\<close>
definition foreign_ok :: "foreign \<Rightarrow> bool" where
  "foreign_ok x \<longleftrightarrow>
     flat (ty_TypeMeta x) \<and> deep_copier (ty_ObjectMeta x) (dc_ObjectMeta x) \<and> deep_copier (ty_ListMeta x) (dc_ListMeta x)
   \<and> deep_copier (ty_Time x) (dc_Time x) \<and> deep_copier (TPtr (ty_Time x)) (dc_Time_ptr x)
   \<and> deep_copier (ty_Condition x) (dc_Condition x) \<and> deep_copier (ty_EnvVar x) (dc_EnvVar x)
   \<and> deep_copier (ty_PersistentVolumeSpec x) (dc_PersistentVolumeSpec x) \<and> deep_copier (ty_PodSpec x) (dc_PodSpec x)"

section \<open>Types\<close>

definition type_CacheSpec :: "gtype" where
  "type_CacheSpec = TStruct
     [(''ReadOnly'', TBasic)]"

definition type_ResetStatus :: "foreign \<Rightarrow> gtype" where
  "type_ResetStatus x = TStruct
     [(''CacheGeneration'', TBasic), (''ResetTime'', ty_Time x)]"

definition type_VolumeError :: "foreign \<Rightarrow> gtype" where
  "type_VolumeError x = TStruct
     [(''VolumeName'', TBasic), (''CacheGeneration'', TPtr TBasic), (''Error'', TBasic),
      (''Happened'', ty_Time x)]"

definition type_VolumeStatus :: "foreign \<Rightarrow> gtype" where
  "type_VolumeStatus x = TStruct
     [(''Name'', TBasic), (''CacheGeneration'', TBasic), (''Created'', ty_Time x),
      (''Committable'', TBasic), (''CommitStartTime'', TPtr (ty_Time x))]"

definition type_NodeStatus :: "foreign \<Rightarrow> gtype" where
  "type_NodeStatus x = TStruct
     [(''Name'', TBasic), (''CacheGeneration'', TBasic), (''LastUsed'', ty_Time x),
      (''LastImageID'', TBasic), (''Volumes'', TSlice (type_VolumeStatus x)),
      (''LastError'', TPtr (type_VolumeError x))]"

definition type_CacheStatus :: "foreign \<Rightarrow> gtype" where
  "type_CacheStatus x = TStruct
     [(''Image'', TBasic), (''CacheGeneration'', TBasic), (''LastImageID'', TPtr TBasic),
      (''LastUsed'', TPtr (ty_Time x)), (''LastWritten'', TPtr (ty_Time x)),
      (''LastReset'', TPtr (type_ResetStatus x)), (''Used'', TBasic),
      (''Nodes'', TSlice (type_NodeStatus x)), (''Phase'', TBasic),
      (''Conditions'', TSlice (ty_Condition x))]"

definition type_Cache :: "foreign \<Rightarrow> gtype" where
  "type_Cache x = TStruct
     [(''TypeMeta'', ty_TypeMeta x), (''ObjectMeta'', ty_ObjectMeta x), (''Spec'', type_CacheSpec),
      (''Status'', type_CacheStatus x)]"

definition type_CacheList :: "foreign \<Rightarrow> gtype" where
  "type_CacheList x = TStruct
     [(''TypeMeta'', ty_TypeMeta x), (''ListMeta'', ty_ListMeta x),
      (''Items'', TSlice (type_Cache x))]"

definition type_EnvVar :: "gtype" where
  "type_EnvVar = TStruct
     [(''Name'', TBasic), (''Annotation'', TBasic), (''Required'', TPtr TBasic)]"

definition type_NodePath :: "gtype" where
  "type_NodePath = TStruct
     [(''Name'', TBasic), (''Path'', TBasic)]"

definition type_ProvisionerContainer :: "foreign \<Rightarrow> gtype" where
  "type_ProvisionerContainer x = TStruct
     [(''Command'', TSlice TBasic), (''Env'', TSlice (ty_EnvVar x))]"

definition type_Containers :: "foreign \<Rightarrow> gtype" where
  "type_Containers x = TStruct
     [(''Provisioner'', type_ProvisionerContainer x),
      (''Deprovisioner'', type_ProvisionerContainer x)]"

definition type_StorageProvisionerSpec :: "foreign \<Rightarrow> gtype" where
  "type_StorageProvisionerSpec x = TStruct
     [(''Name'', TBasic), (''DeprovisionOnPodCompletion'', TBasic),
      (''PersistentVolumeTemplate'', ty_PersistentVolumeSpec x), (''PodTemplate'', ty_PodSpec x),
      (''Containers'', type_Containers x), (''Env'', TSlice type_EnvVar),
      (''Nodes'', TSlice type_NodePath)]"

definition type_StorageProvisionerStatus :: "foreign \<Rightarrow> gtype" where
  "type_StorageProvisionerStatus x = TStruct
     [(''Conditions'', TSlice (ty_Condition x))]"

definition type_StorageProvisioner :: "foreign \<Rightarrow> gtype" where
  "type_StorageProvisioner x = TStruct
     [(''TypeMeta'', ty_TypeMeta x), (''ObjectMeta'', ty_ObjectMeta x),
      (''Spec'', type_StorageProvisionerSpec x), (''Status'', type_StorageProvisionerStatus x)]"

definition type_StorageProvisionerList :: "foreign \<Rightarrow> gtype" where
  "type_StorageProvisionerList x = TStruct
     [(''TypeMeta'', ty_TypeMeta x), (''ListMeta'', ty_ListMeta x),
      (''Items'', TSlice (type_StorageProvisioner x))]"

section \<open>Copies\<close>

text \<open>A value of the interface \<^verbatim>\<open>runtime.Object\<close>: the type and the pointer, or the nil interface.\<close>
type_synonym object = "(string \<times> gval) option"

text \<open>\<^verbatim>\<open>if c := in.DeepCopy(); c != nil { return c }; return nil\<close>: a nil pointer becomes the nil interface.\<close>
definition as_object :: "string \<Rightarrow> gval \<times> heap \<Rightarrow> object \<times> heap" where
  "as_object name r = (case r of (c, h) \<Rightarrow> (if c \<noteq> Ptr None then Some (name, c) else None, h))"

definition CacheSpec_DeepCopyInto :: "copier" where
  "CacheSpec_DeepCopyInto = assign"

definition CacheSpec_DeepCopy :: "copier" where
  "CacheSpec_DeepCopy = copy_ptr CacheSpec_DeepCopyInto"

definition ResetStatus_DeepCopyInto :: "foreign \<Rightarrow> copier" where
  "ResetStatus_DeepCopyInto x = copy_fields
     [(''ResetTime'', dc_Time x)]"

definition ResetStatus_DeepCopy :: "foreign \<Rightarrow> copier" where
  "ResetStatus_DeepCopy x = copy_ptr (ResetStatus_DeepCopyInto x)"

definition VolumeError_DeepCopyInto :: "foreign \<Rightarrow> copier" where
  "VolumeError_DeepCopyInto x = copy_fields
     [(''CacheGeneration'', copy_ptr assign), (''Happened'', dc_Time x)]"

definition VolumeError_DeepCopy :: "foreign \<Rightarrow> copier" where
  "VolumeError_DeepCopy x = copy_ptr (VolumeError_DeepCopyInto x)"

definition VolumeStatus_DeepCopyInto :: "foreign \<Rightarrow> copier" where
  "VolumeStatus_DeepCopyInto x = copy_fields
     [(''Created'', dc_Time x), (''CommitStartTime'', dc_Time_ptr x)]"

definition VolumeStatus_DeepCopy :: "foreign \<Rightarrow> copier" where
  "VolumeStatus_DeepCopy x = copy_ptr (VolumeStatus_DeepCopyInto x)"

definition NodeStatus_DeepCopyInto :: "foreign \<Rightarrow> copier" where
  "NodeStatus_DeepCopyInto x = copy_fields
     [(''LastUsed'', dc_Time x), (''Volumes'', copy_slice (VolumeStatus_DeepCopyInto x)),
      (''LastError'', copy_ptr (VolumeError_DeepCopyInto x))]"

definition NodeStatus_DeepCopy :: "foreign \<Rightarrow> copier" where
  "NodeStatus_DeepCopy x = copy_ptr (NodeStatus_DeepCopyInto x)"

definition CacheStatus_DeepCopyInto :: "foreign \<Rightarrow> copier" where
  "CacheStatus_DeepCopyInto x = copy_fields
     [(''LastImageID'', copy_ptr assign), (''LastUsed'', dc_Time_ptr x),
      (''LastWritten'', dc_Time_ptr x), (''LastReset'', copy_ptr (ResetStatus_DeepCopyInto x)),
      (''Nodes'', copy_slice (NodeStatus_DeepCopyInto x)),
      (''Conditions'', copy_slice (dc_Condition x))]"

definition CacheStatus_DeepCopy :: "foreign \<Rightarrow> copier" where
  "CacheStatus_DeepCopy x = copy_ptr (CacheStatus_DeepCopyInto x)"

definition Cache_DeepCopyInto :: "foreign \<Rightarrow> copier" where
  "Cache_DeepCopyInto x = copy_fields
     [(''TypeMeta'', assign), (''ObjectMeta'', dc_ObjectMeta x), (''Spec'', assign),
      (''Status'', CacheStatus_DeepCopyInto x)]"

definition Cache_DeepCopy :: "foreign \<Rightarrow> copier" where
  "Cache_DeepCopy x = copy_ptr (Cache_DeepCopyInto x)"

definition Cache_DeepCopyObject :: "foreign \<Rightarrow> gval \<Rightarrow> heap \<Rightarrow> object \<times> heap" where
  "Cache_DeepCopyObject x v h = as_object ''Cache'' (Cache_DeepCopy x v h)"

definition CacheList_DeepCopyInto :: "foreign \<Rightarrow> copier" where
  "CacheList_DeepCopyInto x = copy_fields
     [(''TypeMeta'', assign), (''ListMeta'', dc_ListMeta x),
      (''Items'', copy_slice (Cache_DeepCopyInto x))]"

definition CacheList_DeepCopy :: "foreign \<Rightarrow> copier" where
  "CacheList_DeepCopy x = copy_ptr (CacheList_DeepCopyInto x)"

definition CacheList_DeepCopyObject :: "foreign \<Rightarrow> gval \<Rightarrow> heap \<Rightarrow> object \<times> heap" where
  "CacheList_DeepCopyObject x v h = as_object ''CacheList'' (CacheList_DeepCopy x v h)"

definition EnvVar_DeepCopyInto :: "copier" where
  "EnvVar_DeepCopyInto = copy_fields
     [(''Required'', copy_ptr assign)]"

definition EnvVar_DeepCopy :: "copier" where
  "EnvVar_DeepCopy = copy_ptr EnvVar_DeepCopyInto"

definition NodePath_DeepCopyInto :: "copier" where
  "NodePath_DeepCopyInto = assign"

definition NodePath_DeepCopy :: "copier" where
  "NodePath_DeepCopy = copy_ptr NodePath_DeepCopyInto"

definition ProvisionerContainer_DeepCopyInto :: "foreign \<Rightarrow> copier" where
  "ProvisionerContainer_DeepCopyInto x = copy_fields
     [(''Command'', copy_slice assign), (''Env'', copy_slice (dc_EnvVar x))]"

definition ProvisionerContainer_DeepCopy :: "foreign \<Rightarrow> copier" where
  "ProvisionerContainer_DeepCopy x = copy_ptr (ProvisionerContainer_DeepCopyInto x)"

definition Containers_DeepCopyInto :: "foreign \<Rightarrow> copier" where
  "Containers_DeepCopyInto x = copy_fields
     [(''Provisioner'', ProvisionerContainer_DeepCopyInto x),
      (''Deprovisioner'', ProvisionerContainer_DeepCopyInto x)]"

definition Containers_DeepCopy :: "foreign \<Rightarrow> copier" where
  "Containers_DeepCopy x = copy_ptr (Containers_DeepCopyInto x)"

definition StorageProvisionerSpec_DeepCopyInto :: "foreign \<Rightarrow> copier" where
  "StorageProvisionerSpec_DeepCopyInto x = copy_fields
     [(''PersistentVolumeTemplate'', dc_PersistentVolumeSpec x), (''PodTemplate'', dc_PodSpec x),
      (''Containers'', Containers_DeepCopyInto x), (''Env'', copy_slice EnvVar_DeepCopyInto),
      (''Nodes'', copy_slice assign)]"

definition StorageProvisionerSpec_DeepCopy :: "foreign \<Rightarrow> copier" where
  "StorageProvisionerSpec_DeepCopy x = copy_ptr (StorageProvisionerSpec_DeepCopyInto x)"

definition StorageProvisionerStatus_DeepCopyInto :: "foreign \<Rightarrow> copier" where
  "StorageProvisionerStatus_DeepCopyInto x = copy_fields
     [(''Conditions'', copy_slice (dc_Condition x))]"

definition StorageProvisionerStatus_DeepCopy :: "foreign \<Rightarrow> copier" where
  "StorageProvisionerStatus_DeepCopy x = copy_ptr (StorageProvisionerStatus_DeepCopyInto x)"

definition StorageProvisioner_DeepCopyInto :: "foreign \<Rightarrow> copier" where
  "StorageProvisioner_DeepCopyInto x = copy_fields
     [(''TypeMeta'', assign), (''ObjectMeta'', dc_ObjectMeta x),
      (''Spec'', StorageProvisionerSpec_DeepCopyInto x),
      (''Status'', StorageProvisionerStatus_DeepCopyInto x)]"

definition StorageProvisioner_DeepCopy :: "foreign \<Rightarrow> copier" where
  "StorageProvisioner_DeepCopy x = copy_ptr (StorageProvisioner_DeepCopyInto x)"

definition StorageProvisioner_DeepCopyObject :: "foreign \<Rightarrow> gval \<Rightarrow> heap \<Rightarrow> object \<times> heap" where
  "StorageProvisioner_DeepCopyObject x v h = as_object ''StorageProvisioner'' (StorageProvisioner_DeepCopy x v h)"

definition StorageProvisionerList_DeepCopyInto :: "foreign \<Rightarrow> copier" where
  "StorageProvisionerList_DeepCopyInto x = copy_fields
     [(''TypeMeta'', assign), (''ListMeta'', dc_ListMeta x),
      (''Items'', copy_slice (StorageProvisioner_DeepCopyInto x))]"

definition StorageProvisionerList_DeepCopy :: "foreign \<Rightarrow> copier" where
  "StorageProvisionerList_DeepCopy x = copy_ptr (StorageProvisionerList_DeepCopyInto x)"

definition StorageProvisionerList_DeepCopyObject :: "foreign \<Rightarrow> gval \<Rightarrow> heap \<Rightarrow> object \<times> heap" where
  "StorageProvisionerList_DeepCopyObject x v h = as_object ''StorageProvisionerList'' (StorageProvisionerList_DeepCopy x v h)"

section \<open>They are deep copies\<close>

named_theorems deep_copiers \<open>functions that make deep copies\<close>

lemmas [deep_copiers] = deep_copier_assign deep_copier_ptr deep_copier_slice

lemma foreign_copiers:
  assumes "foreign_ok x"
  shows "flat (ty_TypeMeta x)" "deep_copier (ty_ObjectMeta x) (dc_ObjectMeta x)" "deep_copier (ty_ListMeta x) (dc_ListMeta x)"
    "deep_copier (ty_Time x) (dc_Time x)" "deep_copier (TPtr (ty_Time x)) (dc_Time_ptr x)"
    "deep_copier (ty_Condition x) (dc_Condition x)" "deep_copier (ty_EnvVar x) (dc_EnvVar x)"
    "deep_copier (ty_PersistentVolumeSpec x) (dc_PersistentVolumeSpec x)" "deep_copier (ty_PodSpec x) (dc_PodSpec x)"
  using assms by (simp_all add: foreign_ok_def)

lemma flat_types: "flat TBasic" "flat type_CacheSpec" "flat type_NodePath"
  by (simp_all add: type_CacheSpec_def type_NodePath_def)

lemma CacheSpec_copier [deep_copiers]: "deep_copier type_CacheSpec CacheSpec_DeepCopyInto"
  unfolding CacheSpec_DeepCopyInto_def type_CacheSpec_def by (rule deep_copier_assign) simp

lemma ResetStatus_copier [deep_copiers]: "foreign_ok x \<Longrightarrow> deep_copier (type_ResetStatus x) (ResetStatus_DeepCopyInto x)"
  unfolding ResetStatus_DeepCopyInto_def type_ResetStatus_def
  by (rule deep_copier_code) (simp_all add: deep_copiers foreign_copiers flat_types)

lemma VolumeError_copier [deep_copiers]: "foreign_ok x \<Longrightarrow> deep_copier (type_VolumeError x) (VolumeError_DeepCopyInto x)"
  unfolding VolumeError_DeepCopyInto_def type_VolumeError_def
  by (rule deep_copier_code) (simp_all add: deep_copiers foreign_copiers flat_types)

lemma VolumeStatus_copier [deep_copiers]: "foreign_ok x \<Longrightarrow> deep_copier (type_VolumeStatus x) (VolumeStatus_DeepCopyInto x)"
  unfolding VolumeStatus_DeepCopyInto_def type_VolumeStatus_def
  by (rule deep_copier_code) (simp_all add: deep_copiers foreign_copiers flat_types)

lemma NodeStatus_copier [deep_copiers]: "foreign_ok x \<Longrightarrow> deep_copier (type_NodeStatus x) (NodeStatus_DeepCopyInto x)"
  unfolding NodeStatus_DeepCopyInto_def type_NodeStatus_def
  by (rule deep_copier_code) (simp_all add: deep_copiers foreign_copiers flat_types)

lemma CacheStatus_copier [deep_copiers]: "foreign_ok x \<Longrightarrow> deep_copier (type_CacheStatus x) (CacheStatus_DeepCopyInto x)"
  unfolding CacheStatus_DeepCopyInto_def type_CacheStatus_def
  by (rule deep_copier_code) (simp_all add: deep_copiers foreign_copiers flat_types)

lemma Cache_copier [deep_copiers]: "foreign_ok x \<Longrightarrow> deep_copier (type_Cache x) (Cache_DeepCopyInto x)"
  unfolding Cache_DeepCopyInto_def type_Cache_def
  by (rule deep_copier_code) (simp_all add: deep_copiers foreign_copiers flat_types)

lemma CacheList_copier [deep_copiers]: "foreign_ok x \<Longrightarrow> deep_copier (type_CacheList x) (CacheList_DeepCopyInto x)"
  unfolding CacheList_DeepCopyInto_def type_CacheList_def
  by (rule deep_copier_code) (simp_all add: deep_copiers foreign_copiers flat_types)

lemma EnvVar_copier [deep_copiers]: "deep_copier type_EnvVar EnvVar_DeepCopyInto"
  unfolding EnvVar_DeepCopyInto_def type_EnvVar_def
  by (rule deep_copier_code) (simp_all add: deep_copiers foreign_copiers flat_types)

lemma NodePath_copier [deep_copiers]: "deep_copier type_NodePath NodePath_DeepCopyInto"
  unfolding NodePath_DeepCopyInto_def type_NodePath_def by (rule deep_copier_assign) simp

lemma ProvisionerContainer_copier [deep_copiers]: "foreign_ok x \<Longrightarrow> deep_copier (type_ProvisionerContainer x) (ProvisionerContainer_DeepCopyInto x)"
  unfolding ProvisionerContainer_DeepCopyInto_def type_ProvisionerContainer_def
  by (rule deep_copier_code) (simp_all add: deep_copiers foreign_copiers flat_types)

lemma Containers_copier [deep_copiers]: "foreign_ok x \<Longrightarrow> deep_copier (type_Containers x) (Containers_DeepCopyInto x)"
  unfolding Containers_DeepCopyInto_def type_Containers_def
  by (rule deep_copier_code) (simp_all add: deep_copiers foreign_copiers flat_types)

lemma StorageProvisionerSpec_copier [deep_copiers]: "foreign_ok x \<Longrightarrow> deep_copier (type_StorageProvisionerSpec x) (StorageProvisionerSpec_DeepCopyInto x)"
  unfolding StorageProvisionerSpec_DeepCopyInto_def type_StorageProvisionerSpec_def
  by (rule deep_copier_code) (simp_all add: deep_copiers foreign_copiers flat_types)

lemma StorageProvisionerStatus_copier [deep_copiers]: "foreign_ok x \<Longrightarrow> deep_copier (type_StorageProvisionerStatus x) (StorageProvisionerStatus_DeepCopyInto x)"
  unfolding StorageProvisionerStatus_DeepCopyInto_def type_StorageProvisionerStatus_def
  by (rule deep_copier_code) (simp_all add: deep_copiers foreign_copiers flat_types)

lemma StorageProvisioner_copier [deep_copiers]: "foreign_ok x \<Longrightarrow> deep_copier (type_StorageProvisioner x) (StorageProvisioner_DeepCopyInto x)"
  unfolding StorageProvisioner_DeepCopyInto_def type_StorageProvisioner_def
  by (rule deep_copier_code) (simp_all add: deep_copiers foreign_copiers flat_types)

lemma StorageProvisionerList_copier [deep_copiers]: "foreign_ok x \<Longrightarrow> deep_copier (type_StorageProvisionerList x) (StorageProvisionerList_DeepCopyInto x)"
  unfolding StorageProvisionerList_DeepCopyInto_def type_StorageProvisionerList_def
  by (rule deep_copier_code) (simp_all add: deep_copiers foreign_copiers flat_types)

text \<open>The types of the API with the method \<^verbatim>\<open>DeepCopy\<close> of a pointer to them.\<close>
definition api_copies :: "foreign \<Rightarrow> (gtype \<times> copier) list" where
  "api_copies x =
     [(type_CacheSpec, CacheSpec_DeepCopy), (type_ResetStatus x, ResetStatus_DeepCopy x),
      (type_VolumeError x, VolumeError_DeepCopy x), (type_VolumeStatus x, VolumeStatus_DeepCopy x),
      (type_NodeStatus x, NodeStatus_DeepCopy x), (type_CacheStatus x, CacheStatus_DeepCopy x),
      (type_Cache x, Cache_DeepCopy x), (type_CacheList x, CacheList_DeepCopy x),
      (type_EnvVar, EnvVar_DeepCopy), (type_NodePath, NodePath_DeepCopy),
      (type_ProvisionerContainer x, ProvisionerContainer_DeepCopy x),
      (type_Containers x, Containers_DeepCopy x),
      (type_StorageProvisionerSpec x, StorageProvisionerSpec_DeepCopy x),
      (type_StorageProvisionerStatus x, StorageProvisionerStatus_DeepCopy x),
      (type_StorageProvisioner x, StorageProvisioner_DeepCopy x),
      (type_StorageProvisionerList x, StorageProvisionerList_DeepCopy x)]"

lemma api_copier:
  assumes "foreign_ok x" "(t, dc) \<in> set (api_copies x)"
  shows "deep_copier (TPtr t) dc"
proof -
  have "list_all (\<lambda>(t, dc). deep_copier (TPtr t) dc) (api_copies x)"
    unfolding api_copies_def
    by (simp add: deep_copiers assms(1)
        CacheSpec_DeepCopy_def ResetStatus_DeepCopy_def VolumeError_DeepCopy_def VolumeStatus_DeepCopy_def
        NodeStatus_DeepCopy_def CacheStatus_DeepCopy_def Cache_DeepCopy_def CacheList_DeepCopy_def
        EnvVar_DeepCopy_def NodePath_DeepCopy_def ProvisionerContainer_DeepCopy_def Containers_DeepCopy_def
        StorageProvisionerSpec_DeepCopy_def StorageProvisionerStatus_DeepCopy_def StorageProvisioner_DeepCopy_def StorageProvisionerList_DeepCopy_def)
  with assms(2) show ?thesis by (auto simp: list_all_iff)
qed

text \<open>
  C12. \<^verbatim>\<open>DeepCopy\<close> of every type of the API gives nil for nil and otherwise a pointer to equal contents; it
  changes nothing in memory that exists already.  Whatever is written afterwards to memory that existed before cannot be seen
  through the copy, and whatever is written to the memory of the copy cannot be seen through the original.
\<close>
theorem DeepCopy_is_deep:
  assumes "foreign_ok x" "(t, dc) \<in> set (api_copies x)" "view h (TPtr t) p = Some c" "dc p h = (p', h')"
  shows "view h' (TPtr t) p' = Some c \<and> (p' = Ptr None \<longleftrightarrow> p = Ptr None) \<and> prefix h h'
    \<and> (\<forall>a xs. if a < length h then view (h'[a := xs]) (TPtr t) p' = Some c else view (h'[a := xs]) (TPtr t) p = Some c)"
proof -
  have d: "deep_copy (TPtr t) p h (p', h')"
    using api_copier [OF assms(1,2)] assms(3,4) unfolding deep_copier_def by fastforce
  have nil: "view g (TPtr t) q = Some b \<Longrightarrow> q = Ptr None \<longleftrightarrow> b = NilTree" for g q b
    using view_defined(1) [of g t] by (cases q) (fastforce split: option.splits)+
  from d assms(3) have "view h' (TPtr t) p' = Some c" "prefix h h'" by (simp_all add: deep_copy_def)
  with nil assms(3) deep_copy_unshared [OF d] show ?thesis by simp
qed

text \<open>A nil pointer does not become an interface that holds a nil pointer.\<close>
lemma DeepCopyObject_nil:
  "fst (Cache_DeepCopyObject x (Ptr None) h) = None" "fst (CacheList_DeepCopyObject x (Ptr None) h) = None"
  "fst (StorageProvisioner_DeepCopyObject x (Ptr None) h) = None"
  "fst (StorageProvisionerList_DeepCopyObject x (Ptr None) h) = None"
  by (simp_all add: Cache_DeepCopyObject_def CacheList_DeepCopyObject_def StorageProvisioner_DeepCopyObject_def
      StorageProvisionerList_DeepCopyObject_def Cache_DeepCopy_def CacheList_DeepCopy_def
      StorageProvisioner_DeepCopy_def StorageProvisionerList_DeepCopy_def copy_ptr_def as_object_def)

section \<open>An example\<close>

definition plain_foreign :: foreign where
  "plain_foreign = \<lparr>ty_TypeMeta = TBasic,
     ty_ObjectMeta = TStruct [(''Name'', TBasic), (''DeletionTimestamp'', TPtr TBasic)],
     dc_ObjectMeta = copy_fields [(''DeletionTimestamp'', copy_ptr assign)], ty_ListMeta = TBasic, dc_ListMeta = assign,
     ty_Time = TBasic, dc_Time = assign, dc_Time_ptr = copy_ptr assign, ty_Condition = TBasic, dc_Condition = assign,
     ty_EnvVar = TBasic, dc_EnvVar = assign, ty_PersistentVolumeSpec = TBasic, dc_PersistentVolumeSpec = assign,
     ty_PodSpec = TBasic, dc_PodSpec = assign\<rparr>"

lemma plain_foreign_ok: "foreign_ok plain_foreign"
proof -
  have "deep_copier (ty_ObjectMeta plain_foreign) (dc_ObjectMeta plain_foreign)"
    unfolding plain_foreign_def foreign.simps by (rule deep_copier_code) (simp_all add: deep_copiers)
  then show ?thesis unfolding foreign_ok_def by (simp add: plain_foreign_def deep_copiers)
qed

text \<open>A cache that was used on one node, where generation 7 of a volume failed.\<close>
definition example_memory :: heap where
  "example_memory =
     [[Struct [(''TypeMeta'', Basic []), (''ObjectMeta'', Struct [(''Name'', Basic ''c''), (''DeletionTimestamp'', Ptr None)]),
         (''Spec'', Struct [(''ReadOnly'', Basic ''false'')]),
         (''Status'', Struct [(''Image'', Basic []), (''CacheGeneration'', Basic ''7''), (''LastImageID'', Ptr None),
            (''LastUsed'', Ptr None), (''LastWritten'', Ptr None), (''LastReset'', Ptr None), (''Used'', Basic ''1''),
            (''Nodes'', Slice (Some (1, 0, 1))), (''Phase'', Basic []), (''Conditions'', Slice None)])]],
      [Struct [(''Name'', Basic ''n''), (''CacheGeneration'', Basic ''7''), (''LastUsed'', Basic []), (''LastImageID'', Basic []),
         (''Volumes'', Slice None), (''LastError'', Ptr (Some (2, 0)))]],
      [Struct [(''VolumeName'', Basic ''v''), (''CacheGeneration'', Ptr (Some (3, 0))), (''Error'', Basic ''failed''),
         (''Happened'', Basic [])]],
      [Basic ''7'']]"

lemma example_memory_typed: "view example_memory (TPtr (type_Cache plain_foreign)) (Ptr (Some (0, 0))) \<noteq> None"
  by (simp add: example_memory_def cell_def section_of_def plain_foreign_def type_Cache_def type_CacheSpec_def type_CacheStatus_def
      type_NodeStatus_def type_VolumeError_def)

theorem DeepCopy_is_deep_witness:
  "\<exists>p' h' c. Cache_DeepCopy plain_foreign (Ptr (Some (0, 0))) example_memory = (p', h') \<and> p' \<noteq> Ptr None
    \<and> view example_memory (TPtr (type_Cache plain_foreign)) (Ptr (Some (0, 0))) = Some c
    \<and> view (h'[3 := [Basic ''8'']]) (TPtr (type_Cache plain_foreign)) p' = Some c"
proof -
  obtain c where c: "view example_memory (TPtr (type_Cache plain_foreign)) (Ptr (Some (0, 0))) = Some c"
    using example_memory_typed by blast
  obtain p' h' where copy: "Cache_DeepCopy plain_foreign (Ptr (Some (0, 0))) example_memory = (p', h')" by fastforce
  have m: "(type_Cache plain_foreign, Cache_DeepCopy plain_foreign) \<in> set (api_copies plain_foreign)"
    by (simp add: api_copies_def)
  have three: "3 < length example_memory" by (simp add: example_memory_def)
  note deep = DeepCopy_is_deep [OF plain_foreign_ok m c copy]
  from deep have "p' \<noteq> Ptr None" by blast
  moreover from deep have "\<forall>a xs. if a < length example_memory
      then view (h'[a := xs]) (TPtr (type_Cache plain_foreign)) p' = Some c
      else view (h'[a := xs]) (TPtr (type_Cache plain_foreign)) (Ptr (Some (0, 0))) = Some c" by blast
  then have "view (h'[3 := [Basic ''8'']]) (TPtr (type_Cache plain_foreign)) p' = Some c" using three by presburger
  ultimately show ?thesis using copy c by blast
qed

end
