(* ===== verification/RegistryMemory.thy ===== *)
theory RegistryMemory
  imports Registry DeepCopy
begin

text \<open>
  The registry of \<^verbatim>\<open>internal/controllers/storageprovisioner_registry.go\<close> with its pointers.  \<open>Registry\<close> treats the
  registered objects as values; here the map holds pointers into the memory of \<open>GoHeap\<close>, and \<^verbatim>\<open>Put\<close> and \<^verbatim>\<open>Get\<close>
  copy what is passed in and handed out.  The controllers may at any time write to all memory they
  have a pointer to: the step relation \<open>mem_step\<close>.  The two registries agree after every such step.

  \<open>dec\<close> is any function from the contents of the memory to the records of \<open>ApiTypes\<close>.  The copy that
  \<^verbatim>\<open>validateProvisioner\<close> makes for itself is garbage when it returns and is left out.
\<close>

section \<open>The registry\<close>

type_synonym mem_registry = "(string \<times> (nat \<times> nat) option) list"

abbreviation provisioner_ptr :: "foreign \<Rightarrow> gtype" where
  "provisioner_ptr fx \<equiv> TPtr (type_StorageProvisioner fx)"

definition content :: "foreign \<Rightarrow> heap \<Rightarrow> nat \<times> nat \<Rightarrow> tree option" where
  "content fx h p = view h (provisioner_ptr fx) (Ptr (Some p))"

definition extent :: "foreign \<Rightarrow> heap \<Rightarrow> nat \<times> nat \<Rightarrow> nat set" where
  "extent fx h p = reach h (provisioner_ptr fx) (Ptr (Some p))"

definition read_sp :: "foreign \<Rightarrow> (tree \<Rightarrow> storage_provisioner) \<Rightarrow> heap \<Rightarrow> nat \<times> nat \<Rightarrow> storage_provisioner" where
  "read_sp fx dec h p = dec (the (content fx h p))"

fun loc_of :: "gval \<Rightarrow> (nat \<times> nat) option" where
  "loc_of (Ptr p) = p"
| "loc_of _ = None"

text \<open>\<^verbatim>\<open>r.provisioners[key] = p.DeepCopy()\<close>\<close>
definition mem_store :: "foreign \<Rightarrow> mem_registry \<Rightarrow> heap \<Rightarrow> string \<Rightarrow> nat \<times> nat \<Rightarrow> mem_registry \<times> heap" where
  "mem_store fx r h key p =
     (case StorageProvisioner_DeepCopy fx (Ptr (Some p)) h of (c, h') \<Rightarrow> (AList.update key (loc_of c) r, h'))"

definition mem_Put :: "extlib \<Rightarrow> foreign \<Rightarrow> (tree \<Rightarrow> storage_provisioner) \<Rightarrow> mem_registry \<Rightarrow> heap \<Rightarrow> nat \<times> nat \<Rightarrow>
    go_error option \<times> mem_registry \<times> heap" where
  "mem_Put x fx dec r h p =
     (case validateProvisioner x (read_sp fx dec h p) of
        Some err \<Rightarrow>
          (Some (Wrapped ''validate StorageProvisioner %s'' [AStr (m_Name (sp_meta (read_sp fx dec h p)))] err), r, h)
      | None \<Rightarrow>
          (let key = GetProvisionerName (read_sp fx dec h p)
           in case map_of r key of
                None \<Rightarrow> (None, mem_store fx r h key p)
              | Some existing \<Rightarrow>
                  if existing = None \<or> \<not> same_object (read_sp fx dec h p) (read_sp fx dec h (the existing)) then
                    (Some (Errorf ''duplicate provisioner %s - key is disabled now'' [AStr key]),
                     AList.update key None r, h)
                  else (None, mem_store fx r h key p)))"

definition mem_Get :: "foreign \<Rightarrow> mem_registry \<Rightarrow> heap \<Rightarrow> string \<Rightarrow> gval \<times> heap" where
  "mem_Get fx r h name =
     (case map_of r name of
        Some (Some p) \<Rightarrow> StorageProvisioner_DeepCopy fx (Ptr (Some p)) h
      | _ \<Rightarrow> (Ptr None, h))"

definition mem_Delete :: "foreign \<Rightarrow> (tree \<Rightarrow> storage_provisioner) \<Rightarrow> mem_registry \<Rightarrow> heap \<Rightarrow> nat \<times> nat \<Rightarrow> mem_registry" where
  "mem_Delete fx dec r h p = AList.delete (GetProvisionerName (read_sp fx dec h p)) r"

text \<open>
  \<^verbatim>\<open>for _, p := range list.Items { r.Put(&p) }\<close>: the variable \<open>p\<close>, at address \<open>v\<close>, is overwritten with every
  item, and every call gets the same pointer.
\<close>
fun mem_load :: "extlib \<Rightarrow> foreign \<Rightarrow> (tree \<Rightarrow> storage_provisioner) \<Rightarrow> nat \<Rightarrow> gval list \<Rightarrow> mem_registry \<Rightarrow> heap \<Rightarrow>
    mem_registry \<times> heap" where
  "mem_load x fx dec v [] r h = (r, h)"
| "mem_load x fx dec v (item # items) r h =
     (case mem_Put x fx dec r (h[v := [item]]) (v, 0) of (err, r', h') \<Rightarrow> mem_load x fx dec v items r' h')"

section \<open>Its users\<close>

text \<open>\<open>ms_known\<close>: the arrays that somebody outside the registry has a way to.\<close>
record mem_state =
  ms_heap :: heap
  ms_reg :: mem_registry
  ms_known :: "nat set"

datatype mem_label =
    Writes
  | Puts tree "go_error option"
  | Gets string "tree option"
  | Deletes tree

inductive mem_step :: "extlib \<Rightarrow> foreign \<Rightarrow> (tree \<Rightarrow> storage_provisioner) \<Rightarrow> mem_state \<Rightarrow> mem_label \<Rightarrow> mem_state \<Rightarrow> bool"
  for x fx dec where
  writes: "a \<in> ms_known s \<Longrightarrow> mem_step x fx dec s Writes (s\<lparr>ms_heap := (ms_heap s)[a := xs]\<rparr>)"
| allocates: "mem_step x fx dec s Writes
    (s\<lparr>ms_heap := ms_heap s @ [xs], ms_known := insert (length (ms_heap s)) (ms_known s)\<rparr>)"
| puts: "content fx (ms_heap s) p = Some c \<Longrightarrow> extent fx (ms_heap s) p \<subseteq> ms_known s \<Longrightarrow>
    mem_Put x fx dec (ms_reg s) (ms_heap s) p = (err, r', h') \<Longrightarrow>
    mem_step x fx dec s (Puts c err) (s\<lparr>ms_reg := r', ms_heap := h'\<rparr>)"
| gets: "mem_Get fx (ms_reg s) (ms_heap s) name = (v, h') \<Longrightarrow>
    mem_step x fx dec s (Gets name (view h' (provisioner_ptr fx) v))
      (s\<lparr>ms_heap := h', ms_known := ms_known s \<union> reach h' (provisioner_ptr fx) v\<rparr>)"
| deletes: "content fx (ms_heap s) p = Some c \<Longrightarrow>
    mem_step x fx dec s (Deletes c) (s\<lparr>ms_reg := mem_Delete fx dec (ms_reg s) (ms_heap s) p\<rparr>)"

inductive mem_reach :: "extlib \<Rightarrow> foreign \<Rightarrow> (tree \<Rightarrow> storage_provisioner) \<Rightarrow> mem_state \<Rightarrow> bool" for x fx dec where
  created: "mem_reach x fx dec \<lparr>ms_heap = h, ms_reg = [], ms_known = {..<length h}\<rparr>"
| step: "mem_reach x fx dec s \<Longrightarrow> mem_step x fx dec s l s' \<Longrightarrow> mem_reach x fx dec s'"

section \<open>Private memory\<close>

text \<open>Every registered pointer has the type of a provisioner, and nobody else has a way to its memory.\<close>
definition mem_inv :: "foreign \<Rightarrow> mem_state \<Rightarrow> bool" where
  "mem_inv fx s \<longleftrightarrow> ms_known s \<subseteq> {..<length (ms_heap s)} \<and>
     (\<forall>k p. (k, Some p) \<in> set (ms_reg s) \<longrightarrow>
        content fx (ms_heap s) p \<noteq> None \<and> extent fx (ms_heap s) p \<inter> ms_known s = {})"

definition registry_of :: "foreign \<Rightarrow> (tree \<Rightarrow> storage_provisioner) \<Rightarrow> heap \<Rightarrow> mem_registry \<Rightarrow> registry" where
  "registry_of fx dec h r = map (\<lambda>(k, p). (k, map_option (read_sp fx dec h) p)) r"

lemma registry_of_update: "registry_of fx dec h (AList.update k p r) = AList.update k (map_option (read_sp fx dec h) p) (registry_of fx dec h r)"
  by (induction r) (auto simp: registry_of_def)

lemma registry_of_delete: "registry_of fx dec h (AList.delete k r) = AList.delete k (registry_of fx dec h r)"
  by (induction r) (auto simp: registry_of_def)

lemma map_of_registry_of: "map_of (registry_of fx dec h r) k = map_option (map_option (read_sp fx dec h)) (map_of r k)"
  by (induction r) (auto simp: registry_of_def)

lemma registry_of_cong:
  assumes "\<And>k p. (k, Some p) \<in> set r \<Longrightarrow> content fx h' p = content fx h p"
  shows "registry_of fx dec h' r = registry_of fx dec h r"
proof -
  have "map_option (read_sp fx dec h') v = map_option (read_sp fx dec h) v" if "(k, v) \<in> set r" for k v
    using assms [of k] that by (cases v) (simp_all add: read_sp_def)
  then show ?thesis by (auto simp: registry_of_def)
qed

lemma set_AList_update: "(k', v') \<in> set (AList.update k v r) \<Longrightarrow> (k', v') = (k, v) \<or> (k', v') \<in> set r"
  by (induction r) (auto split: if_splits)

lemma set_AList_delete: "set (AList.delete k r) \<subseteq> set r"
  by (induction r) auto

lemma mem_inv_fewer: "mem_inv fx s \<Longrightarrow> set r' \<subseteq> set (ms_reg s) \<Longrightarrow> mem_inv fx (s\<lparr>ms_reg := r'\<rparr>)"
  unfolding mem_inv_def by (simp, meson subsetD)

definition all_typed :: "foreign \<Rightarrow> heap \<Rightarrow> mem_registry \<Rightarrow> bool" where
  "all_typed fx h r \<longleftrightarrow> (\<forall>k q. (k, Some q) \<in> set r \<longrightarrow> content fx h q \<noteq> None)"

lemma all_typedD: "all_typed fx h r \<Longrightarrow> (k, Some q) \<in> set r \<Longrightarrow> content fx h q \<noteq> None"
  unfolding all_typed_def by blast

lemma content_prefix:
  assumes "prefix h h'" "content fx h p \<noteq> None"
  shows "content fx h' p = content fx h p" "extent fx h' p = extent fx h p"
  using view_prefix [OF assms(1)] assms(2) unfolding content_def extent_def by blast+

lemma content_update:
  assumes "a \<notin> extent fx h p" "content fx h p \<noteq> None"
  shows "content fx (h[a := xs]) p = content fx h p" "extent fx (h[a := xs]) p = extent fx h p"
  using view_update assms unfolding content_def extent_def by blast+

lemma provisioner_copied:
  assumes "foreign_ok fx" "content fx h p = Some c" "StorageProvisioner_DeepCopy fx (Ptr (Some p)) h = (v, h')"
  shows "\<exists>q. v = Ptr (Some q) \<and> prefix h h' \<and> content fx h' q = Some c \<and> extent fx h' q \<subseteq> {length h..<length h'}"
proof -
  have dc: "deep_copier (provisioner_ptr fx) (StorageProvisioner_DeepCopy fx)"
    unfolding StorageProvisioner_DeepCopy_def by (rule deep_copier_ptr) (rule StorageProvisioner_copier [OF assms(1)])
  have c: "view h (provisioner_ptr fx) (Ptr (Some p)) \<noteq> None" using assms(2) by (simp add: content_def)
  note d = deep_copierD [OF dc c assms(3)]
  from view_defined(1) [OF c] assms(2) have "c \<noteq> NilTree" by (auto simp: content_def)
  with d(2) assms(2) obtain q where "v = Ptr (Some q)"
    by (cases v) (auto simp: content_def split: option.splits)
  with d assms(2) show ?thesis by (simp add: content_def extent_def)
qed

text \<open>\<^verbatim>\<open>Put\<close>: what it does to the values, and where the new entries are.\<close>
lemma mem_Put_refines:
  assumes "foreign_ok fx" "all_typed fx h r" "content fx h p = Some c"
    and put: "mem_Put x fx dec r h p = (err, r', h')"
  shows "prefix h h'" "Put x (registry_of fx dec h r) (dec c) = (err, registry_of fx dec h' r')"
    and "(k, Some q) \<in> set r' \<Longrightarrow> (k, Some q) \<in> set r \<or> content fx h' q \<noteq> None \<and> extent fx h' q \<subseteq> {length h..<length h'}"
proof -
  have p: "read_sp fx dec h p = dec c" using assms(3) by (simp add: read_sp_def)
  obtain v h1 where copy: "StorageProvisioner_DeepCopy fx (Ptr (Some p)) h = (v, h1)" by fastforce
  from provisioner_copied [OF assms(1,3) copy] obtain q0 where q0: "v = Ptr (Some q0)" "prefix h h1"
    "content fx h1 q0 = Some c" "extent fx h1 q0 \<subseteq> {length h..<length h1}" by blast
  have store: "mem_store fx r h key p = (AList.update key (Some q0) r, h1)" for key
    using copy q0(1) by (simp add: mem_store_def)
  have same: "registry_of fx dec h1 r = registry_of fx dec h r"
    by (rule registry_of_cong) (rule content_prefix(1) [OF q0(2) all_typedD [OF assms(2)]])
  have new: "read_sp fx dec h1 q0 = dec c" using q0(3) by (simp add: read_sp_def)
  note facts = p store map_of_registry_of registry_of_update
  show "prefix h h'" using put q0(2)
    by (auto simp: mem_Put_def facts Let_def split: option.splits if_splits)
  show "Put x (registry_of fx dec h r) (dec c) = (err, registry_of fx dec h' r')" using put same new
    by (auto simp: mem_Put_def Put_def facts Let_def split: option.splits if_splits)
  show "(k, Some q) \<in> set r \<or> content fx h' q \<noteq> None \<and> extent fx h' q \<subseteq> {length h..<length h'}"
    if "(k, Some q) \<in> set r'"
    using put that q0(3,4) set_AList_update [of k "Some q"]
    by (fastforce simp: mem_Put_def facts Let_def split: option.splits if_splits)
qed

text \<open>\<^verbatim>\<open>Get\<close>: the answer is a copy.\<close>
lemma mem_Get_refines:
  assumes "foreign_ok fx" "all_typed fx h r" "mem_Get fx r h name = (v, h')"
  shows "prefix h h'" "reach h' (provisioner_ptr fx) v \<subseteq> {length h..<length h'}"
    and "\<exists>c. view h' (provisioner_ptr fx) v = Some c
      \<and> Get (registry_of fx dec h r) name = (if c = NilTree then None else Some (dec c))"
proof -
  have "prefix h h' \<and> reach h' (provisioner_ptr fx) v \<subseteq> {length h..<length h'}
    \<and> (\<exists>c. view h' (provisioner_ptr fx) v = Some c
      \<and> Get (registry_of fx dec h r) name = (if c = NilTree then None else Some (dec c)))"
  proof (cases "\<exists>p. map_of r name = Some (Some p)")
    case True
    then obtain p where p: "map_of r name = Some (Some p)" by blast
    with all_typedD [OF assms(2)] map_of_SomeD obtain c where c: "content fx h p = Some c" by fastforce
    with p assms(3) provisioner_copied [OF assms(1) c] obtain q where "v = Ptr (Some q)" "prefix h h'"
      "content fx h' q = Some c" "extent fx h' q \<subseteq> {length h..<length h'}" by (auto simp: mem_Get_def)
    moreover from this(3) have "c \<noteq> NilTree" by (auto simp: content_def split: option.splits bind_splits)
    ultimately show ?thesis using p c
      by (auto simp: content_def extent_def Get_def map_of_registry_of read_sp_def)
  next
    case False
    with assms(3) show ?thesis
      by (auto simp: mem_Get_def Get_def map_of_registry_of split: option.splits)
  qed
  then show "prefix h h'" "reach h' (provisioner_ptr fx) v \<subseteq> {length h..<length h'}"
    "\<exists>c. view h' (provisioner_ptr fx) v = Some c
      \<and> Get (registry_of fx dec h r) name = (if c = NilTree then None else Some (dec c))" by blast+
qed

section \<open>The memory refines the values\<close>

lemma mem_inv_extend:
  assumes "mem_inv fx s" "prefix (ms_heap s) h'" "K \<subseteq> ms_known s \<union> {length (ms_heap s)..<length h'}"
  shows "mem_inv fx (s\<lparr>ms_heap := h', ms_known := K\<rparr>)"
    and "registry_of fx dec h' (ms_reg s) = registry_of fx dec (ms_heap s) (ms_reg s)"
proof -
  have old: "content fx h' p \<noteq> None \<and> extent fx h' p \<inter> K = {} \<and> content fx h' p = content fx (ms_heap s) p"
    if "(k, Some p) \<in> set (ms_reg s)" for k p
  proof -
    have c: "content fx (ms_heap s) p \<noteq> None" and e: "extent fx (ms_heap s) p \<inter> ms_known s = {}"
      using assms(1) that unfolding mem_inv_def by blast+
    have "extent fx (ms_heap s) p \<subseteq> {..<length (ms_heap s)}"
      using reach_bound(1) c unfolding content_def extent_def by blast
    with e assms(3) have "extent fx (ms_heap s) p \<inter> K = {}" by fastforce
    with content_prefix [OF assms(2) c] c show ?thesis by simp
  qed
  show "registry_of fx dec h' (ms_reg s) = registry_of fx dec (ms_heap s) (ms_reg s)"
    by (rule registry_of_cong) (use old in blast)
  have "K \<subseteq> {..<length h'}"
    using assms(1,3) prefix_length_le [OF assms(2)] unfolding mem_inv_def by fastforce
  then show "mem_inv fx (s\<lparr>ms_heap := h', ms_known := K\<rparr>)" unfolding mem_inv_def using old by simp metis
qed

text \<open>One step, and what it is in the registry of values.\<close>
definition value_step :: "extlib \<Rightarrow> (tree \<Rightarrow> storage_provisioner) \<Rightarrow> registry \<Rightarrow> mem_label \<Rightarrow> registry \<Rightarrow> bool" where
  "value_step x dec r l r' \<longleftrightarrow>
     (case l of
        Writes \<Rightarrow> r' = r
      | Puts c err \<Rightarrow> Put x r (dec c) = (err, r')
      | Gets name res \<Rightarrow> r' = r \<and> (\<exists>c. res = Some c \<and> Get r name = (if c = NilTree then None else Some (dec c)))
      | Deletes c \<Rightarrow> r' = Delete r (dec c))"

lemma mem_step_refines:
  assumes "foreign_ok fx" "mem_inv fx s" "mem_step x fx dec s l s'"
  shows "mem_inv fx s' \<and> value_step x dec (registry_of fx dec (ms_heap s) (ms_reg s)) l (registry_of fx dec (ms_heap s') (ms_reg s'))"
  using assms(3)
proof cases
  case (writes a xs)
  have "content fx ((ms_heap s)[a := xs]) p = content fx (ms_heap s) p \<and>
      extent fx ((ms_heap s)[a := xs]) p = extent fx (ms_heap s) p" if "(k, Some p) \<in> set (ms_reg s)" for k p
    using assms(2) that writes(3) content_update unfolding mem_inv_def by (metis disjoint_iff)
  with registry_of_cong [of "ms_reg s" fx "(ms_heap s)[a := xs]" "ms_heap s" dec] assms(2) writes show ?thesis
    by (auto simp: mem_inv_def value_step_def)
next
  case (allocates xs)
  then show ?thesis
    using mem_inv_extend [OF assms(2), of "ms_heap s @ [xs]" "insert (length (ms_heap s)) (ms_known s)"]
    by (auto simp: value_step_def)
next
  case (puts p c err r' h')
  have typed: "all_typed fx (ms_heap s) (ms_reg s)" using assms(2) unfolding mem_inv_def all_typed_def by blast
  note put = mem_Put_refines [OF assms(1) typed puts(3,5)]
  have "mem_inv fx (s\<lparr>ms_heap := h', ms_known := ms_known s\<rparr>)" by (rule mem_inv_extend(1) [OF assms(2) put(1)]) blast
  moreover have "content fx h' q \<noteq> None \<and> extent fx h' q \<inter> ms_known s = {}"
    if "(k, Some q) \<in> set r'" "(k, Some q) \<notin> set (ms_reg s)" for k q
    using put(3) [OF that(1)] that(2) assms(2) unfolding mem_inv_def by fastforce
  ultimately show ?thesis using put(2) puts unfolding mem_inv_def value_step_def by simp blast
next
  case (gets name v h')
  have typed: "all_typed fx (ms_heap s) (ms_reg s)" using assms(2) unfolding mem_inv_def all_typed_def by blast
  note get = mem_Get_refines [OF assms(1) typed gets(3)]
  have "ms_known s \<union> reach h' (provisioner_ptr fx) v \<subseteq> ms_known s \<union> {length (ms_heap s)..<length h'}"
    using get(2) by blast
  with mem_inv_extend [OF assms(2) get(1) this] get(3) gets show ?thesis by (simp add: value_step_def)
next
  case (deletes p c)
  have "mem_inv fx s'"
    unfolding deletes mem_Delete_def by (rule mem_inv_fewer [OF assms(2) set_AList_delete])
  moreover have "read_sp fx dec (ms_heap s) p = dec c" using deletes(3) by (simp add: read_sp_def)
  ultimately show ?thesis using deletes
    by (simp add: value_step_def mem_Delete_def Delete_def registry_of_delete)
qed

lemma mem_reach_inv:
  assumes "foreign_ok fx" "mem_reach x fx dec s"
  shows "mem_inv fx s"
  using assms(2) by induction (simp add: mem_inv_def, use mem_step_refines [OF assms(1)] in blast)

text \<open>
  C11. The registry that the controllers see is a registry of values: whatever they and others write to memory they
  have a way to, including objects they passed to \<^verbatim>\<open>Put\<close> or were given by \<^verbatim>\<open>Get\<close>, changes nothing in it; \<^verbatim>\<open>Put\<close>,
  \<^verbatim>\<open>Get\<close> and \<^verbatim>\<open>Delete\<close> do to the contents of the memory what they do to values, with the same errors and results.
\<close>
theorem registry_memory_refines:
  assumes "foreign_ok fx" "mem_reach x fx dec s" "mem_step x fx dec s l s'"
  shows "value_step x dec (registry_of fx dec (ms_heap s) (ms_reg s)) l (registry_of fx dec (ms_heap s') (ms_reg s'))"
  using mem_step_refines [OF assms(1) mem_reach_inv [OF assms(1,2)] assms(3)] by blast

text \<open>
  C31. In every state, every pointer in the registry points to a complete value of the type
  \<^verbatim>\<open>StorageProvisioner\<close>, without dangling references, which lies in memory that nobody outside the registry has a way to.
\<close>
theorem registry_memory_typed:
  assumes "foreign_ok fx" "mem_reach x fx dec s" "(k, Some p) \<in> set (ms_reg s)"
  shows "content fx (ms_heap s) p \<noteq> None \<and> extent fx (ms_heap s) p \<subseteq> {..<length (ms_heap s)} - ms_known s"
proof -
  have "content fx (ms_heap s) p \<noteq> None" "extent fx (ms_heap s) p \<inter> ms_known s = {}"
    using mem_reach_inv [OF assms(1,2)] assms(3) unfolding mem_inv_def by blast+
  moreover from this(1) have "extent fx (ms_heap s) p \<subseteq> {..<length (ms_heap s)}"
    using reach_bound(1) unfolding content_def extent_def by blast
  ultimately show ?thesis by blast
qed

section \<open>Loading\<close>

lemma loaded_item:
  assumes "v < length h" "v \<notin> reach h t item" "view h t item = Some c"
  shows "view (h[v := [item]]) (TPtr t) (Ptr (Some (v, 0))) = Some (Pointee c)"
    and "reach (h[v := [item]]) (TPtr t) (Ptr (Some (v, 0))) = insert v (reach h t item)"
  using view_update [OF assms(2)] assms(1,3) by (simp_all add: cell_def)

lemma item_kept:
  assumes "v \<notin> reach h t i" "view h t i \<noteq> None" "prefix (h[v := xs]) h2"
  shows "view h2 t i = view h t i" "reach h2 t i = reach h t i"
proof -
  note upd = view_update [OF assms(1,2), of xs]
  have "view (h[v := xs]) t i \<noteq> None" using upd(1) assms(2) by simp
  from view_prefix [OF assms(3) this] upd show "view h2 t i = view h t i" "reach h2 t i = reach h t i" by simp_all
qed

lemma mem_load_refines:
  assumes "foreign_ok fx" "mem_inv fx s" "v \<in> ms_known s"
    and "\<forall>i\<in>set items. view (ms_heap s) (type_StorageProvisioner fx) i \<noteq> None
      \<and> reach (ms_heap s) (type_StorageProvisioner fx) i \<subseteq> ms_known s - {v}"
    and "mem_load x fx dec v items (ms_reg s) (ms_heap s) = (r', h')"
  shows "registry_of fx dec h' r' = load_loop x
    (map (\<lambda>i. dec (Pointee (the (view (ms_heap s) (type_StorageProvisioner fx) i)))) items)
    (registry_of fx dec (ms_heap s) (ms_reg s))"
  using assms(2-5)
proof (induction items arbitrary: s)
  case (Cons item items)
  let ?t = "type_StorageProvisioner fx"
  define s1 where "s1 = s\<lparr>ms_heap := (ms_heap s)[v := [item]]\<rparr>"
  have w: "mem_step x fx dec s Writes s1" unfolding s1_def by (rule mem_step.writes [OF Cons.prems(2)])
  note one = mem_step_refines [OF assms(1) Cons.prems(1) w]
  have v: "v < length (ms_heap s)" using Cons.prems(1,2) unfolding mem_inv_def by blast
  obtain c where c: "view (ms_heap s) ?t item = Some c" and notin: "v \<notin> reach (ms_heap s) ?t item"
    and known: "reach (ms_heap s) ?t item \<subseteq> ms_known s" using Cons.prems(3) by auto
  note loaded = loaded_item [OF v notin c]
  obtain err r2 h2 where put: "mem_Put x fx dec (ms_reg s) (ms_heap s1) (v, 0) = (err, r2, h2)" by (metis prod_cases3)
  have p: "content fx (ms_heap s1) (v, 0) = Some (Pointee c)" "extent fx (ms_heap s1) (v, 0) \<subseteq> ms_known s1"
    using loaded known Cons.prems(2) by (simp_all add: content_def extent_def s1_def)
  define s2 where "s2 = s1\<lparr>ms_reg := r2, ms_heap := h2\<rparr>"
  have put': "mem_Put x fx dec (ms_reg s1) (ms_heap s1) (v, 0) = (err, r2, h2)" using put by (simp add: s1_def)
  have "mem_step x fx dec s1 (Puts (Pointee c) err) s2" unfolding s2_def by (rule mem_step.puts [OF p put'])
  note two = mem_step_refines [OF assms(1) conjunct1 [OF one] this]
  have "all_typed fx (ms_heap s1) (ms_reg s1)" using one unfolding mem_inv_def all_typed_def by blast
  note pre = mem_Put_refines(1) [OF assms(1) this p(1) put']
  have rest: "view (ms_heap s2) ?t i = view (ms_heap s) ?t i \<and> reach (ms_heap s2) ?t i = reach (ms_heap s) ?t i
      \<and> view (ms_heap s) ?t i \<noteq> None \<and> reach (ms_heap s) ?t i \<subseteq> ms_known s - {v}" if "i \<in> set items" for i
    using item_kept [of v "ms_heap s" ?t i "[item]" h2] pre Cons.prems(3) that by (auto simp: s1_def s2_def)
  have load: "mem_load x fx dec v items (ms_reg s2) (ms_heap s2) = (r', h')"
    using Cons.prems(4) put by (simp add: s1_def s2_def)
  have "v \<in> ms_known s2" "ms_known s2 = ms_known s" using Cons.prems(2) by (simp_all add: s1_def s2_def)
  with Cons.IH [OF conjunct1 [OF two] _ _ load] rest
  have "registry_of fx dec h' r' = load_loop x (map (\<lambda>i. dec (Pointee (the (view (ms_heap s2) ?t i)))) items)
      (registry_of fx dec (ms_heap s2) (ms_reg s2))" by simp
  moreover have "map (\<lambda>i. dec (Pointee (the (view (ms_heap s2) ?t i)))) items =
      map (\<lambda>i. dec (Pointee (the (view (ms_heap s) ?t i)))) items" using rest by simp
  ultimately show ?case using one two c by (simp add: value_step_def)
qed (simp add: registry_of_def)

text \<open>
  C32. \<^verbatim>\<open>LoadProvisioners\<close> passes the address of its loop variable to every call of \<^verbatim>\<open>Put\<close>, and still registers each
  item with its own contents: the registry it builds is the one that is built from the values.
\<close>
theorem load_loop_variable:
  assumes "foreign_ok fx" "v < length h"
    and "\<forall>i\<in>set items. view h (type_StorageProvisioner fx) i \<noteq> None \<and> v \<notin> reach h (type_StorageProvisioner fx) i"
    and "mem_load x fx dec v items [] h = (r, h')"
  shows "registry_of fx dec h' r =
    load_loop x (map (\<lambda>i. dec (Pointee (the (view h (type_StorageProvisioner fx) i)))) items) newProvisioners"
proof -
  let ?s = "\<lparr>ms_heap = h, ms_reg = [], ms_known = {..<length h}\<rparr>"
  have "\<forall>i\<in>set items. view h (type_StorageProvisioner fx) i \<noteq> None
      \<and> reach h (type_StorageProvisioner fx) i \<subseteq> {..<length h} - {v}"
    using assms(3) reach_bound(1) by blast
  with mem_load_refines [OF assms(1), of ?s v items x dec r h'] assms(2,4) show ?thesis
    by (simp add: mem_inv_def newProvisioners_def registry_of_def)
qed

section \<open>An example\<close>

definition provisioner_value :: gval where
  "provisioner_value = Struct [(''TypeMeta'', Basic []),
     (''ObjectMeta'', Struct [(''Name'', Basic ''p''), (''DeletionTimestamp'', Ptr None)]),
     (''Spec'', Struct [(''Name'', Basic ''p.example''), (''DeprovisionOnPodCompletion'', Basic []),
        (''PersistentVolumeTemplate'', Basic []), (''PodTemplate'', Basic []),
        (''Containers'', Struct [(''Provisioner'', Struct [(''Command'', Slice (Some (1, 0, 1))), (''Env'', Slice None)]),
           (''Deprovisioner'', Struct [(''Command'', Slice None), (''Env'', Slice None)])]),
        (''Env'', Slice None), (''Nodes'', Slice None)]),
     (''Status'', Struct [(''Conditions'', Slice None)])]"

definition provisioner_memory :: heap where
  "provisioner_memory = [[provisioner_value], [Basic ''/script''], [Basic []]]"

lemma provisioner_value_typed:
  "view provisioner_memory (type_StorageProvisioner plain_foreign) provisioner_value \<noteq> None"
  "reach provisioner_memory (type_StorageProvisioner plain_foreign) provisioner_value = {1}"
  by (simp_all add: provisioner_memory_def provisioner_value_def section_of_def plain_foreign_def type_StorageProvisioner_def
      type_StorageProvisionerSpec_def type_StorageProvisionerStatus_def type_Containers_def type_ProvisionerContainer_def)

definition provisioner_state :: mem_state where
  "provisioner_state = \<lparr>ms_heap = provisioner_memory, ms_reg = [], ms_known = {..<length provisioner_memory}\<rparr>"

lemma provisioner_state_reach: "mem_reach x fx dec provisioner_state"
  unfolding provisioner_state_def by (rule mem_reach.created)

lemma provisioner_registered:
  "\<exists>c s' q. mem_step plain_ext plain_foreign (\<lambda>_. example_provisioner) provisioner_state (Puts c None) s'
    \<and> ms_reg s' = [(''p.example'', Some q)]"
proof -
  have cell: "cell provisioner_memory (0, 0) = Some provisioner_value" by (simp add: cell_def provisioner_memory_def)
  obtain c where "view provisioner_memory (type_StorageProvisioner plain_foreign) provisioner_value = Some c"
    using provisioner_value_typed(1) by blast
  then have c: "content plain_foreign provisioner_memory (0, 0) = Some (Pointee c)" by (simp add: content_def cell)
  have e: "extent plain_foreign provisioner_memory (0, 0) \<subseteq> {..<length provisioner_memory}"
    using reach_bound(1) c unfolding content_def extent_def by blast
  obtain v h' where copy: "StorageProvisioner_DeepCopy plain_foreign (Ptr (Some (0, 0))) provisioner_memory = (v, h')" by fastforce
  from provisioner_copied [OF plain_foreign_ok c copy] obtain q where "v = Ptr (Some q)" by blast
  with copy have put: "mem_Put plain_ext plain_foreign (\<lambda>_. example_provisioner) [] provisioner_memory (0, 0) =
      (None, [(''p.example'', Some q)], h')"
    by (simp add: mem_Put_def read_sp_def example_valid example_name mem_store_def)
  show ?thesis
    using mem_step.puts [of plain_foreign provisioner_state "(0, 0)" "Pointee c" plain_ext "\<lambda>_. example_provisioner"] c e put
    by (fastforce simp: provisioner_state_def)
qed

theorem registry_memory_refines_witness:
  "\<exists>c s'. mem_step plain_ext plain_foreign (\<lambda>_. example_provisioner) provisioner_state (Puts c None) s'
    \<and> Put plain_ext [] example_provisioner =
        (None, registry_of plain_foreign (\<lambda>_. example_provisioner) (ms_heap s') (ms_reg s'))"
proof -
  obtain c s' q where step: "mem_step plain_ext plain_foreign (\<lambda>_. example_provisioner) provisioner_state (Puts c None) s'"
    using provisioner_registered by blast
  from registry_memory_refines [OF plain_foreign_ok provisioner_state_reach step]
  have "Put plain_ext [] example_provisioner =
      (None, registry_of plain_foreign (\<lambda>_. example_provisioner) (ms_heap s') (ms_reg s'))"
    by (simp add: value_step_def provisioner_state_def registry_of_def)
  with step show ?thesis by blast
qed

theorem registry_memory_typed_witness:
  "\<exists>s q. mem_reach plain_ext plain_foreign (\<lambda>_. example_provisioner) s \<and> ms_reg s = [(''p.example'', Some q)]
    \<and> content plain_foreign (ms_heap s) q \<noteq> None
    \<and> extent plain_foreign (ms_heap s) q \<subseteq> {..<length (ms_heap s)} - ms_known s"
proof -
  obtain c s q where step: "mem_step plain_ext plain_foreign (\<lambda>_. example_provisioner) provisioner_state (Puts c None) s"
    and r: "ms_reg s = [(''p.example'', Some q)]"
    using provisioner_registered by blast
  have reach: "mem_reach plain_ext plain_foreign (\<lambda>_. example_provisioner) s"
    by (rule mem_reach.step [OF provisioner_state_reach step])
  have "(''p.example'', Some q) \<in> set (ms_reg s)" using r by simp
  from registry_memory_typed [OF plain_foreign_ok reach this] reach r show ?thesis by blast
qed

theorem load_loop_variable_witness:
  "\<exists>r h'. mem_load plain_ext plain_foreign (\<lambda>_. example_provisioner) 2 [provisioner_value] [] provisioner_memory = (r, h')
    \<and> registry_of plain_foreign (\<lambda>_. example_provisioner) h' r = load_loop plain_ext [example_provisioner] newProvisioners"
proof -
  obtain r h' where l: "mem_load plain_ext plain_foreign (\<lambda>_. example_provisioner) 2 [provisioner_value] [] provisioner_memory = (r, h')"
    by fastforce
  have two: "2 < length provisioner_memory" by (simp add: provisioner_memory_def)
  have "\<forall>i\<in>set [provisioner_value]. view provisioner_memory (type_StorageProvisioner plain_foreign) i \<noteq> None
      \<and> 2 \<notin> reach provisioner_memory (type_StorageProvisioner plain_foreign) i"
    using provisioner_value_typed by simp
  from load_loop_variable [OF plain_foreign_ok two this l] l show ?thesis by simp
qed

end
