(* ===== verification/Spec2Isabelle.thy ===== *)
theory Spec2Isabelle
  imports ManagerMain CacheController LayerfsMain RegistryMemory
begin

text \<open>
  Verification of \<^verbatim>\<open>k8storagex\<close>, a Kubernetes storage provisioner that runs pods to create and remove
  volumes, and of its \<^verbatim>\<open>layerfs\<close> tool, which mounts container images as cache directories.  All paths
  below are relative to \<^verbatim>\<open>src/\<close>.

  \<^bold>\<open>The program.\<close>  The manager (\<^verbatim>\<open>cmd/manager\<close>) loads the \<open>StorageProvisioner\<close> objects into a registry and
  starts four controllers on it.  The claim controller runs a provisioner pod for a claim, creates the
  volume once the pod has succeeded, and gives the claim free after the volume is gone.  The volume
  controller detaches a released volume from its claim, runs a deprovisioner pod and removes its
  finalizer.  The provisioner controller keeps the registry up to date, and the pod controller deletes
  claims that are meant for a single use once their pods have completed.  The pods are built from the templates of
  the provisioner and run as jobs that report to their owner.  The tool (\<^verbatim>\<open>cmd/layerfs\<close>) mounts, commits and
  prunes cache images with buildah (\<^verbatim>\<open>internal/layerfs\<close>) and, when asked to, registers the mounted volumes in
  a \<open>Cache\<close> object of the cluster (\<^verbatim>\<open>internal/ksync\<close>).  A fifth controller, for the \<open>Cache\<close> objects, is in
  the source but commented out in the manager.

  \<^bold>\<open>Reading the model.\<close>  A Go function with effects is a program on a state: an arbitrary world, which
  answers every call to code outside the repository, and the trace of the calls made and their answers
  (\<open>GoPrelude\<close>).  A nil dereference, an index out of range or a write to a nil map is the outcome
  \<open>Panic\<close>; an error is a value.  As the world is arbitrary, a theorem over all worlds covers every
  behaviour of the API server and of other clients, and what a function did is read off its trace.  The API client
  (\<open>KubeClient\<close>), \<^verbatim>\<open>text/template\<close> and the JSON and unstructured conversions (\<open>extlib\<close> in
  \<open>TemplateSubst\<close>), the retry of client-go (\<open>CacheSync\<close>), buildah and the image libraries with the system calls (\<open>LayerfsStore\<close>,
  \<open>LayerfsPrune\<close>) are parameters.  What is relied on is a named hypothesis where it is used:
  \<open>conversion_keeps_nil\<close> (a nil field survives the conversion), \<open>retries_on_conflict\<close> and \<open>optimistic\<close> and
  \<open>available\<close> (updates against a current version succeed), \<open>runs_operation\<close> (the retry of the push runs the
  operation), \<open>reads\<close> (what the image store answers while it is only read), \<open>stable_histories\<close> (an
  image's ID fixes its configuration) and \<open>foreign_ok\<close> (the copies of the Kubernetes types are deep).  Each of
  them is met by a concrete instance in a witness.  Objects are records without addresses; for the registry,
  which hands out pointers, \<open>RegistryMemory\<close> shows that nothing is lost by it.  Machine
  integers are words where they can wrap: the generation of a cache has 64 bits.

  \<^bold>\<open>Theories.\<close>
  \<^item> \<open>GoPrelude\<close>: programs, their weakest preconditions, properties of traces, \<^verbatim>\<open>defer\<close>; \<open>GoStd\<close>: the
    functions of \<^verbatim>\<open>strings\<close>, \<^verbatim>\<open>fmt\<close>, \<^verbatim>\<open>sort\<close>, \<^verbatim>\<open>path/filepath\<close> that are called; \<open>GoSha256\<close>: the digest
    that names resources.
  \<^item> \<open>ApiTypes\<close>: the objects of \<^verbatim>\<open>api/v1alpha1\<close> and of the Kubernetes API as records; \<open>KubeClient\<close>: the
    calls of the API client and their trace entries.
  \<^item> \<open>UtilStrings\<close>, \<open>UtilConditions\<close>, \<open>UtilMappings\<close>: \<^verbatim>\<open>internal/utils/\<close> \<^verbatim>\<open>strings.go\<close>, \<^verbatim>\<open>conditions.go\<close>,
    \<^verbatim>\<open>annotationtoenv.go\<close>, \<^verbatim>\<open>nodepath.go\<close>, \<^verbatim>\<open>podmapper.go\<close>.  Finalizer lists behave like sets (locale
    \<open>finalizer_list\<close>), a resource name fits the limit of Kubernetes and tells its suffix (C40), a condition
    update reports exactly the changes.
  \<^item> \<open>TemplateSubst\<close>, \<open>PodTemplates\<close>: \<^verbatim>\<open>internal/template/template.go\<close> and \<^verbatim>\<open>internal/utils/\<close>
    \<^verbatim>\<open>podtemplate.go\<close>, \<^verbatim>\<open>template.go\<close>, \<^verbatim>\<open>provisioner.go\<close>.  Substitution changes the leaves only; the environment
    of a pod has unique names with the last value; what the shared template passes from one pod to the next.
  \<^item> \<open>Registry\<close>: \<^verbatim>\<open>internal/controllers/storageprovisioner_registry.go\<close>.  The registry refines a map from names to
    slots that are absent, active or disabled (C13, locale \<open>slot_store\<close>); everything reachable in it is
    validated (C30); loading accepts unique names only.
  \<^item> \<open>GoHeap\<close>: the memory of a Go program with typed pointers, slices and maps, and what a deep copy is;
    \<open>DeepCopy\<close>: \<^verbatim>\<open>api/v1alpha1/zz_generated.deepcopy.go\<close>, whose functions share nothing with what they copy (C12);
    \<open>RegistryMemory\<close>: the registry with its pointers, which is the one of values for everybody who can only write
    to memory of their own (C11, C31), also while it is loaded with one loop variable (C32).
  \<^item> \<open>Jobs\<close>: \<^verbatim>\<open>internal/utils/\<close> \<^verbatim>\<open>pod.go\<close>, \<^verbatim>\<open>deleteresource.go\<close>.  The life cycle of a job as a relation
    between outcome and trace (C9, locale \<open>job_runner\<close>), on which both volume controllers rest; the pod of a job
    is mapped back to its owner (C39).
  \<^item> \<open>PVCController\<close>, \<open>PVController\<close>, \<open>ProvisionerController\<close>, \<open>PodController\<close>: the controllers of the
    same names in \<^verbatim>\<open>internal/controllers\<close>.  What each reconciliation may write and what it must have seen
    before (C1, C2, C3, C6, C7, C25, C26, C29), where it makes progress (C23, C24, C28), and when it can panic (C5).
  \<^item> \<open>ManagerMain\<close>: \<^verbatim>\<open>cmd/manager/main.go\<close>.  The flags and the set-up, and the running manager as a step relation over
    the registry and the world in which any controller may take the next step and the world may change in
    between; invariants of all reachable states (C4, C22) and the interplay of the pod and the claim controller (C27).
  \<^item> \<open>CacheSync\<close>, \<open>CacheUpdates\<close>: \<^verbatim>\<open>internal/ksync/sync.go\<close>.  Sequences of registrations keep exactly
    the mounted volumes (C8, locale \<open>mount_table\<close>); the generation counter does not wrap (C35); why no commit
    is ever granted (C36).  Under concurrent writers an update is one atomic step on the history of the object
    (C14, C15) and fails only if others won ten times in a row (C16).
  \<^item> \<open>LayerfsStore\<close>: \<^verbatim>\<open>internal/layerfs/\<close> \<^verbatim>\<open>store.go\<close>, \<^verbatim>\<open>mount.go\<close>, \<^verbatim>\<open>push.go\<close>.  A mount either succeeds or is
    undone (C17), an unmount gives up the container it found unless it is cancelled (C18), and an image is committed
    and pushed only when the container was unmounted cleanly (C19).  \<open>SyncedStore\<close>: \<^verbatim>\<open>internal/ksync/syncedstore.go\<close> over any store
    (C20, C37).  What callers rely on, whichever store they have, is the locale \<open>mount_contract\<close>: the local store
    keeps it, and \<open>embedded_store\<close> passes it on to the synchronized store.
  \<^item> \<open>LayerfsPrune\<close>: \<^verbatim>\<open>internal/layerfs/prune.go\<close>.  Only unreferenced images are deleted (C10), parents are
    kept, the two views of the image tree agree (C34), pruning ends (C33).
  \<^item> \<open>LayerfsCli\<close>: the commands of \<^verbatim>\<open>cmd/layerfs\<close>, composed of the stores; the mount command rests on the
    contract only (locale \<open>mount_command\<close>, interpreted for both stores).
    \<open>LayerfsMain\<close>: the process around them, from the environment and the flags to the exit code; which options
    reach the store (C38), that a second signal ends the process, and, below, the outcome of a mount (C21).
  \<^item> \<open>CacheController\<close>: \<^verbatim>\<open>internal/controllers/cache_controller.go\<close>, with the \<open>Cache\<close> object that
    its closures share as a variable next to the world.

  \<^bold>\<open>Bounds.\<close>  Loops are structural recursion, with one exception: \<open>remove_parents\<close> in \<open>LayerfsPrune\<close> walks
  to the parent image for as long as images can be deleted, and the world decides whether that ends.  It
  takes a number of rounds and answers \<open>None\<close> when they are used up.  More rounds never change an answer, and over a
  store in which an ID fixes the image's configuration as many rounds as the longest history has entries are
  enough (C33).

  \<^bold>\<open>Not modelled.\<close>  Log output; the mutex of the registry, whose operations are single steps, and updates of the registry in the
  middle of a reconciliation; the watches
  of the controllers beyond their predicates and mappers, so that \<open>ManagerMain\<close> lets a controller run at any time;
  the parsing of arguments by cobra and the flag package, whose results are arguments, and the log level; the registration of the API
  group and of the types with the scheme (\<^verbatim>\<open>groupversion_info.go\<close>), which fills a table of the Kubernetes libraries; the
  manifests and end-to-end tests, which are not part of a program.  Where the code shares memory between objects and this can be observed, the sharing is modelled: in the
  pod template, in the loop variable of \<open>removeVolume\<close> and in the cache object of the cache controller.
\<close>


end
